(* ===== verification/Oculus_Prelude.thy ===== *)
theory Oculus_Prelude
  imports Main "HOL-Library.Word"
begin

text \<open>
  Shared ground of the development: the machine integers of the driver, the values a C++
  operation of the driver can fail with, and the little-endian memory image of an integer
  (the driver copies whole packed structs between memory, the socket and the log files, so
  every struct of the model is a list of bytes read and written at fixed offsets).

  Three locales state what a struct codec promises: \<open>struct_codec\<close> (fixed size, reading
  back what was written), \<open>packed_codec\<close> (no padding: writing back what was read gives the
  same bytes) and \<open>nested_codec\<close> (a struct that starts with another struct).
\<close>

section \<open>Machine integers and failures\<close>

type_synonym byte = "8 word"
type_synonym u8 = "8 word"
type_synonym u16 = "16 word"
type_synonym u32 = "32 word"
type_synonym u64 = "64 word"

text \<open>
  What can go wrong in the C++: an exception with its message, the timeout exception of the
  callback queue, and the operations whose behaviour the language leaves undefined (a read or
  write outside an object, the use of a null pointer, a division by zero, a signed overflow, a floating point value
  converted to an integer type that cannot hold it); \<open>Terminates\<close> is \<open>std::terminate\<close>.
\<close>

datatype cxx_error =
    Runtime_error string
  | Timeout_reached
  | Out_of_bounds
  | Null_dereference
  | Division_by_zero
  | Signed_overflow
  | Bad_conversion
  | Terminates

type_synonym 'a result = "cxx_error + 'a"

fun bindR :: "'a result \<Rightarrow> ('a \<Rightarrow> 'b result) \<Rightarrow> 'b result" where
  "bindR (Inl e) f = Inl e"
| "bindR (Inr x) f = f x"

lemma bindR_Inr_iff: "bindR m f = Inr y \<longleftrightarrow> (\<exists>x. m = Inr x \<and> f x = Inr y)"
  by (cases m) auto

lemma bindR_Inl_iff:
  "bindR m f = Inl e \<longleftrightarrow> m = Inl e \<or> (\<exists>x. m = Inr x \<and> f x = Inl e)"
  by (cases m) auto

lemma bindR_assoc: "bindR (bindR m f) g = bindR m (\<lambda>x. bindR (f x) g)"
  by (cases m) simp_all

named_theorems codec_simps \<open>equations that run a struct codec over an append\<close>
named_theorems codec_sizes \<open>the sizes of the encoded structs\<close>

section \<open>Slices of a byte buffer\<close>

definition slice :: "nat \<Rightarrow> nat \<Rightarrow> 'a list \<Rightarrow> 'a list" where
  "slice i n xs = take n (drop i xs)"

lemma length_slice [simp]: "i + n \<le> length xs \<Longrightarrow> length (slice i n xs) = n"
  by (simp add: slice_def)

lemma slice_skip: "length xs \<le> i \<Longrightarrow> slice i n (xs @ ys) = slice (i - length xs) n ys"
  by (simp add: slice_def)

lemma slice_here: "i + n \<le> length xs \<Longrightarrow> slice i n (xs @ ys) = slice i n xs"
  by (simp add: slice_def)

lemma slice_exact: "length xs = n \<Longrightarrow> slice 0 n (xs @ ys) = xs"
  by (simp add: slice_def)

lemma slice_all: "length xs = n \<Longrightarrow> slice 0 n xs = xs"
  by (simp add: slice_def)

lemma slice_join: "j = i + n \<Longrightarrow> slice i n xs @ slice j m xs = slice i (n + m) xs"
  by (simp add: slice_def take_add add.commute [of i n])

lemma slice_join_append:
  "j = i + n \<Longrightarrow> slice i n xs @ slice j m xs @ ys = slice i (n + m) xs @ ys"
  by (simp add: slice_join flip: append_assoc)

lemma slice_take: "i + n \<le> k \<Longrightarrow> slice i n (take k xs) = slice i n xs"
  by (simp add: slice_def drop_take min_def)

lemma slice_0: "slice 0 n xs = take n xs"
  by (simp add: slice_def)

lemma slice_drop: "slice i n (drop j xs) = slice (i + j) n xs"
  by (simp add: slice_def add.commute)

section \<open>Little-endian integers\<close>

fun le_bytes :: "nat \<Rightarrow> nat \<Rightarrow> byte list" where
  "le_bytes 0 n = []"
| "le_bytes (Suc k) n = word_of_nat n # le_bytes k (n div 256)"

fun le_nat :: "byte list \<Rightarrow> nat" where
  "le_nat [] = 0"
| "le_nat (b # bs) = unat b + 256 * le_nat bs"

lemma length_le_bytes [simp]: "length (le_bytes k n) = k"
  by (induction k arbitrary: n) auto

lemma unat_byte_of_nat: "unat (word_of_nat n :: byte) = n mod 256"
  by (simp add: unat_of_nat)

lemma le_nat_le_bytes: "le_nat (le_bytes k n) = n mod 256 ^ k"
proof (induction k arbitrary: n)
  case 0
  then show ?case by simp
next
  case (Suc k)
  then show ?case
    by (simp add: unat_byte_of_nat mod_mult2_eq)
qed

lemma byte_word_of_nat_unat: "(word_of_nat (unat (b :: byte) + 256 * m) :: byte) = b"
proof (rule word_unat_eq_iff [THEN iffD2])
  have "unat b < 256" using unsigned_less [of b] by simp
  then show "unat (word_of_nat (unat b + 256 * m) :: byte) = unat b"
    by (simp only: unat_byte_of_nat) simp
qed

lemma le_bytes_le_nat: "le_bytes (length bs) (le_nat bs) = bs"
proof (induction bs)
  case Nil
  then show ?case by simp
next
  case (Cons b bs)
  have "unat b < 256" using unsigned_less [of b] by simp
  then have "(unat b + 256 * le_nat bs) div 256 = le_nat bs" by simp
  with Cons show ?case
    by (simp only: length_Cons le_bytes.simps le_nat.simps byte_word_of_nat_unat)
qed

lemma le_nat_less: "le_nat bs < 256 ^ length bs"
proof (induction bs)
  case Nil
  then show ?case by simp
next
  case (Cons b bs)
  have "unat b < 256" using unsigned_less [of b] by simp
  with Cons show ?case by simp
qed

text \<open>
  \<open>put_le w\<close> is the memory image of the integer \<open>w\<close>; \<open>get_le i bs\<close> reads an integer of the
  result's width at offset \<open>i\<close>.
\<close>

definition put_le :: "'a::len word \<Rightarrow> byte list" where
  "put_le w = le_bytes (LENGTH('a) div 8) (unat w)"

definition get_le :: "nat \<Rightarrow> byte list \<Rightarrow> 'a::len word" where
  "get_le i bs = word_of_nat (le_nat (slice i (LENGTH('a) div 8) bs))"

lemma length_put_le: "length (put_le (w :: 'a::len word)) = LENGTH('a) div 8"
  by (simp add: put_le_def)

lemma length_put_le_sizes [simp]:
  "length (put_le (a :: u8)) = 1" "length (put_le (b :: u16)) = 2"
  "length (put_le (c :: u32)) = 4" "length (put_le (d :: u64)) = 8"
  "length (put_le (e :: 128 word)) = 16" "length (put_le (f :: 256 word)) = 32"
  by (simp_all add: length_put_le)

lemma get_put_le:
  fixes w :: "'a::len word"
  assumes "8 dvd LENGTH('a)"
  shows "get_le 0 (put_le w @ r) = w"
proof -
  from assms obtain k where k: "LENGTH('a) = 8 * k" by (auto elim: dvdE)
  have "unat w < 2 ^ LENGTH('a)" by (rule unsigned_less)
  moreover have "(2::nat) ^ LENGTH('a) = 256 ^ k" by (simp add: k power_mult)
  ultimately have "unat w mod 256 ^ k = unat w" by simp
  then show ?thesis
    by (simp add: get_le_def put_le_def slice_def k le_nat_le_bytes)
qed

lemma get_put_le_sizes [codec_simps]:
  "get_le 0 (put_le (a :: u8) @ r) = a" "get_le 0 (put_le (b :: u16) @ r) = b"
  "get_le 0 (put_le (c :: u32) @ r) = c" "get_le 0 (put_le (d :: u64) @ r) = d"
  "get_le 0 (put_le (e :: 128 word) @ r) = e" "get_le 0 (put_le (f :: 256 word) @ r) = f"
  by (simp_all add: get_put_le)

lemma get_put_le_alone [codec_simps]:
  "get_le 0 (put_le (a :: u8)) = a" "get_le 0 (put_le (b :: u16)) = b"
  "get_le 0 (put_le (c :: u32)) = c" "get_le 0 (put_le (d :: u64)) = d"
  "get_le 0 (put_le (e :: 128 word)) = e" "get_le 0 (put_le (f :: 256 word)) = f"
  using get_put_le_sizes [where r = "[]"] by simp_all

lemma get_le_skip [codec_simps]:
  "length xs \<le> i \<Longrightarrow> get_le i (xs @ ys) = get_le (i - length xs) ys"
  by (simp add: get_le_def slice_skip)

lemma get_le_take: "i + LENGTH('a::len) div 8 \<le> k
  \<Longrightarrow> (get_le i (take k bs) :: 'a word) = get_le i bs"
  by (simp add: get_le_def slice_take)

lemma get_le_here:
  "i + LENGTH('a::len) div 8 \<le> length bs \<Longrightarrow> (get_le i (bs @ r) :: 'a word) = get_le i bs"
  by (simp add: get_le_def slice_here)

lemma get_le_prefix:
  "i + 1 \<le> length bs \<Longrightarrow> (get_le i (bs @ r) :: u8) = get_le i bs"
  "i + 2 \<le> length bs \<Longrightarrow> (get_le i (bs @ r) :: u16) = get_le i bs"
  "i + 4 \<le> length bs \<Longrightarrow> (get_le i (bs @ r) :: u32) = get_le i bs"
  "i + 8 \<le> length bs \<Longrightarrow> (get_le i (bs @ r) :: u64) = get_le i bs"
  "i + 16 \<le> length bs \<Longrightarrow> (get_le i (bs @ r) :: 128 word) = get_le i bs"
  "i + 32 \<le> length bs \<Longrightarrow> (get_le i (bs @ r) :: 256 word) = get_le i bs"
  by (simp_all add: get_le_here)

lemma put_get_le:
  assumes "8 dvd LENGTH('a::len)" and "i + LENGTH('a) div 8 \<le> length bs"
  shows "put_le (get_le i bs :: 'a word) = slice i (LENGTH('a) div 8) bs"
proof -
  from assms(1) obtain k where k: "LENGTH('a) = 8 * k" by (auto elim: dvdE)
  let ?s = "slice i k bs"
  have len: "length ?s = k" using assms(2) by (simp add: k)
  have "le_nat ?s < 256 ^ k" using le_nat_less [of ?s] by (simp add: len)
  moreover have "(2::nat) ^ LENGTH('a) = 256 ^ k" by (simp add: k power_mult)
  ultimately have "unat (word_of_nat (le_nat ?s) :: 'a word) = le_nat ?s"
    by (simp add: unat_of_nat)
  then show ?thesis
    using le_bytes_le_nat [of ?s] len by (simp add: put_le_def get_le_def k)
qed

lemma put_get_le_sizes:
  "i + 1 \<le> length bs \<Longrightarrow> put_le (get_le i bs :: u8) = slice i 1 bs"
  "i + 2 \<le> length bs \<Longrightarrow> put_le (get_le i bs :: u16) = slice i 2 bs"
  "i + 4 \<le> length bs \<Longrightarrow> put_le (get_le i bs :: u32) = slice i 4 bs"
  "i + 8 \<le> length bs \<Longrightarrow> put_le (get_le i bs :: u64) = slice i 8 bs"
  "i + 16 \<le> length bs \<Longrightarrow> put_le (get_le i bs :: 128 word) = slice i 16 bs"
  "i + 32 \<le> length bs \<Longrightarrow> put_le (get_le i bs :: 256 word) = slice i 32 bs"
  by (simp_all add: put_get_le)

text \<open>Writing back what was read, field by field, joins the slices of the buffer again.\<close>

lemmas repack_simps =
  put_get_le_sizes slice_join slice_join_append slice_drop slice_0 [symmetric]

section \<open>Struct codecs\<close>

text \<open>
  \<open>enc\<close> is the memory image of a struct, \<open>dec\<close> reads a struct at the start of a buffer
  (\<open>None\<close> when the buffer is shorter than the struct) and \<open>sz\<close> is its \<open>sizeof\<close>.
\<close>

locale struct_codec =
  fixes enc :: "'a \<Rightarrow> byte list"
    and dec :: "byte list \<Rightarrow> 'a option"
    and sz :: nat
  assumes enc_length: "length (enc x) = sz"
    and dec_enc: "dec (enc x @ r) = Some x"
    and dec_None: "dec bs = None \<longleftrightarrow> length bs < sz"
    and dec_prefix: "sz \<le> length bs \<Longrightarrow> dec (bs @ r) = dec bs"
begin

lemma dec_enc_alone: "dec (enc x) = Some x"
  using dec_enc [of x "[]"] by simp

lemma enc_inject: "enc x = enc y \<longleftrightarrow> x = y"
  using dec_enc_alone by (metis option.inject)

lemma enc_append_inject: "enc x @ r = enc y @ q \<longleftrightarrow> x = y \<and> r = q"
  by (metis append_same_eq dec_enc option.inject same_append_eq)

lemma dec_Some_length: "dec bs = Some x \<Longrightarrow> sz \<le> length bs"
  using dec_None [of bs] by (cases "length bs < sz") auto

lemma dec_total: "sz \<le> length bs \<Longrightarrow> \<exists>x. dec bs = Some x"
  using dec_None [of bs] by (cases "dec bs") auto

lemma dec_take: "sz \<le> length bs \<Longrightarrow> dec (take sz bs) = dec bs"
  using dec_prefix [of "take sz bs" "drop sz bs"] by simp

lemma drop_enc: "drop sz (enc x @ r) = r"
  by (simp add: enc_length)

end

locale packed_codec = struct_codec +
  assumes enc_dec: "dec bs = Some x \<Longrightarrow> enc x = take sz bs"
begin

lemma dec_Some_iff: "dec bs = Some x \<longleftrightarrow> (\<exists>r. bs = enc x @ r)"
proof
  assume "dec bs = Some x"
  then have "bs = enc x @ drop sz bs" by (simp add: enc_dec)
  then show "\<exists>r. bs = enc x @ r" by blast
qed (auto simp: dec_enc)

lemma dec_eq_take_eq:
  "dec bs = Some x \<Longrightarrow> dec cs = Some x \<Longrightarrow> take sz bs = take sz cs"
  by (metis enc_dec)

end

text \<open>
  A struct whose first member is another struct: reading the first member of its memory
  image gives that member, however the outer struct continues.
\<close>

locale nested_codec = outer: packed_codec oenc odec osz + inner: packed_codec ienc idec isz
  for oenc :: "'a \<Rightarrow> byte list" and odec :: "byte list \<Rightarrow> 'a option" and osz :: nat
    and ienc :: "'b \<Rightarrow> byte list" and idec :: "byte list \<Rightarrow> 'b option" and isz :: nat +
  fixes first :: "'a \<Rightarrow> 'b"
  assumes first_prefix: "take isz (oenc x) = ienc (first x)"
    and inner_smaller: "isz \<le> osz"
begin

lemma inner_of_outer: "odec bs = Some x \<Longrightarrow> idec bs = Some (first x)"
proof -
  assume d: "odec bs = Some x"
  then have "bs = oenc x @ drop osz bs"
    using outer.enc_dec [OF d] by simp
  also have "oenc x = ienc (first x) @ drop isz (oenc x)"
    using first_prefix [of x] by (metis append_take_drop_id)
  finally have "bs = ienc (first x) @ drop isz (oenc x) @ drop osz bs"
    by (simp only: append_assoc)
  then show ?thesis by (metis inner.dec_enc)
qed

end

end
