(* ===== verification/Ieee754.thy ===== *)
theory Ieee754
  imports Oculus_Prelude
begin

text \<open>
  The floating point arithmetic the driver uses, on the bit patterns the structs store:
  binary64 (\<open>double\<close>, a \<open>64 word\<close>) and binary32 (\<open>float\<close>, a \<open>32 word\<close>), round to
  nearest even, with infinities, signed zeros and NaN. Everything computes on integers.
  The lemmas show which comparisons a NaN defeats, that subtraction is antisymmetric and
  that a finite value minus itself is zero.
\<close>

section \<open>Values\<close>

text \<open>\<open>FFin s m e\<close> is \<open>(-1) ^ s * m * 2 ^ e\<close>; a zero mantissa keeps its sign.\<close>

datatype fpv = FNan | FInf bool | FFin bool nat int

text \<open>
  A format is its precision \<open>p\<close> (53 or 24, hidden bit included) and the width \<open>w\<close> of its
  exponent field (11 or 8); the least exponent is that of the subnormals' last bit.
\<close>

definition fp_emin :: "nat \<Rightarrow> nat \<Rightarrow> int" where
  "fp_emin p w = 3 - 2 ^ (w - 1) - int p"

definition fp_decode :: "nat \<Rightarrow> nat \<Rightarrow> nat \<Rightarrow> fpv" where
  "fp_decode p w x =
     (let frac = x mod 2 ^ (p - 1);
          ex = (x div 2 ^ (p - 1)) mod 2 ^ w;
          s = odd (x div 2 ^ (p - 1 + w))
      in if ex = 2 ^ w - 1 then (if frac = 0 then FInf s else FNan)
         else if ex = 0 then FFin s frac (fp_emin p w)
         else FFin s (frac + 2 ^ (p - 1)) (fp_emin p w + int ex - 1))"

definition fp_pack :: "nat \<Rightarrow> nat \<Rightarrow> bool \<Rightarrow> nat \<Rightarrow> nat \<Rightarrow> nat" where
  "fp_pack p w s ex frac = (if s then 2 ^ (p - 1 + w) else 0) + ex * 2 ^ (p - 1) + frac"

definition fp_nan :: "nat \<Rightarrow> nat \<Rightarrow> nat" where
  "fp_nan p w = fp_pack p w False (2 ^ w - 1) (2 ^ (p - 2))"

definition fp_inf :: "nat \<Rightarrow> nat \<Rightarrow> bool \<Rightarrow> nat" where
  "fp_inf p w s = fp_pack p w s (2 ^ w - 1) 0"

fun bit_length :: "nat \<Rightarrow> nat" where
  "bit_length n = (if n = 0 then 0 else Suc (bit_length (n div 2)))"

declare bit_length.simps [simp del]

text \<open>
  Round to nearest even. The exact value is \<open>m * 2 ^ e\<close>, or lies strictly between
  \<open>m * 2 ^ e\<close> and \<open>(m + 1) * 2 ^ e\<close> when \<open>sticky\<close> is set; then \<open>m\<close> has more than \<open>p\<close> bits.
\<close>

definition round_shift :: "nat \<Rightarrow> nat \<Rightarrow> bool \<Rightarrow> nat" where
  "round_shift m d sticky =
     (let q = m div 2 ^ d; r = m mod 2 ^ d; half = 2 ^ (d - 1)
      in if r > half \<or> (r = half \<and> (sticky \<or> odd q)) then q + 1 else q)"

definition fp_round :: "nat \<Rightarrow> nat \<Rightarrow> bool \<Rightarrow> nat \<Rightarrow> int \<Rightarrow> bool \<Rightarrow> nat" where
  "fp_round p w s m e sticky =
     (if m = 0 then fp_pack p w s 0 0
      else let q = max (e + int (bit_length m) - int p) (fp_emin p w);
               m1 = (if q \<le> e then m * 2 ^ nat (e - q) else round_shift m (nat (q - e)) sticky);
               m2 = (if m1 = 2 ^ p then 2 ^ (p - 1) else m1);
               q2 = (if m1 = 2 ^ p then q + 1 else q);
               ex = nat (q2 - fp_emin p w) + 1
           in if m2 < 2 ^ (p - 1) then fp_pack p w s 0 m2
              else if 2 ^ w - 1 \<le> ex then fp_inf p w s
              else fp_pack p w s ex (m2 - 2 ^ (p - 1)))"

section \<open>Arithmetic\<close>

definition signed_mant :: "bool \<Rightarrow> nat \<Rightarrow> int" where
  "signed_mant s m = (if s then - int m else int m)"

fun fp_neg :: "fpv \<Rightarrow> fpv" where
  "fp_neg FNan = FNan"
| "fp_neg (FInf s) = FInf (\<not> s)"
| "fp_neg (FFin s m e) = FFin (\<not> s) m e"

fun fp_abs :: "fpv \<Rightarrow> fpv" where
  "fp_abs FNan = FNan"
| "fp_abs (FInf s) = FInf False"
| "fp_abs (FFin s m e) = FFin False m e"

text \<open>The exact sum of two finite values, as an integer multiple of \<open>2 ^ min e1 e2\<close>.\<close>

definition aligned_sum :: "bool \<Rightarrow> nat \<Rightarrow> int \<Rightarrow> bool \<Rightarrow> nat \<Rightarrow> int \<Rightarrow> int" where
  "aligned_sum s1 m1 e1 s2 m2 e2 =
     (let e = min e1 e2
      in signed_mant s1 m1 * 2 ^ nat (e1 - e) + signed_mant s2 m2 * 2 ^ nat (e2 - e))"

fun fp_add :: "nat \<Rightarrow> nat \<Rightarrow> fpv \<Rightarrow> fpv \<Rightarrow> nat" where
  "fp_add p w FNan y = fp_nan p w"
| "fp_add p w x FNan = fp_nan p w"
| "fp_add p w (FInf s) (FInf t) = (if s = t then fp_inf p w s else fp_nan p w)"
| "fp_add p w (FInf s) (FFin t m e) = fp_inf p w s"
| "fp_add p w (FFin t m e) (FInf s) = fp_inf p w s"
| "fp_add p w (FFin s1 m1 e1) (FFin s2 m2 e2) =
     (let i = aligned_sum s1 m1 e1 s2 m2 e2
      in if i = 0 then fp_round p w (s1 \<and> s2) 0 0 False
         else fp_round p w (i < 0) (nat \<bar>i\<bar>) (min e1 e2) False)"

fun fp_mul :: "nat \<Rightarrow> nat \<Rightarrow> fpv \<Rightarrow> fpv \<Rightarrow> nat" where
  "fp_mul p w FNan y = fp_nan p w"
| "fp_mul p w x FNan = fp_nan p w"
| "fp_mul p w (FInf s) (FInf t) = fp_inf p w (s \<noteq> t)"
| "fp_mul p w (FInf s) (FFin t m e) = (if m = 0 then fp_nan p w else fp_inf p w (s \<noteq> t))"
| "fp_mul p w (FFin t m e) (FInf s) = (if m = 0 then fp_nan p w else fp_inf p w (s \<noteq> t))"
| "fp_mul p w (FFin s1 m1 e1) (FFin s2 m2 e2) = fp_round p w (s1 \<noteq> s2) (m1 * m2) (e1 + e2) False"

text \<open>The quotient is computed to more than \<open>p + 1\<close> bits, the remainder is the sticky bit.\<close>

fun fp_div :: "nat \<Rightarrow> nat \<Rightarrow> fpv \<Rightarrow> fpv \<Rightarrow> nat" where
  "fp_div p w FNan y = fp_nan p w"
| "fp_div p w x FNan = fp_nan p w"
| "fp_div p w (FInf s) (FInf t) = fp_nan p w"
| "fp_div p w (FInf s) (FFin t m e) = fp_inf p w (s \<noteq> t)"
| "fp_div p w (FFin t m e) (FInf s) = fp_pack p w (s \<noteq> t) 0 0"
| "fp_div p w (FFin s1 m1 e1) (FFin s2 m2 e2) =
     (if m2 = 0 then (if m1 = 0 then fp_nan p w else fp_inf p w (s1 \<noteq> s2))
      else let k = p + 2 + bit_length m2
           in fp_round p w (s1 \<noteq> s2) (m1 * 2 ^ k div m2) (e1 - e2 - int k)
                (m1 * 2 ^ k mod m2 \<noteq> 0))"

text \<open>The integer square root, digit by digit in base 4, and the rounded root of a value.\<close>

definition isqrt_digit :: "nat \<Rightarrow> nat \<Rightarrow> nat" where
  "isqrt_digit n r = (if (r + 1) * (r + 1) \<le> n then r + 1 else r)"

fun isqrt :: "nat \<Rightarrow> nat" where
  "isqrt n = (if n = 0 then 0 else isqrt_digit n (2 * isqrt (n div 4)))"

declare isqrt.simps [simp del]

definition root_shift :: "nat \<Rightarrow> int \<Rightarrow> nat" where
  "root_shift p e = 2 * (p + 2) + (if even e then 0 else 1)"

definition fp_root :: "nat \<Rightarrow> nat \<Rightarrow> nat \<Rightarrow> int \<Rightarrow> nat" where
  "fp_root p w n e = (let r = isqrt n in fp_round p w False r e (r * r \<noteq> n))"

fun fp_sqrt :: "nat \<Rightarrow> nat \<Rightarrow> fpv \<Rightarrow> nat" where
  "fp_sqrt p w FNan = fp_nan p w"
| "fp_sqrt p w (FInf s) = (if s then fp_nan p w else fp_inf p w False)"
| "fp_sqrt p w (FFin s m e) =
     (if m = 0 then fp_pack p w s 0 0
      else if s then fp_nan p w
      else fp_root p w (m * 2 ^ root_shift p e) ((e - int (root_shift p e)) div 2))"

text \<open>The value of one format rounded to another.\<close>

fun fp_convert :: "nat \<Rightarrow> nat \<Rightarrow> fpv \<Rightarrow> nat" where
  "fp_convert p w FNan = fp_nan p w"
| "fp_convert p w (FInf s) = fp_inf p w s"
| "fp_convert p w (FFin s m e) = fp_round p w s m e False"

text \<open>Comparisons; every one of them is false on a NaN.\<close>

fun fp_lt :: "fpv \<Rightarrow> fpv \<Rightarrow> bool" where
  "fp_lt FNan y = False"
| "fp_lt x FNan = False"
| "fp_lt (FInf s) (FInf t) = (s \<and> \<not> t)"
| "fp_lt (FInf s) (FFin t m e) = s"
| "fp_lt (FFin t m e) (FInf s) = (\<not> s)"
| "fp_lt (FFin s1 m1 e1) (FFin s2 m2 e2) = (aligned_sum s1 m1 e1 (\<not> s2) m2 e2 < 0)"

fun fp_eq :: "fpv \<Rightarrow> fpv \<Rightarrow> bool" where
  "fp_eq FNan y = False"
| "fp_eq x FNan = False"
| "fp_eq (FInf s) (FInf t) = (s = t)"
| "fp_eq (FInf s) (FFin t m e) = False"
| "fp_eq (FFin t m e) (FInf s) = False"
| "fp_eq (FFin s1 m1 e1) (FFin s2 m2 e2) = (aligned_sum s1 m1 e1 (\<not> s2) m2 e2 = 0)"

text \<open>Conversions from integers (rounded) and to integers (truncated towards zero).\<close>

definition fp_of_int :: "nat \<Rightarrow> nat \<Rightarrow> int \<Rightarrow> nat" where
  "fp_of_int p w i = fp_round p w (i < 0) (nat \<bar>i\<bar>) 0 False"

fun fp_trunc :: "fpv \<Rightarrow> int option" where
  "fp_trunc FNan = None"
| "fp_trunc (FInf s) = None"
| "fp_trunc (FFin s m e) =
     Some (if 0 \<le> e then signed_mant s m * 2 ^ nat e else signed_mant s (m div 2 ^ nat (- e)))"

section \<open>double and float\<close>

type_synonym double = "64 word"
type_synonym float = "32 word"

definition dval :: "double \<Rightarrow> fpv" where
  "dval x = fp_decode 53 11 (unat x)"

definition fval :: "float \<Rightarrow> fpv" where
  "fval x = fp_decode 24 8 (unat x)"

definition d_sub :: "double \<Rightarrow> double \<Rightarrow> double" where
  "d_sub x y = word_of_nat (fp_add 53 11 (dval x) (fp_neg (dval y)))"

definition d_add :: "double \<Rightarrow> double \<Rightarrow> double" where
  "d_add x y = word_of_nat (fp_add 53 11 (dval x) (dval y))"

definition d_mul :: "double \<Rightarrow> double \<Rightarrow> double" where
  "d_mul x y = word_of_nat (fp_mul 53 11 (dval x) (dval y))"

definition d_div :: "double \<Rightarrow> double \<Rightarrow> double" where
  "d_div x y = word_of_nat (fp_div 53 11 (dval x) (dval y))"

definition d_of_int :: "int \<Rightarrow> double" where
  "d_of_int i = word_of_nat (fp_of_int 53 11 i)"

definition d_abs :: "double \<Rightarrow> fpv" where
  "d_abs x = fp_abs (dval x)"

definition f_div :: "float \<Rightarrow> float \<Rightarrow> float" where
  "f_div x y = word_of_nat (fp_div 24 8 (fval x) (fval y))"

definition f_add :: "float \<Rightarrow> float \<Rightarrow> float" where
  "f_add x y = word_of_nat (fp_add 24 8 (fval x) (fval y))"

definition f_sub :: "float \<Rightarrow> float \<Rightarrow> float" where
  "f_sub x y = word_of_nat (fp_add 24 8 (fval x) (fp_neg (fval y)))"

definition f_mul :: "float \<Rightarrow> float \<Rightarrow> float" where
  "f_mul x y = word_of_nat (fp_mul 24 8 (fval x) (fval y))"

text \<open>Negation flips the sign bit, of a NaN too.\<close>

definition f_neg :: "float \<Rightarrow> float" where
  "f_neg x = xor x 0x80000000"

definition f_sqrt :: "float \<Rightarrow> float" where
  "f_sqrt x = word_of_nat (fp_sqrt 24 8 (fval x))"

definition d_sqrt :: "double \<Rightarrow> double" where
  "d_sqrt x = word_of_nat (fp_sqrt 53 11 (dval x))"

definition d_of_float :: "float \<Rightarrow> double" where
  "d_of_float x = word_of_nat (fp_convert 53 11 (fval x))"

definition f_of_double :: "double \<Rightarrow> float" where
  "f_of_double x = word_of_nat (fp_convert 24 8 (dval x))"

definition f_of_int :: "int \<Rightarrow> float" where
  "f_of_int i = word_of_nat (fp_of_int 24 8 i)"

text \<open>
  A decimal literal \<open>n / d\<close> of the source, with \<open>n\<close> and \<open>d\<close> exact doubles: the correctly
  rounded quotient is the correctly rounded literal.
\<close>

definition d_lit :: "int \<Rightarrow> int \<Rightarrow> double" where
  "d_lit n d = d_div (d_of_int n) (d_of_int d)"

text \<open>A double converted to an unsigned integer type of \<open>n\<close> bits: undefined out of range.\<close>

definition d_to_unsigned :: "nat \<Rightarrow> double \<Rightarrow> nat result" where
  "d_to_unsigned n x =
     (case fp_trunc (dval x) of
        None \<Rightarrow> Inl Bad_conversion
      | Some i \<Rightarrow> if 0 \<le> i \<and> i < 2 ^ n then Inr (nat i) else Inl Bad_conversion)"

definition f_to_unsigned :: "nat \<Rightarrow> float \<Rightarrow> nat result" where
  "f_to_unsigned n x =
     (case fp_trunc (fval x) of
        None \<Rightarrow> Inl Bad_conversion
      | Some i \<Rightarrow> if 0 \<le> i \<and> i < 2 ^ n then Inr (nat i) else Inl Bad_conversion)"

section \<open>Facts\<close>

lemma aligned_sum_swap: "aligned_sum s2 m2 e2 s1 m1 e1 = aligned_sum s1 m1 e1 s2 m2 e2"
  by (simp add: aligned_sum_def min.commute add.commute)

lemma aligned_sum_neg:
  "aligned_sum (\<not> s1) m1 e1 (\<not> s2) m2 e2 = - aligned_sum s1 m1 e1 s2 m2 e2"
  by (simp add: aligned_sum_def signed_mant_def Let_def)

lemma aligned_sum_self: "aligned_sum s m e (\<not> s) m e = 0"
  by (simp add: aligned_sum_def signed_mant_def)

lemma fp_lt_irrefl [simp]: "\<not> fp_lt x x"
  by (cases x) (simp_all add: aligned_sum_self)

lemma fp_eq_sym: "fp_eq x y = fp_eq y x"
proof (cases x; cases y)
  fix s1 m1 e1 s2 m2 e2
  assume x: "x = FFin s1 m1 e1" and y: "y = FFin s2 m2 e2"
  have "aligned_sum s2 m2 e2 (\<not> s1) m1 e1 = - aligned_sum s1 m1 e1 (\<not> s2) m2 e2"
    using aligned_sum_neg [of s1 m1 e1 "\<not> s2" m2 e2] aligned_sum_swap by simp
  then show ?thesis by (simp add: x y)
qed auto

lemma fp_eq_refl: "fp_eq x x \<longleftrightarrow> x \<noteq> FNan"
  by (cases x) (simp_all add: aligned_sum_self)

lemma fp_lt_NanD [simp]: "\<not> fp_lt x FNan" "\<not> fp_eq x FNan"
  by (cases x; simp)+

lemma fp_add_Nan_right [simp]: "fp_add p w x FNan = fp_nan p w"
  by (cases x) simp_all

lemma fp_neg_Nan_iff [simp]: "fp_neg x = FNan \<longleftrightarrow> x = FNan"
  by (cases x) simp_all

section \<open>Rounding and signs\<close>

lemma bit_length_bounds: "n < 2 ^ bit_length n \<and> (0 < n \<longrightarrow> 2 ^ (bit_length n - 1) \<le> n)"
proof (induction n rule: bit_length.induct)
  case (1 n)
  show ?case
  proof (cases "n = 0")
    case True
    then show ?thesis by (simp add: bit_length.simps)
  next
    case False
    let ?k = "bit_length (n div 2)"
    have len: "bit_length n = Suc ?k" using False by (simp add: bit_length.simps [of n])
    have up: "n div 2 < 2 ^ ?k" using "1" False by simp
    have "2 ^ ?k \<le> n"
    proof (cases "n div 2 = 0")
      case True
      then show ?thesis using False by (simp add: bit_length.simps)
    next
      case nz: False
      then have "2 ^ (?k - 1) \<le> n div 2" using "1" False by simp
      moreover have "?k = Suc (?k - 1)" using nz by (simp add: bit_length.simps [of "n div 2"])
      ultimately have "2 ^ ?k \<le> 2 * (n div 2)"
        by (metis mult_le_mono2 power_Suc)
      then show ?thesis by simp
    qed
    with up show ?thesis by (simp add: len)
  qed
qed

lemma round_shift_le:
  assumes "m < 2 ^ (k + d)"
  shows "round_shift m d sticky \<le> 2 ^ k"
proof -
  have "m div 2 ^ d < 2 ^ k"
    using assms by (simp add: less_mult_imp_div_less power_add)
  then show ?thesis by (simp add: round_shift_def Let_def)
qed

text \<open>The fields a rounded value is packed from, whatever its sign.\<close>

lemma fp_round_fields:
  assumes "2 \<le> p" and "2 \<le> w"
  obtains ex frac where "\<And>s. fp_round p w s m e sticky = fp_pack p w s ex frac"
    and "ex < 2 ^ w" and "frac < 2 ^ (p - 1)" and "ex = 2 ^ w - 1 \<Longrightarrow> frac = 0"
proof -
  let ?L = "int (bit_length m)"
  define q where "q = max (e + ?L - int p) (fp_emin p w)"
  define m1 where
    "m1 = (if q \<le> e then m * 2 ^ nat (e - q) else round_shift m (nat (q - e)) sticky)"
  define m2 where "m2 = (if m1 = 2 ^ p then 2 ^ (p - 1) else m1)"
  define q2 where "q2 = (if m1 = 2 ^ p then q + 1 else q)"
  define x where "x = nat (q2 - fp_emin p w) + 1"
  have m_up: "m < 2 ^ bit_length m" using bit_length_bounds by blast
  have "m1 \<le> 2 ^ p"
  proof (cases "q \<le> e")
    case True
    then have "bit_length m + nat (e - q) \<le> p" by (auto simp: q_def max_def)
    then have "m * 2 ^ nat (e - q) < 2 ^ bit_length m * 2 ^ nat (e - q)" using m_up by simp
    also have "\<dots> \<le> 2 ^ p"
      by (metis \<open>bit_length m + nat (e - q) \<le> p\<close> one_le_numeral power_add power_increasing)
    finally show ?thesis using True by (simp add: m1_def)
  next
    case False
    then have "bit_length m \<le> p + nat (q - e)" by (simp add: q_def)
    then have "m < 2 ^ (p + nat (q - e))"
      by (meson m_up order_less_le_trans one_le_numeral power_increasing)
    then show ?thesis using False by (simp add: m1_def round_shift_le)
  qed
  moreover have two: "2 ^ p = 2 * (2::nat) ^ (p - 1)"
    using assms(1) by (cases p) auto
  ultimately have m2: "m2 < 2 * 2 ^ (p - 1)" by (auto simp: m2_def)
  have pos: "(0::nat) < 2 ^ w - 1" using one_less_power [of "2::nat" w] assms(2) by simp
  have shape: "fp_round p w s m e sticky =
      (if m = 0 then fp_pack p w s 0 0
       else if m2 < 2 ^ (p - 1) then fp_pack p w s 0 m2
       else if 2 ^ w - 1 \<le> x then fp_pack p w s (2 ^ w - 1) 0
       else fp_pack p w s x (m2 - 2 ^ (p - 1)))" for s
    unfolding fp_round_def Let_def q_def m1_def m2_def q2_def x_def fp_inf_def by simp
  show thesis
  proof (cases "m = 0 \<or> m2 < 2 ^ (p - 1)")
    case True
    then show ?thesis
      using that [of 0 "if m = 0 then 0 else m2"] shape pos by auto
  next
    case nz: False
    show ?thesis
    proof (cases "2 ^ w - 1 \<le> x")
      case True
      then show ?thesis using that [of "2 ^ w - 1" 0] shape nz pos by auto
    next
      case False
      then show ?thesis
        using that [of x "m2 - 2 ^ (p - 1)"] shape nz m2 by auto
    qed
  qed
qed

lemma fp_decode_pack:
  assumes "2 \<le> p" and "ex < 2 ^ w" and "frac < 2 ^ (p - 1)"
  shows "fp_decode p w (fp_pack p w s ex frac) =
     (if ex = 2 ^ w - 1 then (if frac = 0 then FInf s else FNan)
      else if ex = 0 then FFin s frac (fp_emin p w)
      else FFin s (frac + 2 ^ (p - 1)) (fp_emin p w + int ex - 1))"
proof -
  let ?P = "(2::nat) ^ (p - 1)"
  let ?x = "fp_pack p w s ex frac"
  let ?S = "(if s then 1 else 0) :: nat"
  have x: "?x = frac + ?P * (ex + 2 ^ w * ?S)"
    by (simp add: fp_pack_def power_add algebra_simps)
  have f: "?x mod ?P = frac" using assms(3) by (simp add: x)
  have d: "?x div ?P = ex + 2 ^ w * ?S" using assms(3) by (simp add: x)
  have e: "?x div ?P mod 2 ^ w = ex"
    unfolding d mod_mult_self2 using assms(2) by (rule mod_less)
  have "?x div 2 ^ (p - 1 + w) = ?x div ?P div 2 ^ w"
    by (simp add: power_add div_mult2_eq)
  also have "\<dots> = ?S"
    unfolding d using assms(2) by (auto simp only: div_mult_self2 div_less)
  finally have o: "odd (?x div 2 ^ (p - 1 + w)) = s" by simp
  show ?thesis unfolding fp_decode_def Let_def f e o by (rule refl)
qed

lemma fp_pack_less:
  assumes "2 \<le> p" and "ex < 2 ^ w" and "frac < 2 ^ (p - 1)"
  shows "fp_pack p w s ex frac < 2 ^ (p + w)"
proof -
  let ?P = "(2::nat) ^ (p - 1)"
  have "ex * ?P + frac < (ex + 1) * ?P" using assms(3) by simp
  also have "\<dots> \<le> 2 ^ w * ?P" using assms(2) by (intro mult_le_mono1) simp
  finally have "ex * ?P + frac < 2 ^ (p - 1 + w)" by (simp add: power_add mult.commute)
  moreover have "2 ^ (p + w) = 2 * (2::nat) ^ (p - 1 + w)"
    using assms(1) by (cases p) auto
  ultimately show ?thesis by (simp add: fp_pack_def)
qed

lemma dval_pack:
  assumes "ex < 2 ^ 11" and "frac < 2 ^ 52"
  shows "dval (word_of_nat (fp_pack 53 11 s ex frac)) =
     (if ex = 2047 then (if frac = 0 then FInf s else FNan)
      else if ex = 0 then FFin s frac (fp_emin 53 11)
      else FFin s (frac + 2 ^ 52) (fp_emin 53 11 + int ex - 1))"
proof -
  have "fp_pack 53 11 s ex frac < 2 ^ 64" using fp_pack_less [of 53 ex 11 frac s] assms by simp
  then have u: "unat (word_of_nat (fp_pack 53 11 s ex frac) :: double) = fp_pack 53 11 s ex frac"
    by (simp add: unat_of_nat)
  show ?thesis
    unfolding dval_def u using fp_decode_pack [of 53 ex 11 frac s] assms by simp
qed

lemma dval_round_neg:
  "dval (word_of_nat (fp_round 53 11 (\<not> s) m e st)) =
   fp_neg (dval (word_of_nat (fp_round 53 11 s m e st)))"
proof -
  obtain ex frac where "\<And>s. fp_round 53 11 s m e st = fp_pack 53 11 s ex frac"
    and "ex < 2 ^ 11" and "frac < 2 ^ (53 - 1)"
    by (rule fp_round_fields [of 53 11 m e st]) auto
  then show ?thesis by (simp add: dval_pack)
qed

lemma fp_abs_neg [simp]: "fp_abs (fp_neg x) = fp_abs x"
  by (cases x) simp_all

lemma dval_nan [simp]: "dval (word_of_nat (fp_nan 53 11)) = FNan"
  by (simp add: fp_nan_def dval_pack)

lemma dval_inf [simp]: "dval (word_of_nat (fp_inf 53 11 s)) = FInf s"
  by (simp add: fp_inf_def dval_pack)

lemma dval_zero [simp]: "dval (word_of_nat (fp_round 53 11 s 0 e st)) = FFin s 0 (fp_emin 53 11)"
  by (simp add: fp_round_def dval_pack)

text \<open>The distance of two doubles does not depend on their order.\<close>

lemma d_abs_sub_commute: "d_abs (d_sub x y) = d_abs (d_sub y x)"
proof (cases "dval x"; cases "dval y")
  fix s1 m1 e1 s2 m2 e2
  assume x: "dval x = FFin s1 m1 e1" and y: "dval y = FFin s2 m2 e2"
  let ?i = "aligned_sum s1 m1 e1 (\<not> s2) m2 e2" and ?j = "aligned_sum s2 m2 e2 (\<not> s1) m1 e1"
  have j: "?j = - ?i" using aligned_sum_neg [of s1 m1 e1 "\<not> s2" m2 e2] aligned_sum_swap by simp
  show ?thesis
  proof (cases "?i = 0")
    case True
    then show ?thesis using j by (simp add: d_abs_def d_sub_def x y Let_def)
  next
    case False
    then have "(?j < 0) = (\<not> ?i < 0)" using j by linarith
    then show ?thesis
      using False j dval_round_neg [of "?i < 0" "nat \<bar>?i\<bar>" "min e1 e2" False]
      by (simp add: d_abs_def d_sub_def x y Let_def min.commute)
  qed
qed (auto simp: d_abs_def d_sub_def)

lemma d_sub_self: "dval x = FFin s m e \<Longrightarrow> dval (d_sub x x) = FFin False 0 (fp_emin 53 11)"
  using aligned_sum_self [of s m e] by (simp add: d_sub_def Let_def)

lemma dval_sub_Nan: "dval x = FNan \<or> dval y = FNan \<Longrightarrow> dval (d_sub x y) = FNan"
  by (auto simp: d_sub_def)

section \<open>Evaluation\<close>

text \<open>The equations that evaluate closed floating point terms.\<close>

lemmas fp_eval =
  d_lit_def d_add_def d_sub_def d_mul_def d_div_def d_abs_def d_of_int_def d_to_unsigned_def
  f_div_def f_of_int_def f_add_def f_sub_def f_mul_def f_neg_def f_sqrt_def d_sqrt_def
  d_of_float_def f_of_double_def f_to_unsigned_def isqrt.simps isqrt_digit_def root_shift_def fp_root_def
  fp_of_int_def
  fp_round_def fp_pack_def dval_def fval_def fp_decode_def
  fp_emin_def fp_inf_def fp_nan_def round_shift_def bit_length.simps signed_mant_def
  aligned_sum_def Let_def

text \<open>The integer square root is the floor of the root.\<close>

lemma isqrt_bounds: "isqrt n * isqrt n \<le> n \<and> n < (isqrt n + 1) * (isqrt n + 1)"
proof (induction n rule: isqrt.induct)
  case (1 n)
  show ?case
  proof (cases "n = 0")
    case True
    then show ?thesis by (simp add: isqrt.simps)
  next
    case False
    let ?q = "isqrt (n div 4)"
    have q: "?q * ?q \<le> n div 4" "n div 4 < (?q + 1) * (?q + 1)" using "1" False by blast+
    have low: "(2 * ?q) * (2 * ?q) \<le> n" using q(1) by (simp add: algebra_simps)
    have high: "n < (2 * ?q + 2) * (2 * ?q + 2)" using q(2) by (simp add: algebra_simps)
    show ?thesis
      using low high False by (simp add: isqrt.simps [of n] isqrt_digit_def)
  qed
qed

lemma d_lit_254: "d_lit 254 100 = 0x400451EB851EB852"
  by (simp add: fp_eval)

lemma d_lit_tenth: "d_lit 1 10 = 0x3FB999999999999A"
  by (simp add: fp_eval)

lemma d_of_int_50: "d_of_int 50 = 0x4049000000000000"
  by (simp add: fp_eval)

end
