(* ===== verification/Oculus_Wire.thy ===== *)
theory Oculus_Wire
  imports Ieee754
begin

text \<open>
  The structs and enumerations of \<open>include/oculus_driver/Oculus.h\<close>. The structs are packed
  to single bytes (\<open>#pragma pack(push, 1)\<close>), so a struct is a record and its memory image
  the concatenation of its fields; \<open>dec_\<close> reads a field at its offset, \<open>enc_\<close> writes the
  image, \<open>sizeof_\<close> is the size. Every struct is an interpretation of \<open>packed_codec\<close>, every
  struct that starts with another one of \<open>nested_codec\<close>. Field names carry a prefix per
  struct (\<open>fm_\<close> for \<open>OculusSimpleFireMessage\<close>, \<open>pr_\<close> for \<open>OculusSimplePingResult\<close>, ...)
  because the source reuses them; a \<open>double\<close> field is its bit pattern.
\<close>

section \<open>Enumerations\<close>

definition OCULUS_CHECK_ID :: u16 where
  "OCULUS_CHECK_ID = 0x4f53"

datatype OculusMasterStatusType =
  oculusMasterStatusSsblBoot | oculusMasterStatusSsblRun | oculusMasterStatusMainBoot
  | oculusMasterStatusMainRun

fun master_status_code :: "OculusMasterStatusType \<Rightarrow> u8" where
  "master_status_code oculusMasterStatusSsblBoot = 0"
| "master_status_code oculusMasterStatusSsblRun = 1"
| "master_status_code oculusMasterStatusMainBoot = 2"
| "master_status_code oculusMasterStatusMainRun = 3"

datatype OculusPauseReasonType =
  oculusPauseMagSwitch | oculusPauseBootFromMain | oculusPauseFlashError
  | oculusPauseJtagLoad

fun pause_reason_code :: "OculusPauseReasonType \<Rightarrow> u8" where
  "pause_reason_code oculusPauseMagSwitch = 0"
| "pause_reason_code oculusPauseBootFromMain = 1"
| "pause_reason_code oculusPauseFlashError = 2"
| "pause_reason_code oculusPauseJtagLoad = 3"

datatype OculusTemperatureStatusType =
  oculusTempGood | oculusTempOverheat | oculusTempReserved | oculusTempOvermax

fun temperature_status_code :: "OculusTemperatureStatusType \<Rightarrow> u8" where
  "temperature_status_code oculusTempGood = 0"
| "temperature_status_code oculusTempOverheat = 1"
| "temperature_status_code oculusTempReserved = 2"
| "temperature_status_code oculusTempOvermax = 3"

datatype OculusDeviceType =
  deviceTypeUndefined | deviceTypeImagingSonar

fun device_type_code :: "OculusDeviceType \<Rightarrow> u16" where
  "device_type_code deviceTypeUndefined = 0"
| "device_type_code deviceTypeImagingSonar = 1"

datatype OculusMessageType =
  messageSimpleFire | messagePingResult | messageSimplePingResult | messageUserConfig
  | messageDummy

fun message_type_code :: "OculusMessageType \<Rightarrow> u16" where
  "message_type_code messageSimpleFire = 0x15"
| "message_type_code messagePingResult = 0x22"
| "message_type_code messageSimplePingResult = 0x23"
| "message_type_code messageUserConfig = 0x55"
| "message_type_code messageDummy = 0xff"

datatype PingRateType =
  pingRateNormal | pingRateHigh | pingRateHighest | pingRateLow | pingRateLowest
  | pingRateStandby

fun ping_rate_code :: "PingRateType \<Rightarrow> u8" where
  "ping_rate_code pingRateNormal = 0"
| "ping_rate_code pingRateHigh = 1"
| "ping_rate_code pingRateHighest = 2"
| "ping_rate_code pingRateLow = 3"
| "ping_rate_code pingRateLowest = 4"
| "ping_rate_code pingRateStandby = 5"

datatype DataSizeType =
  dataSize8Bit | dataSize16Bit | dataSize24Bit | dataSize32Bit

fun data_size_code :: "DataSizeType \<Rightarrow> u8" where
  "data_size_code dataSize8Bit = 0"
| "data_size_code dataSize16Bit = 1"
| "data_size_code dataSize24Bit = 2"
| "data_size_code dataSize32Bit = 3"

datatype OculusPartNumberType =
  partNumberUndefined | partNumberM370s | partNumberM370s_Artemis | partNumberM370s_Deep
  | partNumberM373s | partNumberM373s_Deep | partNumberM750d | partNumberM750d_Fusion
  | partNumberM750d_Artemis | partNumberM1200d | partNumberM1200d_Deep
  | partNumberM1200d_Artemis | partNumberN1200s | partNumberN1200s_Deep | partNumberEnd

fun part_number_code :: "OculusPartNumberType \<Rightarrow> u16" where
  "part_number_code partNumberUndefined = 0"
| "part_number_code partNumberM370s = 1041"
| "part_number_code partNumberM370s_Artemis = 1229"
| "part_number_code partNumberM370s_Deep = 1217"
| "part_number_code partNumberM373s = 1209"
| "part_number_code partNumberM373s_Deep = 1218"
| "part_number_code partNumberM750d = 1032"
| "part_number_code partNumberM750d_Fusion = 1134"
| "part_number_code partNumberM750d_Artemis = 1135"
| "part_number_code partNumberM1200d = 1042"
| "part_number_code partNumberM1200d_Deep = 1219"
| "part_number_code partNumberM1200d_Artemis = 1228"
| "part_number_code partNumberN1200s = 1220"
| "part_number_code partNumberN1200s_Deep = 1221"
| "part_number_code partNumberEnd = 0xFFFF"

text \<open>The enumerator an integer stands for, if it stands for one.\<close>

definition message_type_of :: "u16 \<Rightarrow> OculusMessageType option" where
  "message_type_of i =
     find (\<lambda>t. message_type_code t = i)
       [messageSimpleFire, messagePingResult, messageSimplePingResult, messageUserConfig,
        messageDummy]"

definition ping_rate_of :: "u8 \<Rightarrow> PingRateType option" where
  "ping_rate_of i =
     find (\<lambda>t. ping_rate_code t = i)
       [pingRateNormal, pingRateHigh, pingRateHighest, pingRateLow, pingRateLowest,
        pingRateStandby]"

definition data_size_of :: "u8 \<Rightarrow> DataSizeType option" where
  "data_size_of i =
     find (\<lambda>t. data_size_code t = i)
       [dataSize8Bit, dataSize16Bit, dataSize24Bit, dataSize32Bit]"

lemma message_type_of_code: "message_type_of (message_type_code t) = Some t"
  by (cases t) (simp_all add: message_type_of_def)

lemma message_type_of_Some: "message_type_of i = Some t \<longleftrightarrow> i = message_type_code t"
  by (auto simp: message_type_of_code) (auto simp: message_type_of_def split: if_splits)

lemma message_type_code_inject: "message_type_code s = message_type_code t \<longleftrightarrow> s = t"
  by (metis message_type_of_code option.inject)

lemma ping_rate_of_code: "ping_rate_of (ping_rate_code t) = Some t"
  by (cases t) (simp_all add: ping_rate_of_def)

lemma data_size_of_code: "data_size_of (data_size_code t) = Some t"
  by (cases t) (simp_all add: data_size_of_def)

lemma data_size_of_None: "data_size_of i = None \<longleftrightarrow> i \<notin> {0, 1, 2, 3}"
  by (auto simp: data_size_of_def)

section \<open>Structs\<close>

text \<open>
  The header of every message; \<open>payloadSize\<close> does not count the header itself.
\<close>

record OculusMessageHeader =
  oculusId :: u16
  srcDeviceId :: u16
  dstDeviceId :: u16
  msgId :: u16
  msgVersion :: u16
  payloadSize :: u32
  spare2 :: u16

definition sizeof_header :: nat where
  "sizeof_header = 16"

definition enc_header :: "OculusMessageHeader \<Rightarrow> byte list" where
  "enc_header x =
     put_le (oculusId x) @ put_le (srcDeviceId x) @ put_le (dstDeviceId x) @
     put_le (msgId x) @ put_le (msgVersion x) @ put_le (payloadSize x) @ put_le (spare2 x)"

definition dec_header :: "byte list \<Rightarrow> OculusMessageHeader option" where
  "dec_header bs =
     (if length bs < 16 then None
      else Some
       \<lparr>oculusId = get_le 0 bs, srcDeviceId = get_le 2 bs, dstDeviceId = get_le 4 bs,
        msgId = get_le 6 bs, msgVersion = get_le 8 bs, payloadSize = get_le 10 bs,
        spare2 = get_le 14 bs\<rparr>)"

lemma length_enc_header [simp, codec_sizes]: "length (enc_header x) = 16"
  by (simp add: enc_header_def)

interpretation header_codec: packed_codec enc_header dec_header 16
proof
  fix x r
  show "length (enc_header x) = 16" by simp
  show "dec_header (enc_header x @ r) = Some x"
    by (simp add: dec_header_def enc_header_def codec_simps)
next
  fix bs :: "byte list"
  show "dec_header bs = None \<longleftrightarrow> length bs < 16"
    by (simp add: dec_header_def)
next
  fix bs r :: "byte list"
  assume "16 \<le> length bs"
  then show "dec_header (bs @ r) = dec_header bs"
    by (simp add: dec_header_def get_le_prefix)
next
  fix bs x
  assume "dec_header bs = Some x"
  then show "enc_header x = take 16 bs"
    by (auto simp: dec_header_def enc_header_def repack_simps split: if_splits option.splits)
qed

text \<open>
  The ping configuration, sent to the sonar and returned in every ping result.
\<close>

record OculusSimpleFireMessage =
  fm_head :: OculusMessageHeader
  fm_masterMode :: u8
  fm_pingRate :: u8
  fm_networkSpeed :: u8
  fm_gammaCorrection :: u8
  fm_flags :: u8
  fm_range :: double
  fm_gainPercent :: double
  fm_speedOfSound :: double
  fm_salinity :: double

definition sizeof_fire :: nat where
  "sizeof_fire = 53"

definition enc_fire :: "OculusSimpleFireMessage \<Rightarrow> byte list" where
  "enc_fire x =
     enc_header (fm_head x) @ put_le (fm_masterMode x) @ put_le (fm_pingRate x) @
     put_le (fm_networkSpeed x) @ put_le (fm_gammaCorrection x) @ put_le (fm_flags x) @
     put_le (fm_range x) @ put_le (fm_gainPercent x) @ put_le (fm_speedOfSound x) @
     put_le (fm_salinity x)"

definition dec_fire :: "byte list \<Rightarrow> OculusSimpleFireMessage option" where
  "dec_fire bs =
     (if length bs < 53 then None
      else (case dec_header bs of None \<Rightarrow> None | Some v_fm_head \<Rightarrow> Some
       \<lparr>fm_head = v_fm_head, fm_masterMode = get_le 16 bs, fm_pingRate = get_le 17 bs,
        fm_networkSpeed = get_le 18 bs, fm_gammaCorrection = get_le 19 bs,
        fm_flags = get_le 20 bs, fm_range = get_le 21 bs, fm_gainPercent = get_le 29 bs,
        fm_speedOfSound = get_le 37 bs, fm_salinity = get_le 45 bs\<rparr>))"

lemma length_enc_fire [simp, codec_sizes]: "length (enc_fire x) = 53"
  by (simp add: enc_fire_def)

interpretation fire_codec: packed_codec enc_fire dec_fire 53
proof
  fix x r
  show "length (enc_fire x) = 53" by simp
  show "dec_fire (enc_fire x @ r) = Some x"
    by (simp add: dec_fire_def enc_fire_def codec_simps header_codec.dec_enc)
next
  fix bs :: "byte list"
  show "dec_fire bs = None \<longleftrightarrow> length bs < 53"
    by (auto simp: dec_fire_def header_codec.dec_None split: option.splits)
next
  fix bs r :: "byte list"
  assume "53 \<le> length bs"
  then show "dec_fire (bs @ r) = dec_fire bs"
    by (simp add: dec_fire_def get_le_prefix header_codec.dec_prefix split: option.split)
next
  fix bs x
  assume "dec_fire bs = Some x"
  then show "enc_fire x = take 53 bs"
    by (auto simp: dec_fire_def enc_fire_def repack_simps header_codec.enc_dec split: if_splits option.splits)
qed

text \<open>
  The configuration of version 2; \<open>fm2_reserved\<close> is the array \<open>uint32_t reserved[8]\<close> as one block
  of 32 bytes.
\<close>

record OculusSimpleFireMessage2 =
  fm2_head :: OculusMessageHeader
  fm2_masterMode :: u8
  fm2_pingRate :: u8
  fm2_networkSpeed :: u8
  fm2_gammaCorrection :: u8
  fm2_flags :: u8
  fm2_rangePercent :: double
  fm2_gainPercent :: double
  fm2_speedOfSound :: double
  fm2_salinity :: double
  fm2_extFlags :: u32
  fm2_reserved :: "256 word"

definition sizeof_fire2 :: nat where
  "sizeof_fire2 = 89"

definition enc_fire2 :: "OculusSimpleFireMessage2 \<Rightarrow> byte list" where
  "enc_fire2 x =
     enc_header (fm2_head x) @ put_le (fm2_masterMode x) @ put_le (fm2_pingRate x) @
     put_le (fm2_networkSpeed x) @ put_le (fm2_gammaCorrection x) @ put_le (fm2_flags x) @
     put_le (fm2_rangePercent x) @ put_le (fm2_gainPercent x) @
     put_le (fm2_speedOfSound x) @ put_le (fm2_salinity x) @ put_le (fm2_extFlags x) @
     put_le (fm2_reserved x)"

definition dec_fire2 :: "byte list \<Rightarrow> OculusSimpleFireMessage2 option" where
  "dec_fire2 bs =
     (if length bs < 89 then None
      else (case dec_header bs of None \<Rightarrow> None | Some v_fm2_head \<Rightarrow> Some
       \<lparr>fm2_head = v_fm2_head, fm2_masterMode = get_le 16 bs, fm2_pingRate = get_le 17 bs,
        fm2_networkSpeed = get_le 18 bs, fm2_gammaCorrection = get_le 19 bs,
        fm2_flags = get_le 20 bs, fm2_rangePercent = get_le 21 bs,
        fm2_gainPercent = get_le 29 bs, fm2_speedOfSound = get_le 37 bs,
        fm2_salinity = get_le 45 bs, fm2_extFlags = get_le 53 bs,
        fm2_reserved = get_le 57 bs\<rparr>))"

lemma length_enc_fire2 [simp, codec_sizes]: "length (enc_fire2 x) = 89"
  by (simp add: enc_fire2_def)

interpretation fire2_codec: packed_codec enc_fire2 dec_fire2 89
proof
  fix x r
  show "length (enc_fire2 x) = 89" by simp
  show "dec_fire2 (enc_fire2 x @ r) = Some x"
    by (simp add: dec_fire2_def enc_fire2_def codec_simps header_codec.dec_enc)
next
  fix bs :: "byte list"
  show "dec_fire2 bs = None \<longleftrightarrow> length bs < 89"
    by (auto simp: dec_fire2_def header_codec.dec_None split: option.splits)
next
  fix bs r :: "byte list"
  assume "89 \<le> length bs"
  then show "dec_fire2 (bs @ r) = dec_fire2 bs"
    by (simp add: dec_fire2_def get_le_prefix header_codec.dec_prefix split: option.split)
next
  fix bs x
  assume "dec_fire2 bs = Some x"
  then show "enc_fire2 x = take 89 bs"
    by (auto simp: dec_fire2_def enc_fire2_def repack_simps header_codec.enc_dec split: if_splits option.splits)
qed

text \<open>
  The ping result of version 1; the bearings follow it, the image is at \<open>pr_imageOffset\<close>.
\<close>

record OculusSimplePingResult =
  pr_fireMessage :: OculusSimpleFireMessage
  pr_pingId :: u32
  pr_status :: u32
  pr_frequency :: double
  pr_temperature :: double
  pr_pressure :: double
  pr_speeedOfSoundUsed :: double
  pr_pingStartTime :: u32
  pr_dataSize :: u8
  pr_rangeResolution :: double
  pr_nRanges :: u16
  pr_nBeams :: u16
  pr_imageOffset :: u32
  pr_imageSize :: u32
  pr_messageSize :: u32

definition sizeof_ping :: nat where
  "sizeof_ping = 122"

definition enc_ping :: "OculusSimplePingResult \<Rightarrow> byte list" where
  "enc_ping x =
     enc_fire (pr_fireMessage x) @ put_le (pr_pingId x) @ put_le (pr_status x) @
     put_le (pr_frequency x) @ put_le (pr_temperature x) @ put_le (pr_pressure x) @
     put_le (pr_speeedOfSoundUsed x) @ put_le (pr_pingStartTime x) @
     put_le (pr_dataSize x) @ put_le (pr_rangeResolution x) @ put_le (pr_nRanges x) @
     put_le (pr_nBeams x) @ put_le (pr_imageOffset x) @ put_le (pr_imageSize x) @
     put_le (pr_messageSize x)"

definition dec_ping :: "byte list \<Rightarrow> OculusSimplePingResult option" where
  "dec_ping bs =
     (if length bs < 122 then None
      else (case dec_fire bs of None \<Rightarrow> None | Some v_pr_fireMessage \<Rightarrow> Some
       \<lparr>pr_fireMessage = v_pr_fireMessage, pr_pingId = get_le 53 bs,
        pr_status = get_le 57 bs, pr_frequency = get_le 61 bs,
        pr_temperature = get_le 69 bs, pr_pressure = get_le 77 bs,
        pr_speeedOfSoundUsed = get_le 85 bs, pr_pingStartTime = get_le 93 bs,
        pr_dataSize = get_le 97 bs, pr_rangeResolution = get_le 98 bs,
        pr_nRanges = get_le 106 bs, pr_nBeams = get_le 108 bs,
        pr_imageOffset = get_le 110 bs, pr_imageSize = get_le 114 bs,
        pr_messageSize = get_le 118 bs\<rparr>))"

lemma length_enc_ping [simp, codec_sizes]: "length (enc_ping x) = 122"
  by (simp add: enc_ping_def)

interpretation ping_codec: packed_codec enc_ping dec_ping 122
proof
  fix x r
  show "length (enc_ping x) = 122" by simp
  show "dec_ping (enc_ping x @ r) = Some x"
    by (simp add: dec_ping_def enc_ping_def codec_simps fire_codec.dec_enc)
next
  fix bs :: "byte list"
  show "dec_ping bs = None \<longleftrightarrow> length bs < 122"
    by (auto simp: dec_ping_def fire_codec.dec_None split: option.splits)
next
  fix bs r :: "byte list"
  assume "122 \<le> length bs"
  then show "dec_ping (bs @ r) = dec_ping bs"
    by (simp add: dec_ping_def get_le_prefix fire_codec.dec_prefix split: option.split)
next
  fix bs x
  assume "dec_ping bs = Some x"
  then show "enc_ping x = take 122 bs"
    by (auto simp: dec_ping_def enc_ping_def repack_simps fire_codec.enc_dec split: if_splits option.splits)
qed

text \<open>
  The ping result of version 2.
\<close>

record OculusSimplePingResult2 =
  pr2_fireMessage :: OculusSimpleFireMessage2
  pr2_pingId :: u32
  pr2_status :: u32
  pr2_frequency :: double
  pr2_temperature :: double
  pr2_pressure :: double
  pr2_heading :: double
  pr2_pitch :: double
  pr2_roll :: double
  pr2_speeedOfSoundUsed :: double
  pr2_pingStartTime :: double
  pr2_dataSize :: u8
  pr2_rangeResolution :: double
  pr2_nRanges :: u16
  pr2_nBeams :: u16
  pr2_spare0 :: u32
  pr2_spare1 :: u32
  pr2_spare2 :: u32
  pr2_spare3 :: u32
  pr2_imageOffset :: u32
  pr2_imageSize :: u32
  pr2_messageSize :: u32

definition sizeof_ping2 :: nat where
  "sizeof_ping2 = 202"

definition enc_ping2 :: "OculusSimplePingResult2 \<Rightarrow> byte list" where
  "enc_ping2 x =
     enc_fire2 (pr2_fireMessage x) @ put_le (pr2_pingId x) @ put_le (pr2_status x) @
     put_le (pr2_frequency x) @ put_le (pr2_temperature x) @ put_le (pr2_pressure x) @
     put_le (pr2_heading x) @ put_le (pr2_pitch x) @ put_le (pr2_roll x) @
     put_le (pr2_speeedOfSoundUsed x) @ put_le (pr2_pingStartTime x) @
     put_le (pr2_dataSize x) @ put_le (pr2_rangeResolution x) @ put_le (pr2_nRanges x) @
     put_le (pr2_nBeams x) @ put_le (pr2_spare0 x) @ put_le (pr2_spare1 x) @
     put_le (pr2_spare2 x) @ put_le (pr2_spare3 x) @ put_le (pr2_imageOffset x) @
     put_le (pr2_imageSize x) @ put_le (pr2_messageSize x)"

definition dec_ping2 :: "byte list \<Rightarrow> OculusSimplePingResult2 option" where
  "dec_ping2 bs =
     (if length bs < 202 then None
      else (case dec_fire2 bs of None \<Rightarrow> None | Some v_pr2_fireMessage \<Rightarrow> Some
       \<lparr>pr2_fireMessage = v_pr2_fireMessage, pr2_pingId = get_le 89 bs,
        pr2_status = get_le 93 bs, pr2_frequency = get_le 97 bs,
        pr2_temperature = get_le 105 bs, pr2_pressure = get_le 113 bs,
        pr2_heading = get_le 121 bs, pr2_pitch = get_le 129 bs, pr2_roll = get_le 137 bs,
        pr2_speeedOfSoundUsed = get_le 145 bs, pr2_pingStartTime = get_le 153 bs,
        pr2_dataSize = get_le 161 bs, pr2_rangeResolution = get_le 162 bs,
        pr2_nRanges = get_le 170 bs, pr2_nBeams = get_le 172 bs,
        pr2_spare0 = get_le 174 bs, pr2_spare1 = get_le 178 bs, pr2_spare2 = get_le 182 bs,
        pr2_spare3 = get_le 186 bs, pr2_imageOffset = get_le 190 bs,
        pr2_imageSize = get_le 194 bs, pr2_messageSize = get_le 198 bs\<rparr>))"

lemma length_enc_ping2 [simp, codec_sizes]: "length (enc_ping2 x) = 202"
  by (simp add: enc_ping2_def)

interpretation ping2_codec: packed_codec enc_ping2 dec_ping2 202
proof
  fix x r
  show "length (enc_ping2 x) = 202" by simp
  show "dec_ping2 (enc_ping2 x @ r) = Some x"
    by (simp add: dec_ping2_def enc_ping2_def codec_simps fire2_codec.dec_enc)
next
  fix bs :: "byte list"
  show "dec_ping2 bs = None \<longleftrightarrow> length bs < 202"
    by (auto simp: dec_ping2_def fire2_codec.dec_None split: option.splits)
next
  fix bs r :: "byte list"
  assume "202 \<le> length bs"
  then show "dec_ping2 (bs @ r) = dec_ping2 bs"
    by (simp add: dec_ping2_def get_le_prefix fire2_codec.dec_prefix split: option.split)
next
  fix bs x
  assume "dec_ping2 bs = Some x"
  then show "enc_ping2 x = take 202 bs"
    by (auto simp: dec_ping2_def enc_ping2_def repack_simps fire2_codec.enc_dec split: if_splits option.splits)
qed

text \<open>
  The firmware versions.
\<close>

record OculusVersionInfo =
  vi_firmwareVersion0 :: u32
  vi_firmwareDate0 :: u32
  vi_firmwareVersion1 :: u32
  vi_firmwareDate1 :: u32
  vi_firmwareVersion2 :: u32
  vi_firmwareDate2 :: u32

definition sizeof_version :: nat where
  "sizeof_version = 24"

definition enc_version :: "OculusVersionInfo \<Rightarrow> byte list" where
  "enc_version x =
     put_le (vi_firmwareVersion0 x) @ put_le (vi_firmwareDate0 x) @
     put_le (vi_firmwareVersion1 x) @ put_le (vi_firmwareDate1 x) @
     put_le (vi_firmwareVersion2 x) @ put_le (vi_firmwareDate2 x)"

definition dec_version :: "byte list \<Rightarrow> OculusVersionInfo option" where
  "dec_version bs =
     (if length bs < 24 then None
      else Some
       \<lparr>vi_firmwareVersion0 = get_le 0 bs, vi_firmwareDate0 = get_le 4 bs,
        vi_firmwareVersion1 = get_le 8 bs, vi_firmwareDate1 = get_le 12 bs,
        vi_firmwareVersion2 = get_le 16 bs, vi_firmwareDate2 = get_le 20 bs\<rparr>)"

lemma length_enc_version [simp, codec_sizes]: "length (enc_version x) = 24"
  by (simp add: enc_version_def)

interpretation version_codec: packed_codec enc_version dec_version 24
proof
  fix x r
  show "length (enc_version x) = 24" by simp
  show "dec_version (enc_version x @ r) = Some x"
    by (simp add: dec_version_def enc_version_def codec_simps)
next
  fix bs :: "byte list"
  show "dec_version bs = None \<longleftrightarrow> length bs < 24"
    by (simp add: dec_version_def)
next
  fix bs r :: "byte list"
  assume "24 \<le> length bs"
  then show "dec_version (bs @ r) = dec_version bs"
    by (simp add: dec_version_def get_le_prefix)
next
  fix bs x
  assume "dec_version bs = Some x"
  then show "enc_version x = take 24 bs"
    by (auto simp: dec_version_def enc_version_def repack_simps split: if_splits option.splits)
qed

text \<open>
  The status datagram the sonar broadcasts.
\<close>

record OculusStatusMsg =
  st_hdr :: OculusMessageHeader
  st_deviceId :: u32
  st_deviceType :: u16
  st_partNumber :: u16
  st_status :: u32
  st_versinInfo :: OculusVersionInfo
  st_ipAddr :: u32
  st_ipMask :: u32
  st_connectedIpAddr :: u32
  st_macAddr0 :: u8
  st_macAddr1 :: u8
  st_macAddr2 :: u8
  st_macAddr3 :: u8
  st_macAddr4 :: u8
  st_macAddr5 :: u8
  st_temperature0 :: double
  st_temperature1 :: double
  st_temperature2 :: double
  st_temperature3 :: double
  st_temperature4 :: double
  st_temperature5 :: double
  st_temperature6 :: double
  st_temperature7 :: double
  st_pressure :: double

definition sizeof_status :: nat where
  "sizeof_status = 142"

definition enc_status :: "OculusStatusMsg \<Rightarrow> byte list" where
  "enc_status x =
     enc_header (st_hdr x) @ put_le (st_deviceId x) @ put_le (st_deviceType x) @
     put_le (st_partNumber x) @ put_le (st_status x) @ enc_version (st_versinInfo x) @
     put_le (st_ipAddr x) @ put_le (st_ipMask x) @ put_le (st_connectedIpAddr x) @
     put_le (st_macAddr0 x) @ put_le (st_macAddr1 x) @ put_le (st_macAddr2 x) @
     put_le (st_macAddr3 x) @ put_le (st_macAddr4 x) @ put_le (st_macAddr5 x) @
     put_le (st_temperature0 x) @ put_le (st_temperature1 x) @ put_le (st_temperature2 x) @
     put_le (st_temperature3 x) @ put_le (st_temperature4 x) @ put_le (st_temperature5 x) @
     put_le (st_temperature6 x) @ put_le (st_temperature7 x) @ put_le (st_pressure x)"

definition dec_status :: "byte list \<Rightarrow> OculusStatusMsg option" where
  "dec_status bs =
     (if length bs < 142 then None
      else (case dec_header bs of None \<Rightarrow> None | Some v_st_hdr \<Rightarrow> (case dec_version (drop 28 bs) of None \<Rightarrow> None | Some v_st_versinInfo \<Rightarrow> Some
       \<lparr>st_hdr = v_st_hdr, st_deviceId = get_le 16 bs, st_deviceType = get_le 20 bs,
        st_partNumber = get_le 22 bs, st_status = get_le 24 bs,
        st_versinInfo = v_st_versinInfo, st_ipAddr = get_le 52 bs,
        st_ipMask = get_le 56 bs, st_connectedIpAddr = get_le 60 bs,
        st_macAddr0 = get_le 64 bs, st_macAddr1 = get_le 65 bs, st_macAddr2 = get_le 66 bs,
        st_macAddr3 = get_le 67 bs, st_macAddr4 = get_le 68 bs, st_macAddr5 = get_le 69 bs,
        st_temperature0 = get_le 70 bs, st_temperature1 = get_le 78 bs,
        st_temperature2 = get_le 86 bs, st_temperature3 = get_le 94 bs,
        st_temperature4 = get_le 102 bs, st_temperature5 = get_le 110 bs,
        st_temperature6 = get_le 118 bs, st_temperature7 = get_le 126 bs,
        st_pressure = get_le 134 bs\<rparr>)))"

lemma length_enc_status [simp, codec_sizes]: "length (enc_status x) = 142"
  by (simp add: enc_status_def)

interpretation status_codec: packed_codec enc_status dec_status 142
proof
  fix x r
  show "length (enc_status x) = 142" by simp
  show "dec_status (enc_status x @ r) = Some x"
    by (simp add: dec_status_def enc_status_def codec_simps header_codec.dec_enc version_codec.dec_enc)
next
  fix bs :: "byte list"
  show "dec_status bs = None \<longleftrightarrow> length bs < 142"
    by (auto simp: dec_status_def header_codec.dec_None version_codec.dec_None split: option.splits)
next
  fix bs r :: "byte list"
  assume "142 \<le> length bs"
  then show "dec_status (bs @ r) = dec_status bs"
    by (simp add: dec_status_def get_le_prefix header_codec.dec_prefix version_codec.dec_prefix split: option.split)
next
  fix bs x
  assume "dec_status bs = Some x"
  then show "enc_status x = take 142 bs"
    by (auto simp: dec_status_def enc_status_def repack_simps header_codec.enc_dec version_codec.enc_dec split: if_splits option.splits)
qed

text \<open>
  The network configuration of the sonar.
\<close>

record OculusUserConfig =
  uc_ipAddr :: u32
  uc_ipMask :: u32
  uc_dhcpEnable :: u32

definition sizeof_user_config :: nat where
  "sizeof_user_config = 12"

definition enc_user_config :: "OculusUserConfig \<Rightarrow> byte list" where
  "enc_user_config x =
     put_le (uc_ipAddr x) @ put_le (uc_ipMask x) @ put_le (uc_dhcpEnable x)"

definition dec_user_config :: "byte list \<Rightarrow> OculusUserConfig option" where
  "dec_user_config bs =
     (if length bs < 12 then None
      else Some
       \<lparr>uc_ipAddr = get_le 0 bs, uc_ipMask = get_le 4 bs, uc_dhcpEnable = get_le 8 bs\<rparr>)"

lemma length_enc_user_config [simp, codec_sizes]: "length (enc_user_config x) = 12"
  by (simp add: enc_user_config_def)

interpretation user_config_codec: packed_codec enc_user_config dec_user_config 12
proof
  fix x r
  show "length (enc_user_config x) = 12" by simp
  show "dec_user_config (enc_user_config x @ r) = Some x"
    by (simp add: dec_user_config_def enc_user_config_def codec_simps)
next
  fix bs :: "byte list"
  show "dec_user_config bs = None \<longleftrightarrow> length bs < 12"
    by (simp add: dec_user_config_def)
next
  fix bs r :: "byte list"
  assume "12 \<le> length bs"
  then show "dec_user_config (bs @ r) = dec_user_config bs"
    by (simp add: dec_user_config_def get_le_prefix)
next
  fix bs x
  assume "dec_user_config bs = Some x"
  then show "enc_user_config x = take 12 bs"
    by (auto simp: dec_user_config_def enc_user_config_def repack_simps split: if_splits option.splits)
qed

text \<open>
  The message that carries it.
\<close>

record OculusUserConfigMessage =
  um_head :: OculusMessageHeader
  um_config :: OculusUserConfig

definition sizeof_user_config_msg :: nat where
  "sizeof_user_config_msg = 28"

definition enc_user_config_msg :: "OculusUserConfigMessage \<Rightarrow> byte list" where
  "enc_user_config_msg x =
     enc_header (um_head x) @ enc_user_config (um_config x)"

definition dec_user_config_msg :: "byte list \<Rightarrow> OculusUserConfigMessage option" where
  "dec_user_config_msg bs =
     (if length bs < 28 then None
      else (case dec_header bs of None \<Rightarrow> None | Some v_um_head \<Rightarrow> (case dec_user_config (drop 16 bs) of None \<Rightarrow> None | Some v_um_config \<Rightarrow> Some
       \<lparr>um_head = v_um_head, um_config = v_um_config\<rparr>)))"

lemma length_enc_user_config_msg [simp, codec_sizes]: "length (enc_user_config_msg x) = 28"
  by (simp add: enc_user_config_msg_def)

interpretation user_config_msg_codec: packed_codec enc_user_config_msg dec_user_config_msg 28
proof
  fix x r
  show "length (enc_user_config_msg x) = 28" by simp
  show "dec_user_config_msg (enc_user_config_msg x @ r) = Some x"
    by (simp add: dec_user_config_msg_def enc_user_config_msg_def codec_simps header_codec.dec_enc user_config_codec.dec_enc)
next
  fix bs :: "byte list"
  show "dec_user_config_msg bs = None \<longleftrightarrow> length bs < 28"
    by (auto simp: dec_user_config_msg_def header_codec.dec_None user_config_codec.dec_None split: option.splits)
next
  fix bs r :: "byte list"
  assume "28 \<le> length bs"
  then show "dec_user_config_msg (bs @ r) = dec_user_config_msg bs"
    by (simp add: dec_user_config_msg_def get_le_prefix header_codec.dec_prefix user_config_codec.dec_prefix split: option.split)
next
  fix bs x
  assume "dec_user_config_msg bs = Some x"
  then show "enc_user_config_msg x = take 28 bs"
    by (auto simp: dec_user_config_msg_def enc_user_config_msg_def repack_simps header_codec.enc_dec user_config_codec.enc_dec split: if_splits option.splits)
qed

section \<open>Structs that start with another struct\<close>

text \<open>
  A message of version 2 is also read as one of version 1 by the code that only needs the
  configuration: the first 53 bytes of \<open>OculusSimpleFireMessage2\<close> are those of
  \<open>OculusSimpleFireMessage\<close>.
\<close>

definition fire_view :: "OculusSimpleFireMessage2 \<Rightarrow> OculusSimpleFireMessage" where
  "fire_view m =
     \<lparr>fm_head = fm2_head m, fm_masterMode = fm2_masterMode m, fm_pingRate = fm2_pingRate m,
      fm_networkSpeed = fm2_networkSpeed m, fm_gammaCorrection = fm2_gammaCorrection m,
      fm_flags = fm2_flags m, fm_range = fm2_rangePercent m,
      fm_gainPercent = fm2_gainPercent m, fm_speedOfSound = fm2_speedOfSound m,
      fm_salinity = fm2_salinity m\<rparr>"

interpretation fire_header:
  nested_codec enc_fire dec_fire 53 enc_header dec_header 16 fm_head
  by unfold_locales (simp_all add: enc_fire_def)

interpretation fire2_fire:
  nested_codec enc_fire2 dec_fire2 89 enc_fire dec_fire 53 fire_view
  by unfold_locales (simp_all add: enc_fire2_def enc_fire_def fire_view_def)

interpretation ping_fire:
  nested_codec enc_ping dec_ping 122 enc_fire dec_fire 53 pr_fireMessage
  by unfold_locales (simp_all add: enc_ping_def)

interpretation ping2_fire2:
  nested_codec enc_ping2 dec_ping2 202 enc_fire2 dec_fire2 89 pr2_fireMessage
  by unfold_locales (simp_all add: enc_ping2_def)

interpretation status_header:
  nested_codec enc_status dec_status 142 enc_header dec_header 16 st_hdr
  by unfold_locales (simp_all add: enc_status_def)

interpretation user_config_header:
  nested_codec enc_user_config_msg dec_user_config_msg 28 enc_header dec_header 16 um_head
  by unfold_locales (simp_all add: enc_user_config_msg_def)

lemma header_of_ping:
  "dec_ping bs = Some p \<Longrightarrow> dec_header bs = Some (fm_head (pr_fireMessage p))"
  by (blast dest: ping_fire.inner_of_outer fire_header.inner_of_outer)

lemma fire_of_ping2: "dec_ping2 bs = Some p \<Longrightarrow> dec_fire bs = Some (fire_view (pr2_fireMessage p))"
  by (blast dest: ping2_fire2.inner_of_outer fire2_fire.inner_of_outer)

section \<open>The sonar models\<close>

text \<open>
  The table of the maximum ranges by part number. The last row marks the end of the list;
  the members an initialiser leaves out are zero, the \<open>model\<close> pointer is null in every row. The ranges,
  doubles in the source, are whole metres in every row.
\<close>

record OculusInfo =
  oi_partNumber :: OculusPartNumberType
  oi_hasLF :: u8
  oi_maxLF :: int
  oi_hasHF :: u8
  oi_maxHF :: int

definition OculusSonarInfo :: "OculusInfo list" where
  "OculusSonarInfo =
     (let row = (\<lambda>p lf rlf hf rhf. \<lparr>oi_partNumber = p, oi_hasLF = lf, oi_maxLF = rlf,
                                     oi_hasHF = hf, oi_maxHF = rhf\<rparr>)
      in [row partNumberUndefined 1 120 1 40,
          row partNumberM370s 1 200 0 (-1),
          row partNumberM370s_Artemis 1 200 0 (-1),
          row partNumberM370s_Deep 1 200 0 (-1),
          row partNumberM373s 1 200 0 (-1),
          row partNumberM373s_Deep 1 200 0 (-1),
          row partNumberM1200d 1 40 1 10,
          row partNumberM1200d_Deep 1 40 1 10,
          row partNumberEnd 0 0 0 0])"

lemma sonar_info_end: "oi_partNumber (last OculusSonarInfo) = partNumberEnd"
  by (simp add: OculusSonarInfo_def Let_def)

lemma sonar_info_ranges:
  "i \<in> set (butlast OculusSonarInfo) \<Longrightarrow>
     oi_hasLF i = 1 \<and> (oi_hasHF i = 0 \<longleftrightarrow> oi_maxHF i = -1) \<and> oi_maxHF i < oi_maxLF i"
  by (auto simp: OculusSonarInfo_def Let_def)

end
