(* ===== verification/Oculus_Utils.thy ===== *)
theory Oculus_Utils
  imports Oculus_Wire
begin

text \<open>
  The predicates and the default configuration of \<open>include/oculus_driver/utils.h\<close>: which
  headers are valid, which are ping results, whether the sonar's feedback confirms a
  requested configuration, and whether two configurations differ. Doubles are compared as
  the hardware does, so a NaN confirms nothing and changes nothing. \<open>config_changed\<close> calls \<open>abs\<close>
  without a namespace: the driver is modelled with the overload on doubles, and
  \<open>config_changed_with\<close> has the one on integers as well.
\<close>

section \<open>Headers\<close>

definition header_valid :: "OculusMessageHeader \<Rightarrow> bool" where
  "header_valid header \<longleftrightarrow> oculusId header = 0x4f53"

definition is_ping_header :: "OculusMessageHeader \<Rightarrow> bool" where
  "is_ping_header header \<longleftrightarrow>
     header_valid header \<and> msgId header = message_type_code messageSimplePingResult"

section \<open>The default configuration\<close>

definition zero_header :: OculusMessageHeader where
  "zero_header =
     \<lparr>oculusId = 0, srcDeviceId = 0, dstDeviceId = 0, msgId = 0, msgVersion = 0,
      payloadSize = 0, spare2 = 0\<rparr>"

definition default_ping_config :: OculusSimpleFireMessage where
  "default_ping_config =
     \<lparr>fm_head = zero_header
        \<lparr>oculusId := OCULUS_CHECK_ID, msgId := message_type_code messageSimpleFire,
         srcDeviceId := 0, dstDeviceId := 0,
         payloadSize := word_of_nat (sizeof_fire - sizeof_header)\<rparr>,
      fm_masterMode = 2, fm_pingRate = ping_rate_code pingRateNormal, fm_networkSpeed = 0xff,
      fm_gammaCorrection = 127, fm_flags = or (or 0x1 0x4) 0x8,
      fm_range = d_lit 254 100, fm_gainPercent = d_of_int 50, fm_speedOfSound = d_of_int 0,
      fm_salinity = d_of_int 0\<rparr>"

section \<open>Comparing configurations\<close>

text \<open>\<open>std::abs(x - y) < 1.0e-1\<close> and \<open>abs(x - y) > bound\<close> on doubles.\<close>

definition close_to :: "double \<Rightarrow> double \<Rightarrow> bool" where
  "close_to x y = fp_lt (d_abs (d_sub x y)) (dval (d_lit 1 10))"

definition differ_by :: "double \<Rightarrow> double \<Rightarrow> double \<Rightarrow> bool" where
  "differ_by bound x y = fp_lt (dval bound) (d_abs (d_sub x y))"

definition check_config_feedback ::
    "OculusSimpleFireMessage \<Rightarrow> OculusSimpleFireMessage \<Rightarrow> bool" where
  "check_config_feedback requested feedback =
     (if fm_pingRate requested = ping_rate_code pingRateStandby then
        msgId (fm_head feedback) = message_type_code messageDummy
      else if msgId (fm_head feedback) = message_type_code messageSimplePingResult
           \<and> fm_masterMode requested = fm_masterMode feedback
           \<and> fm_gammaCorrection requested = fm_gammaCorrection feedback
           \<and> fm_flags requested = fm_flags feedback
           \<and> fp_eq (dval (fm_range requested)) (dval (fm_range feedback))
           \<and> close_to (fm_gainPercent requested) (fm_gainPercent feedback) then
        (if \<not> fp_eq (dval (fm_speedOfSound requested)) (dval (d_of_int 0))
         then close_to (fm_speedOfSound requested) (fm_speedOfSound feedback)
         else close_to (fm_salinity requested) (fm_salinity feedback))
      else False)"

definition config_changed ::
    "OculusSimpleFireMessage \<Rightarrow> OculusSimpleFireMessage \<Rightarrow> bool" where
  "config_changed previous next =
     (if fm_masterMode previous \<noteq> fm_masterMode next then True
      else if fm_pingRate previous \<noteq> fm_pingRate next then True
      else if fm_networkSpeed previous \<noteq> fm_networkSpeed next then True
      else if fm_gammaCorrection previous \<noteq> fm_gammaCorrection next then True
      else if fm_flags previous \<noteq> fm_flags next then True
      else if differ_by (d_lit 1 1000) (fm_range previous) (fm_range next) then True
      else if differ_by (d_lit 1 10) (fm_gainPercent previous) (fm_gainPercent next) then True
      else if differ_by (d_lit 1 10) (fm_speedOfSound previous) (fm_speedOfSound next) then True
      else if differ_by (d_lit 1 10) (fm_salinity previous) (fm_salinity next) then True
      else False)"

text \<open>
  Which \<open>abs\<close> the unqualified call finds depends on the headers of the compiler; the one of C, on
  integers, has its argument converted.
\<close>

datatype abs_overload = Abs_float | Abs_int

fun abs_above :: "abs_overload \<Rightarrow> double \<Rightarrow> double \<Rightarrow> double \<Rightarrow> bool result" where
  "abs_above Abs_float bound x y = Inr (differ_by bound x y)"
| "abs_above Abs_int bound x y =
     (case fp_trunc (dval (d_sub x y)) of
        None \<Rightarrow> Inl Bad_conversion
      | Some i \<Rightarrow> if - (2 ^ 31) < i \<and> i < 2 ^ 31 then Inr (fp_lt (dval bound) (dval (d_of_int \<bar>i\<bar>)))
                  else Inl Bad_conversion)"

definition config_changed_with ::
    "abs_overload \<Rightarrow> OculusSimpleFireMessage \<Rightarrow> OculusSimpleFireMessage \<Rightarrow> bool result" where
  "config_changed_with lib previous next =
     (if fm_masterMode previous \<noteq> fm_masterMode next then Inr True
      else if fm_pingRate previous \<noteq> fm_pingRate next then Inr True
      else if fm_networkSpeed previous \<noteq> fm_networkSpeed next then Inr True
      else if fm_gammaCorrection previous \<noteq> fm_gammaCorrection next then Inr True
      else if fm_flags previous \<noteq> fm_flags next then Inr True
      else bindR (abs_above lib (d_lit 1 1000) (fm_range previous) (fm_range next)) (\<lambda>changed.
        if changed then Inr True
        else bindR (abs_above lib (d_lit 1 10) (fm_gainPercent previous) (fm_gainPercent next)) (\<lambda>changed.
          if changed then Inr True
          else bindR (abs_above lib (d_lit 1 10) (fm_speedOfSound previous) (fm_speedOfSound next)) (\<lambda>changed.
            if changed then Inr True
            else abs_above lib (d_lit 1 10) (fm_salinity previous) (fm_salinity next)))))"

section \<open>Facts about the comparisons\<close>

lemma config_changed_with_float: "config_changed_with Abs_float previous next = Inr (config_changed previous next)"
  by (simp add: config_changed_with_def config_changed_def)

text \<open>With the overload on integers a change of the range from 2.54 to 3 meters goes unnoticed.\<close>

lemma integer_abs_misses_a_change:
  "abs_above Abs_int (d_lit 1 1000) (d_lit 254 100) (d_of_int 3) = Inr False"
  "abs_above Abs_float (d_lit 1 1000) (d_lit 254 100) (d_of_int 3) = Inr True"
proof -
  have three: "d_of_int 3 = 0x4008000000000000" "d_of_int 0 = 0" by (simp_all add: fp_eval)
  have sub: "dval (d_sub 0x400451EB851EB852 0x4008000000000000) = FFin True 8286623314361712 (- 54)"
    by (simp add: fp_eval)
  have lit: "dval (d_lit 1 1000) = FFin False 4611686018427388 (- 62)" by (simp add: fp_eval)
  have zero: "dval 0 = FFin False 0 (- 1074)" by (simp add: fp_eval)
  show "abs_above Abs_int (d_lit 1 1000) (d_lit 254 100) (d_of_int 3) = Inr False"
    "abs_above Abs_float (d_lit 1 1000) (d_lit 254 100) (d_of_int 3) = Inr True"
    by (simp_all add: d_lit_254 three sub lit zero differ_by_def d_abs_def signed_mant_def aligned_sum_def Let_def)
qed

lemma close_to_commute: "close_to x y = close_to y x"
  by (simp add: close_to_def d_abs_sub_commute)

lemma differ_by_commute: "differ_by b x y = differ_by b y x"
  by (simp add: differ_by_def d_abs_sub_commute)

lemma not_close_to_Nan: "dval x = FNan \<or> dval y = FNan \<Longrightarrow> \<not> close_to x y"
  by (auto simp: close_to_def d_abs_def dval_sub_Nan)

lemma not_differ_by_Nan: "dval x = FNan \<or> dval y = FNan \<Longrightarrow> \<not> differ_by b x y"
  by (auto simp: differ_by_def d_abs_def dval_sub_Nan)

lemma d_abs_sub_self:
  "d_abs (d_sub x x) = (case dval x of FFin s m e \<Rightarrow> FFin False 0 (fp_emin 53 11) | _ \<Rightarrow> FNan)"
proof (cases "dval x")
  case (FFin s m e)
  then show ?thesis by (simp add: d_abs_def d_sub_self)
qed (simp_all add: d_abs_def d_sub_def)

lemma not_differ_by_self:
  assumes "\<not> fp_lt (dval b) (FFin False 0 (fp_emin 53 11))"
  shows "\<not> differ_by b x x"
  using assms by (cases "dval x") (simp_all add: differ_by_def d_abs_sub_self)

lemma bounds_not_negative:
  "\<not> fp_lt (dval (d_lit 1 1000)) (FFin False 0 (fp_emin 53 11))"
  "\<not> fp_lt (dval (d_lit 1 10)) (FFin False 0 (fp_emin 53 11))"
  by (simp_all add: fp_eval)

lemma config_changed_self: "\<not> config_changed c c"
  by (simp add: config_changed_def not_differ_by_self bounds_not_negative)

lemma default_config_fields:
  "fm_pingRate default_ping_config = 0" "fm_masterMode default_ping_config = 2"
  "fm_flags default_ping_config = 0xd"
  by (simp_all add: default_ping_config_def)

end
