(* ===== verification/Oculus_Message.thy ===== *)
theory Oculus_Message
  imports Oculus_Utils
begin

text \<open>
  The messages and ping accessors of \<open>include/oculus_driver/OculusMessage.h\<close>. A
  \<open>Message\<close> is a time stamp (the 64-bit count of nanoseconds since the epoch), a header
  and the bytes of the whole message, header included. A ping wrapper is a message whose
  bytes are read as one of the two ping result structs; the read is out of bounds when the
  message is shorter than the struct. Null pointers are \<open>None\<close>.
\<close>

section \<open>Messages\<close>

record Message =
  timestamp :: u64
  header :: OculusMessageHeader
  data :: "byte list"

definition new_message :: Message where
  "new_message = \<lparr>timestamp = 0, header = zero_header, data = []\<rparr>"

definition vector_resize :: "nat \<Rightarrow> byte list \<Rightarrow> byte list" where
  "vector_resize n bs = take n bs @ replicate (n - length bs) 0"

definition update_from_header :: "u64 \<Rightarrow> Message \<Rightarrow> Message" where
  "update_from_header now m =
     (let resized = vector_resize (unat (payloadSize (header m)) + sizeof_header) (data m)
      in m\<lparr>timestamp := now,
           data := enc_header (header m) @ drop sizeof_header resized\<rparr>)"

definition update_from_data :: "Message \<Rightarrow> Message result" where
  "update_from_data m =
     (case dec_header (data m) of
        None \<Rightarrow> Inl Out_of_bounds
      | Some h \<Rightarrow> Inr (m\<lparr>header := h\<rparr>))"

text \<open>\<open>Message::Create(size, data, stamp)\<close>; \<open>Inr None\<close> is the null pointer.\<close>

definition Message_Create :: "u32 \<Rightarrow> byte list \<Rightarrow> u64 \<Rightarrow> Message option result" where
  "Message_Create sz bs stamp =
     (case dec_header bs of
        None \<Rightarrow> Inl Out_of_bounds
      | Some h \<Rightarrow>
          if \<not> header_valid h \<or> unat sz \<noteq> unat (payloadSize h) + sizeof_header then Inr None
          else if length bs < unat sz then Inl Out_of_bounds
          else Inr (Some \<lparr>timestamp = stamp, header = h, data = take (unat sz) bs\<rparr>))"

definition message_id :: "Message \<Rightarrow> u16" where
  "message_id m = msgId (header m)"

definition message_version :: "Message \<Rightarrow> u16" where
  "message_version m = msgVersion (header m)"

definition payload_size :: "Message \<Rightarrow> u32" where
  "payload_size m = payloadSize (header m)"

definition is_ping_message :: "Message \<Rightarrow> bool" where
  "is_ping_message m \<longleftrightarrow> message_id m = message_type_code messageSimplePingResult"

text \<open>The consistency of the two fields that only two friend classes write.\<close>

definition message_wf :: "Message \<Rightarrow> bool" where
  "message_wf m \<longleftrightarrow>
     dec_header (data m) = Some (header m)
     \<and> length (data m) = unat (payloadSize (header m)) + sizeof_header"

section \<open>Ping wrappers\<close>

datatype PingWrapper = PingWrapper1 Message | PingWrapper2 Message

definition PingWrapper_check :: "Message option \<Rightarrow> Message result" where
  "PingWrapper_check msg =
     (case msg of
        None \<Rightarrow> Inl (Runtime_error ''Trying to make a PingMessage out of empty data.'')
      | Some m \<Rightarrow>
          if \<not> is_ping_message m
          then Inl (Runtime_error ''Trying to make a PingMessage out of non-ping data.'')
          else Inr m)"

definition PingWrapper1_Create :: "Message option \<Rightarrow> PingWrapper result" where
  "PingWrapper1_Create msg =
     bindR (PingWrapper_check msg) (\<lambda>m.
       if message_version m = 2
       then Inl (Runtime_error
         ''Tried to instanciate a PingWrapper1 with data from a PingWrapper2'')
       else Inr (PingWrapper1 m))"

definition PingWrapper2_Create :: "Message option \<Rightarrow> PingWrapper result" where
  "PingWrapper2_Create msg =
     bindR (PingWrapper_check msg) (\<lambda>m.
       if message_version m \<noteq> 2
       then Inl (Runtime_error
         ''Tried to instanciate a PingWrapper2 with data from a PingWrapper1'')
       else Inr (PingWrapper2 m))"

definition make_ping_wrapper :: "Message option \<Rightarrow> PingWrapper option result" where
  "make_ping_wrapper msg =
     (case msg of
        None \<Rightarrow> Inr None
      | Some m \<Rightarrow>
          if \<not> is_ping_message m then Inr None
          else if message_version m = 2 then bindR (PingWrapper2_Create msg) (\<lambda>p. Inr (Some p))
          else bindR (PingWrapper1_Create msg) (\<lambda>p. Inr (Some p)))"

text \<open>\<open>copy\<close> of either wrapper: one of the same class, on a copy of the message.\<close>

definition PingWrapper_copy :: "PingWrapper \<Rightarrow> PingWrapper result" where
  "PingWrapper_copy w =
     (case w of
        PingWrapper1 m \<Rightarrow> PingWrapper1_Create (Some m)
      | PingWrapper2 m \<Rightarrow> PingWrapper2_Create (Some m))"

lemma make_ping_wrapper_copy: "make_ping_wrapper msg = Inr (Some w) \<Longrightarrow> PingWrapper_copy w = Inr w"
  by (auto simp: make_ping_wrapper_def PingWrapper_copy_def PingWrapper1_Create_def PingWrapper2_Create_def
      PingWrapper_check_def split: option.splits if_splits)

text \<open>\<open>PingMessage::Create(size, data, stamp)\<close>: the outer option is the pointer to the
  message, the inner one its \<open>pingData_\<close>.\<close>

definition PingMessage_Create ::
    "u32 \<Rightarrow> byte list \<Rightarrow> u64 \<Rightarrow> PingWrapper option option result" where
  "PingMessage_Create sz bs stamp =
     (case dec_header bs of
        None \<Rightarrow> Inl Out_of_bounds
      | Some h \<Rightarrow>
          if \<not> is_ping_header h \<or> unat sz \<noteq> unat (payloadSize h) + sizeof_header
          then Inr None
          else bindR (Message_Create sz bs stamp) (\<lambda>m.
                 bindR (make_ping_wrapper m) (\<lambda>p. Inr (Some p))))"

section \<open>Accessors of version 1\<close>

text \<open>The struct a \<open>reinterpret_cast\<close> of the message bytes refers to.\<close>

definition metadata1 :: "Message \<Rightarrow> OculusSimplePingResult result" where
  "metadata1 m = (case dec_ping (data m) of None \<Rightarrow> Inl Out_of_bounds | Some p \<Rightarrow> Inr p)"

definition has_gains1 :: "OculusSimplePingResult \<Rightarrow> bool" where
  "has_gains1 p \<longleftrightarrow> and (fm_flags (pr_fireMessage p)) 0x4 \<noteq> 0"

definition sample_size1 :: "OculusSimplePingResult \<Rightarrow> u8 result" where
  "sample_size1 p =
     (case data_size_of (pr_dataSize p) of
        Some dataSize8Bit \<Rightarrow> Inr 1
      | Some dataSize16Bit \<Rightarrow> Inr 2
      | Some dataSize24Bit \<Rightarrow> Inr 3
      | Some dataSize32Bit \<Rightarrow> Inr 4
      | None \<Rightarrow>
          if pr_nRanges p = 0 then Inl Division_by_zero
          else let lineStep = pr_imageSize p div ucast (pr_nRanges p) in
            if lineStep * ucast (pr_nRanges p) \<noteq> pr_imageSize p then Inr 0
            else let lineStep = (if has_gains1 p then lineStep - 4 else lineStep) in
              if pr_nBeams p = 0 then Inl Division_by_zero
              else let sampleSize = lineStep div ucast (pr_nBeams p) in
                if sampleSize * ucast (pr_nBeams p) \<noteq> lineStep then Inr 0
                else Inr (ucast sampleSize))"

section \<open>Accessors of version 2\<close>

definition metadata2 :: "Message \<Rightarrow> OculusSimplePingResult2 result" where
  "metadata2 m = (case dec_ping2 (data m) of None \<Rightarrow> Inl Out_of_bounds | Some p \<Rightarrow> Inr p)"

text \<open>
  \<open>has_gains\<close> and \<open>sample_size\<close> of version 2 call each other: \<open>gains_from\<close> is the body of
  \<open>has_gains\<close> given what \<open>sample_size\<close> returned. The product is an \<open>int\<close>.
\<close>

definition gains_from :: "OculusSimplePingResult2 \<Rightarrow> u8 result \<Rightarrow> bool result" where
  "gains_from p r =
     bindR r (\<lambda>sz.
       let product = unat sz * unat (pr2_nBeams p) * unat (pr2_nRanges p)
       in if 2 ^ 31 \<le> product then Inl Signed_overflow
          else Inr (product < unat (pr2_imageSize p)))"

partial_function (option) sample_size2 :: "OculusSimplePingResult2 \<Rightarrow> u8 result option" where
  "sample_size2 p =
     (case data_size_of (pr2_dataSize p) of
        Some dataSize8Bit \<Rightarrow> Some (Inr 1)
      | Some dataSize16Bit \<Rightarrow> Some (Inr 2)
      | Some dataSize24Bit \<Rightarrow> Some (Inr 3)
      | Some dataSize32Bit \<Rightarrow> Some (Inr 4)
      | None \<Rightarrow>
          if pr2_nRanges p = 0 then Some (Inl Division_by_zero)
          else if pr2_imageSize p div ucast (pr2_nRanges p) * ucast (pr2_nRanges p)
                  \<noteq> pr2_imageSize p then Some (Inr 0)
          else Option.bind (sample_size2 p) (\<lambda>r.
            Some (bindR (gains_from p r) (\<lambda>gains.
              let lineStep = pr2_imageSize p div ucast (pr2_nRanges p) - (if gains then 4 else 0)
              in if pr2_nBeams p = 0 then Inl Division_by_zero
                 else let sampleSize = lineStep div ucast (pr2_nBeams p) in
                   if sampleSize * ucast (pr2_nBeams p) \<noteq> lineStep then Inr 0
                   else Inr (ucast sampleSize)))))"

definition has_gains2 :: "OculusSimplePingResult2 \<Rightarrow> bool result option" where
  "has_gains2 p = map_option (gains_from p) (sample_size2 p)"

section \<open>The accessors of a ping\<close>

text \<open>
  The virtual methods of \<open>PingWrapper\<close>, as what they return; the two classes override all of
  them. A pointer into the message is its offset. An outer \<open>None\<close> is a call that does not
  return, which only version 2 knows.
\<close>

record PingMethods =
  vm_range_count :: "u16 result"
  vm_bearing_count :: "u16 result"
  vm_bearing_data :: nat
  vm_ping_data :: "u32 result"
  vm_ping_data_size :: "u32 result"
  vm_has_gains :: "bool result option"
  vm_master_mode :: "u8 result"
  vm_sample_size :: "u8 result option"
  vm_ping_index :: "u32 result"
  vm_ping_firing_date :: "u32 result"
  vm_range :: "double result"
  vm_gain_percent :: "double result"
  vm_frequency :: "double result"
  vm_speed_of_sound_used :: "double result"
  vm_range_resolution :: "double result"
  vm_temperature :: "double result"
  vm_pressure :: "double result"

definition read1 :: "(OculusSimplePingResult \<Rightarrow> 'a) \<Rightarrow> Message \<Rightarrow> 'a result" where
  "read1 f m = bindR (metadata1 m) (\<lambda>p. Inr (f p))"

definition PingWrapper1_methods :: "Message \<Rightarrow> PingMethods" where
  "PingWrapper1_methods m =
     \<lparr>vm_range_count = read1 pr_nRanges m,
      vm_bearing_count = read1 pr_nBeams m,
      vm_bearing_data = sizeof_ping,
      vm_ping_data = read1 pr_imageOffset m,
      vm_ping_data_size = read1 pr_imageSize m,
      vm_has_gains = Some (read1 has_gains1 m),
      vm_master_mode = read1 (\<lambda>p. fm_masterMode (pr_fireMessage p)) m,
      vm_sample_size = Some (bindR (metadata1 m) sample_size1),
      vm_ping_index = read1 pr_pingId m,
      vm_ping_firing_date = read1 pr_pingStartTime m,
      vm_range = read1 (\<lambda>p. fm_range (pr_fireMessage p)) m,
      vm_gain_percent = read1 (\<lambda>p. fm_gainPercent (pr_fireMessage p)) m,
      vm_frequency = read1 pr_frequency m,
      vm_speed_of_sound_used = read1 pr_speeedOfSoundUsed m,
      vm_range_resolution = read1 pr_rangeResolution m,
      vm_temperature = read1 pr_temperature m,
      vm_pressure = read1 pr_pressure m\<rparr>"

text \<open>Version 2 stores the firing date as a double and converts it.\<close>

definition read2 :: "(OculusSimplePingResult2 \<Rightarrow> 'a) \<Rightarrow> Message \<Rightarrow> 'a result" where
  "read2 f m = bindR (metadata2 m) (\<lambda>p. Inr (f p))"

definition PingWrapper2_methods :: "Message \<Rightarrow> PingMethods" where
  "PingWrapper2_methods m =
     \<lparr>vm_range_count = read2 pr2_nRanges m,
      vm_bearing_count = read2 pr2_nBeams m,
      vm_bearing_data = sizeof_ping2,
      vm_ping_data = read2 pr2_imageOffset m,
      vm_ping_data_size = read2 pr2_imageSize m,
      vm_has_gains = (case metadata2 m of Inl e \<Rightarrow> Some (Inl e) | Inr p \<Rightarrow> has_gains2 p),
      vm_master_mode = read2 (\<lambda>p. fm2_masterMode (pr2_fireMessage p)) m,
      vm_sample_size = (case metadata2 m of Inl e \<Rightarrow> Some (Inl e) | Inr p \<Rightarrow> sample_size2 p),
      vm_ping_index = read2 pr2_pingId m,
      vm_ping_firing_date = bindR (read2 pr2_pingStartTime m) (\<lambda>t.
        bindR (d_to_unsigned 32 t) (\<lambda>n. Inr (word_of_nat n))),
      vm_range = read2 (\<lambda>p. fm2_rangePercent (pr2_fireMessage p)) m,
      vm_gain_percent = read2 (\<lambda>p. fm2_gainPercent (pr2_fireMessage p)) m,
      vm_frequency = read2 pr2_frequency m,
      vm_speed_of_sound_used = read2 pr2_speeedOfSoundUsed m,
      vm_range_resolution = read2 pr2_rangeResolution m,
      vm_temperature = read2 pr2_temperature m,
      vm_pressure = read2 pr2_pressure m\<rparr>"

fun ping_methods :: "PingWrapper \<Rightarrow> PingMethods" where
  "ping_methods (PingWrapper1 m) = PingWrapper1_methods m"
| "ping_methods (PingWrapper2 m) = PingWrapper2_methods m"

text \<open>The message of a ping, and the accessors, dispatched on the wrapper.\<close>

fun ping_message :: "PingWrapper \<Rightarrow> Message" where
  "ping_message (PingWrapper1 m) = m"
| "ping_message (PingWrapper2 m) = m"

definition ping_header :: "PingWrapper \<Rightarrow> OculusMessageHeader" where
  "ping_header w = header (ping_message w)"

definition ping_bytes :: "PingWrapper \<Rightarrow> byte list" where
  "ping_bytes w = data (ping_message w)"

definition ping_timestamp :: "PingWrapper \<Rightarrow> u64" where
  "ping_timestamp w = timestamp (ping_message w)"

definition range_count :: "PingWrapper \<Rightarrow> u16 result" where
  "range_count w = vm_range_count (ping_methods w)"

definition bearing_count :: "PingWrapper \<Rightarrow> u16 result" where
  "bearing_count w = vm_bearing_count (ping_methods w)"

definition bearing_data_offset :: "PingWrapper \<Rightarrow> nat" where
  "bearing_data_offset w = vm_bearing_data (ping_methods w)"

definition ping_data_offset :: "PingWrapper \<Rightarrow> u32 result" where
  "ping_data_offset w = vm_ping_data (ping_methods w)"

definition ping_data_size :: "PingWrapper \<Rightarrow> u32 result" where
  "ping_data_size w = vm_ping_data_size (ping_methods w)"

definition has_gains :: "PingWrapper \<Rightarrow> bool result option" where
  "has_gains w = vm_has_gains (ping_methods w)"

definition master_mode :: "PingWrapper \<Rightarrow> u8 result" where
  "master_mode w = vm_master_mode (ping_methods w)"

definition sample_size :: "PingWrapper \<Rightarrow> u8 result option" where
  "sample_size w = vm_sample_size (ping_methods w)"

definition ping_index :: "PingWrapper \<Rightarrow> u32 result" where
  "ping_index w = vm_ping_index (ping_methods w)"

definition ping_firing_date :: "PingWrapper \<Rightarrow> u32 result" where
  "ping_firing_date w = vm_ping_firing_date (ping_methods w)"

definition ping_range :: "PingWrapper \<Rightarrow> double result" where
  "ping_range w = vm_range (ping_methods w)"

definition gain_percent :: "PingWrapper \<Rightarrow> double result" where
  "gain_percent w = vm_gain_percent (ping_methods w)"

definition ping_frequency :: "PingWrapper \<Rightarrow> double result" where
  "ping_frequency w = vm_frequency (ping_methods w)"

definition speed_of_sound_used :: "PingWrapper \<Rightarrow> double result" where
  "speed_of_sound_used w = vm_speed_of_sound_used (ping_methods w)"

definition range_resolution :: "PingWrapper \<Rightarrow> double result" where
  "range_resolution w = vm_range_resolution (ping_methods w)"

definition ping_temperature :: "PingWrapper \<Rightarrow> double result" where
  "ping_temperature w = vm_temperature (ping_methods w)"

definition ping_pressure :: "PingWrapper \<Rightarrow> double result" where
  "ping_pressure w = vm_pressure (ping_methods w)"

lemmas accessor_defs =
  range_count_def bearing_count_def ping_data_offset_def ping_data_size_def has_gains_def
  sample_size_def PingWrapper1_methods_def PingWrapper2_methods_def read1_def read2_def

text \<open>\<open>PingWrapper::step\<close>: the bytes from one range line to the next.\<close>

definition step :: "PingWrapper \<Rightarrow> u32 result option" where
  "step w =
     Option.bind (has_gains w) (\<lambda>gains. map_option (\<lambda>sz.
       bindR gains (\<lambda>g. bindR (bearing_count w) (\<lambda>n. bindR sz (\<lambda>s.
         Inr (word_of_nat ((if g then 4 else 0) + unat n * unat s)))))) (sample_size w))"

section \<open>Facts\<close>

lemma length_vector_resize [simp]: "length (vector_resize n bs) = n"
  by (simp add: vector_resize_def)

lemma update_from_header_wf: "message_wf (update_from_header now m)"
  by (simp add: message_wf_def update_from_header_def Let_def sizeof_header_def
      header_codec.dec_enc)

lemma update_from_header_fields:
  "timestamp (update_from_header now m) = now" "header (update_from_header now m) = header m"
  by (simp_all add: update_from_header_def Let_def)

lemma Message_Create_wf: "Message_Create sz bs stamp = Inr (Some m) \<Longrightarrow> message_wf m"
proof -
  assume c: "Message_Create sz bs stamp = Inr (Some m)"
  then obtain h where h: "dec_header bs = Some h"
    and sz: "unat sz = unat (payloadSize h) + 16" and len: "unat sz \<le> length bs"
    and m: "m = \<lparr>timestamp = stamp, header = h, data = take (unat sz) bs\<rparr>"
    by (auto simp: Message_Create_def sizeof_header_def split: option.splits if_splits)
  have "dec_header (take (unat sz) bs) = Some h"
    using h header_codec.dec_prefix [of "take (unat sz) bs" "drop (unat sz) bs"] sz len
    by simp
  with sz len show ?thesis by (simp add: message_wf_def m sizeof_header_def)
qed

lemma make_ping_wrapper_no_error: "\<exists>p. make_ping_wrapper msg = Inr p"
  by (auto simp: make_ping_wrapper_def PingWrapper2_Create_def PingWrapper1_Create_def
      PingWrapper_check_def split: option.split)

lemma sample_size2_code:
  "sample_size2 p = Some (Inr s)" if "data_size_of (pr2_dataSize p) = Some t"
    and "s = (case t of dataSize8Bit \<Rightarrow> 1 | dataSize16Bit \<Rightarrow> 2 | dataSize24Bit \<Rightarrow> 3 | dataSize32Bit \<Rightarrow> 4)"
  using that by (simp add: sample_size2.simps split: DataSizeType.split)

text \<open>With an unknown sample size, the two accessors of version 2 call each other forever.\<close>

definition gains_needed :: "OculusSimplePingResult2 \<Rightarrow> bool" where
  "gains_needed p \<longleftrightarrow>
     data_size_of (pr2_dataSize p) = None \<and> pr2_nRanges p \<noteq> 0
     \<and> pr2_imageSize p div ucast (pr2_nRanges p) * ucast (pr2_nRanges p) = pr2_imageSize p"

lemma sample_size2_returns: "sample_size2 p = Some r \<Longrightarrow> \<not> gains_needed p"
proof (rule sample_size2.raw_induct [where P = "\<lambda>p r. \<not> gains_needed p"], goal_cases)
  case (1 f p r)
  show ?case
  proof
    assume need: "gains_needed p"
    then obtain r' where "f p = Some r'"
      using "1"(3) by (cases "f p") (simp_all add: gains_needed_def)
    with "1"(2) need show False by blast
  qed
qed

lemma sample_size2_stops: "\<not> gains_needed p \<Longrightarrow> \<exists>r. sample_size2 p = Some r"
  by (subst sample_size2.simps)
    (auto simp: gains_needed_def split: option.split DataSizeType.split)

section \<open>The layout of a ping image\<close>

text \<open>
  A ping image is \<open>nRanges\<close> lines of the same length, each a gain of four bytes (when gains
  are sent) followed by one sample of \<open>s\<close> bytes per beam.
\<close>

definition line_step :: "bool \<Rightarrow> nat \<Rightarrow> nat \<Rightarrow> nat" where
  "line_step gains beams s = (if gains then 4 else 0) + beams * s"

lemma unat_ucast_16_32 [simp]: "unat (ucast (x :: u16) :: u32) = unat x"
proof -
  have "unat x < 2 ^ 16" using unsigned_less [of x] by simp
  then show ?thesis by (simp add: unsigned_ucast_eq take_bit_nat_eq_self)
qed

lemma word_div_exact:
  fixes x y :: u32
  assumes "unat x = unat y * k" and "y \<noteq> 0"
  shows "unat (x div y) = k \<and> (x div y) * y = x"
proof -
  have y: "unat y \<noteq> 0" using assms(2) by (simp add: unat_eq_zero)
  then have d: "unat (x div y) = k" using assms(1) by (simp add: unat_div)
  have "unat x < 2 ^ 32" using unsigned_less [of x] by simp
  then have "unat ((x div y) * y) = unat x"
    using unat_mult_lem [of "x div y" y] d assms(1) by (simp add: mult.commute)
  with d show ?thesis by (simp add: word_unat_eq_iff)
qed

lemma ucast_32_8_of_small: "unat (x :: u32) = s \<Longrightarrow> (ucast x :: u8) = word_of_nat s"
  by auto

lemma sample_size1_deduced:
  assumes "data_size_of (pr_dataSize p) = None"
    and "unat (pr_imageSize p) =
           unat (pr_nRanges p) * line_step (has_gains1 p) (unat (pr_nBeams p)) s"
    and "pr_nRanges p \<noteq> 0" and "pr_nBeams p \<noteq> 0"
  shows "sample_size1 p = Inr (word_of_nat s)"
proof -
  let ?R = "ucast (pr_nRanges p) :: u32" and ?B = "ucast (pr_nBeams p) :: u32"
  let ?L = "pr_imageSize p div ?R"
  let ?l = "if has_gains1 p then ?L - 4 else ?L"
  have nz: "?R \<noteq> 0" "?B \<noteq> 0"
    using assms(3,4) by (simp_all add: word_unat_eq_iff)
  have L: "unat ?L = line_step (has_gains1 p) (unat (pr_nBeams p)) s" "?L * ?R = pr_imageSize p"
    using word_div_exact [of "pr_imageSize p" ?R "line_step (has_gains1 p) (unat (pr_nBeams p)) s"]
      assms(2) nz by simp_all
  have "has_gains1 p \<Longrightarrow> unat (?L - 4) = unat ?L - 4"
    by (subst unat_sub) (simp_all add: word_le_nat_alt L line_step_def)
  then have l: "unat ?l = unat ?B * s" by (simp add: L line_step_def)
  have S: "unat (?l div ?B) = s" "(?l div ?B) * ?B = ?l"
    using word_div_exact [of ?l ?B s] l nz by simp_all
  show ?thesis
    using assms(1,3,4) L(2) S by (simp add: sample_size1_def Let_def ucast_32_8_of_small)
qed

end
