(* ===== verification/Log_File.thy ===== *)
theory Log_File
  imports Oculus_Message
begin

text \<open>
  The log files of \<open>include/oculus_driver/Recorder.h\<close> and \<open>src/Recorder.cpp\<close>: the
  structs of the format (not packed: padding where a member has to be aligned, written as
  zero), the recorder that appends items and the reader that walks over them. A file stream
  is its bytes, a position and the two error bits, with the rules of the standard library: a
  read that falls short sets both bits, a seek clears the end-of-file bit and does nothing
  more when the failure bit is set, a seek past the end succeeds. An operation returns the
  new state and a value or the exception it throws, so the state after an exception is
  there too. The last part relates the byte-level reader to a list of items.
\<close>

section \<open>The structs of the format\<close>

text \<open>
  The header of a file; \<open>lh_source\<close> is the array \<open>char source[16]\<close> as one block.
\<close>

record LogHeader =
  lh_fileHeader :: u32
  lh_sizeHeader :: u32
  lh_source :: "128 word"
  lh_version :: u16
  lh_encryption :: u16
  lh_key :: u64
  lh_time :: double

definition sizeof_log_header :: nat where
  "sizeof_log_header = 48"

definition enc_log_header :: "LogHeader \<Rightarrow> byte list" where
  "enc_log_header x =
     put_le (lh_fileHeader x) @ put_le (lh_sizeHeader x) @ put_le (lh_source x) @
     put_le (lh_version x) @ put_le (lh_encryption x) @ replicate 4 0 @ put_le (lh_key x) @
     put_le (lh_time x)"

definition dec_log_header :: "byte list \<Rightarrow> LogHeader option" where
  "dec_log_header bs =
     (if length bs < 48 then None
      else Some
       \<lparr>lh_fileHeader = get_le 0 bs, lh_sizeHeader = get_le 4 bs, lh_source = get_le 8 bs,
        lh_version = get_le 24 bs, lh_encryption = get_le 26 bs, lh_key = get_le 32 bs,
        lh_time = get_le 40 bs\<rparr>)"

lemma length_enc_log_header [simp, codec_sizes]: "length (enc_log_header x) = 48"
  by (simp add: enc_log_header_def)

interpretation log_header_codec: struct_codec enc_log_header dec_log_header 48
proof
  fix x r
  show "length (enc_log_header x) = 48" by simp
  show "dec_log_header (enc_log_header x @ r) = Some x"
    by (simp add: dec_log_header_def enc_log_header_def codec_simps)
next
  fix bs :: "byte list"
  show "dec_log_header bs = None \<longleftrightarrow> length bs < 48"
    by (simp add: dec_log_header_def)
next
  fix bs r :: "byte list"
  assume "48 \<le> length bs"
  then show "dec_log_header (bs @ r) = dec_log_header bs"
    by (simp add: dec_log_header_def get_le_prefix)
qed

text \<open>
  The header of an item; its payload follows it.
\<close>

record LogItem =
  li_itemHeader :: u32
  li_sizeHeader :: u32
  li_type :: u16
  li_version :: u16
  li_time :: double
  li_compression :: u16
  li_originalSize :: u32
  li_payloadSize :: u32

definition sizeof_log_item :: nat where
  "sizeof_log_item = 40"

definition enc_log_item :: "LogItem \<Rightarrow> byte list" where
  "enc_log_item x =
     put_le (li_itemHeader x) @ put_le (li_sizeHeader x) @ put_le (li_type x) @
     put_le (li_version x) @ replicate 4 0 @ put_le (li_time x) @
     put_le (li_compression x) @ replicate 2 0 @ put_le (li_originalSize x) @
     put_le (li_payloadSize x) @ replicate 4 0"

definition dec_log_item :: "byte list \<Rightarrow> LogItem option" where
  "dec_log_item bs =
     (if length bs < 40 then None
      else Some
       \<lparr>li_itemHeader = get_le 0 bs, li_sizeHeader = get_le 4 bs, li_type = get_le 8 bs,
        li_version = get_le 10 bs, li_time = get_le 16 bs, li_compression = get_le 24 bs,
        li_originalSize = get_le 28 bs, li_payloadSize = get_le 32 bs\<rparr>)"

lemma length_enc_log_item [simp, codec_sizes]: "length (enc_log_item x) = 40"
  by (simp add: enc_log_item_def)

interpretation log_item_codec: struct_codec enc_log_item dec_log_item 40
proof
  fix x r
  show "length (enc_log_item x) = 40" by simp
  show "dec_log_item (enc_log_item x @ r) = Some x"
    by (simp add: dec_log_item_def enc_log_item_def codec_simps)
next
  fix bs :: "byte list"
  show "dec_log_item bs = None \<longleftrightarrow> length bs < 40"
    by (simp add: dec_log_item_def)
next
  fix bs r :: "byte list"
  assume "40 \<le> length bs"
  then show "dec_log_item (bs @ r) = dec_log_item bs"
    by (simp add: dec_log_item_def get_le_prefix)
qed

text \<open>
  \<open>Recorder::TimeStamp\<close>: the payload of a stamp item.
\<close>

record TimeStamp =
  seconds :: u64
  nanoseconds :: u64

definition sizeof_time_stamp :: nat where
  "sizeof_time_stamp = 16"

definition enc_time_stamp :: "TimeStamp \<Rightarrow> byte list" where
  "enc_time_stamp x =
     put_le (seconds x) @ put_le (nanoseconds x)"

definition dec_time_stamp :: "byte list \<Rightarrow> TimeStamp option" where
  "dec_time_stamp bs =
     (if length bs < 16 then None
      else Some
       \<lparr>seconds = get_le 0 bs, nanoseconds = get_le 8 bs\<rparr>)"

lemma length_enc_time_stamp [simp, codec_sizes]: "length (enc_time_stamp x) = 16"
  by (simp add: enc_time_stamp_def)

interpretation time_stamp_codec: packed_codec enc_time_stamp dec_time_stamp 16
proof
  fix x r
  show "length (enc_time_stamp x) = 16" by simp
  show "dec_time_stamp (enc_time_stamp x @ r) = Some x"
    by (simp add: dec_time_stamp_def enc_time_stamp_def codec_simps)
next
  fix bs :: "byte list"
  show "dec_time_stamp bs = None \<longleftrightarrow> length bs < 16"
    by (simp add: dec_time_stamp_def)
next
  fix bs r :: "byte list"
  assume "16 \<le> length bs"
  then show "dec_time_stamp (bs @ r) = dec_time_stamp bs"
    by (simp add: dec_time_stamp_def get_le_prefix)
next
  fix bs x
  assume "dec_time_stamp bs = Some x"
  then show "enc_time_stamp x = take 16 bs"
    by (auto simp: dec_time_stamp_def enc_time_stamp_def repack_simps split: if_splits option.splits)
qed


text \<open>The types of items the files of the manufacturer hold.\<close>

datatype RecordTypes =
  rt_settings | rt_serialPort | rt_oculusSonar | rt_blueviewSonar | rt_rawVideo | rt_h264Video
  | rt_apBattery | rt_apMissionProgress | rt_nortekDVL | rt_apNavData | rt_apDvlData
  | rt_apAhrsData | rt_apSonarHeader | rt_rawSonarImage | rt_ahrsMtData2 | rt_apVehicleInfo
  | rt_apMarker | rt_apGeoImageHeader | rt_apGeoImageData | rt_sbgData | rt_ocViewInfo
  | rt_oculusSonarStamp

fun record_type_code :: "RecordTypes \<Rightarrow> u16" where
  "record_type_code rt_settings = 1"
| "record_type_code rt_serialPort = 2"
| "record_type_code rt_oculusSonar = 10"
| "record_type_code rt_blueviewSonar = 11"
| "record_type_code rt_rawVideo = 12"
| "record_type_code rt_h264Video = 13"
| "record_type_code rt_apBattery = 14"
| "record_type_code rt_apMissionProgress = 15"
| "record_type_code rt_nortekDVL = 16"
| "record_type_code rt_apNavData = 17"
| "record_type_code rt_apDvlData = 18"
| "record_type_code rt_apAhrsData = 19"
| "record_type_code rt_apSonarHeader = 20"
| "record_type_code rt_rawSonarImage = 21"
| "record_type_code rt_ahrsMtData2 = 22"
| "record_type_code rt_apVehicleInfo = 23"
| "record_type_code rt_apMarker = 24"
| "record_type_code rt_apGeoImageHeader = 25"
| "record_type_code rt_apGeoImageData = 26"
| "record_type_code rt_sbgData = 30"
| "record_type_code rt_ocViewInfo = 500"
| "record_type_code rt_oculusSonarStamp = 1010"

definition FileMagicNumber :: u32 where
  "FileMagicNumber = 0x11223344"

definition ItemMagicNumber :: u32 where
  "ItemMagicNumber = 0xaabbccdd"

text \<open>The sixteen bytes of \<open>source\<close> after \<open>memcpy\<close> of \<open>"Oculus"\<close> and its end into zeros.\<close>

definition SourceId :: "128 word" where
  "SourceId = get_le 0 (map of_char ''Oculus'' @ replicate 10 0)"

definition zero_item :: LogItem where
  "zero_item =
     \<lparr>li_itemHeader = 0, li_sizeHeader = 0, li_type = 0, li_version = 0, li_time = 0,
      li_compression = 0, li_originalSize = 0, li_payloadSize = 0\<rparr>"

section \<open>Time stamps\<close>

definition from_sonar_stamp :: "u64 \<Rightarrow> TimeStamp" where
  "from_sonar_stamp stamp =
     (let s = stamp div 1000000000
      in \<lparr>seconds = s, nanoseconds = stamp - 1000000000 * s\<rparr>)"

definition to_sonar_stamp :: "TimeStamp \<Rightarrow> u64" where
  "to_sonar_stamp t = 1000000000 * seconds t + nanoseconds t"

definition to_seconds :: "TimeStamp \<Rightarrow> double" where
  "to_seconds t =
     d_add (d_of_int (uint (seconds t)))
       (d_mul (d_lit 1 1000000000) (d_of_int (uint (nanoseconds t))))"

section \<open>The recorder\<close>

text \<open>An output file: whether it is open, its failure bit, and the bytes written so far.\<close>

record Recorder =
  rc_open :: bool
  rc_fail :: bool
  rc_file :: "byte list"

definition new_recorder :: Recorder where
  "new_recorder = \<lparr>rc_open = False, rc_fail = False, rc_file = []\<rparr>"

definition ofstream_open :: "bool \<Rightarrow> Recorder \<Rightarrow> Recorder" where
  "ofstream_open can_open r =
     (if rc_open r then r\<lparr>rc_fail := True\<rparr>
      else if can_open then \<lparr>rc_open = True, rc_fail = False, rc_file = []\<rparr>
      else r\<lparr>rc_fail := True\<rparr>)"

definition ofstream_write :: "byte list \<Rightarrow> Recorder \<Rightarrow> Recorder" where
  "ofstream_write bs r = (if rc_fail r then r else r\<lparr>rc_file := rc_file r @ bs\<rparr>)"

text \<open>
  \<open>Recorder::open\<close>; \<open>now_ms\<close> is the system clock in milliseconds. The parameter \<open>force\<close> of the
  source is not used by it.
\<close>

definition Recorder_open ::
    "string \<Rightarrow> bool \<Rightarrow> bool \<Rightarrow> int \<Rightarrow> Recorder \<Rightarrow> Recorder \<times> unit result" where
  "Recorder_open filename force can_open now_ms r =
     (let r = ofstream_open can_open r
      in if \<not> rc_open r
         then (r, Inl (Runtime_error (''Could not open file for writing : '' @ filename)))
         else
           let hdr = \<lparr>lh_fileHeader = FileMagicNumber,
                      lh_sizeHeader = word_of_nat sizeof_log_header, lh_source = SourceId,
                      lh_version = 1, lh_encryption = 0, lh_key = 0,
                      lh_time = d_div (d_of_int now_ms) (d_of_int 1000)\<rparr>
           in (ofstream_write (enc_log_header hdr) r, Inr ()))"

definition Recorder_close :: "Recorder \<Rightarrow> Recorder" where
  "Recorder_close r = r\<lparr>rc_open := False\<rparr>"

definition Recorder_write_item :: "LogItem \<Rightarrow> byte list \<Rightarrow> Recorder \<Rightarrow> Recorder \<times> nat" where
  "Recorder_write_item item bs r =
     (if \<not> rc_open r then (r, 0)
      else (ofstream_write (take (unat (li_payloadSize item)) bs)
              (ofstream_write (enc_log_item item) r),
            sizeof_log_item + unat (li_payloadSize item)))"

text \<open>The two items a message is recorded as.\<close>

definition sonar_item :: "Message \<Rightarrow> LogItem" where
  "sonar_item m =
     zero_item
       \<lparr>li_itemHeader := ItemMagicNumber, li_sizeHeader := word_of_nat sizeof_log_item,
        li_type := record_type_code rt_oculusSonar, li_version := 0,
        li_time := to_seconds (from_sonar_stamp (timestamp m)), li_compression := 0,
        li_originalSize := word_of_nat (length (data m)),
        li_payloadSize := word_of_nat (length (data m))\<rparr>"

definition stamp_item :: "Message \<Rightarrow> LogItem" where
  "stamp_item m =
     (sonar_item m)
       \<lparr>li_type := record_type_code rt_oculusSonarStamp,
        li_originalSize := word_of_nat sizeof_time_stamp,
        li_payloadSize := word_of_nat sizeof_time_stamp\<rparr>"

definition Recorder_write :: "Message \<Rightarrow> Recorder \<Rightarrow> Recorder \<times> nat" where
  "Recorder_write m r =
     (if \<not> rc_open r then (r, 0)
      else
        let (r, n) = Recorder_write_item (sonar_item m) (data m) r;
            (r, k) = Recorder_write_item (stamp_item m)
                       (enc_time_stamp (from_sonar_stamp (timestamp m))) r
        in (r, n + k))"

section \<open>Input streams\<close>

record ifstream =
  if_open :: bool
  if_content :: "byte list"
  if_pos :: nat
  if_eof :: bool
  if_fail :: bool

definition closed_ifstream :: ifstream where
  "closed_ifstream =
     \<lparr>if_open = False, if_content = [], if_pos = 0, if_eof = False, if_fail = False\<rparr>"

definition ifstream_open :: "byte list option \<Rightarrow> ifstream \<Rightarrow> ifstream" where
  "ifstream_open content f =
     (if if_open f then f\<lparr>if_fail := True\<rparr>
      else case content of
        None \<Rightarrow> f\<lparr>if_fail := True\<rparr>
      | Some bs \<Rightarrow>
          \<lparr>if_open = True, if_content = bs, if_pos = 0, if_eof = False, if_fail = False\<rparr>)"

definition stream_read :: "nat \<Rightarrow> ifstream \<Rightarrow> ifstream \<times> byte list" where
  "stream_read n f =
     (if if_eof f \<or> if_fail f then (f\<lparr>if_fail := True\<rparr>, [])
      else let got = (if if_open f then slice (if_pos f) n (if_content f) else [])
           in if length got < n
              then (f\<lparr>if_pos := if_pos f + length got, if_eof := True, if_fail := True\<rparr>, got)
              else (f\<lparr>if_pos := if_pos f + n\<rparr>, got))"

definition stream_seek :: "nat \<Rightarrow> ifstream \<Rightarrow> ifstream" where
  "stream_seek n f =
     (let f = f\<lparr>if_eof := False\<rparr>
      in if if_fail f then f
         else if if_open f then f\<lparr>if_pos := n\<rparr> else f\<lparr>if_fail := True\<rparr>)"

definition stream_skip :: "nat \<Rightarrow> ifstream \<Rightarrow> ifstream" where
  "stream_skip n f =
     (let f = f\<lparr>if_eof := False\<rparr>
      in if if_fail f then f
         else if if_open f then f\<lparr>if_pos := if_pos f + n\<rparr> else f\<lparr>if_fail := True\<rparr>)"

text \<open>\<open>tellg\<close>; the \<open>-1\<close> of a failed stream is the largest value of the unsigned result.\<close>

definition stream_tell :: "ifstream \<Rightarrow> ifstream \<times> nat" where
  "stream_tell f =
     (if if_eof f \<or> if_fail f then (f\<lparr>if_fail := True\<rparr>, 2 ^ 64 - 1)
      else (f, if if_open f then if_pos f else 2 ^ 64 - 1))"

section \<open>The reader\<close>

record FileReader =
  fr_filename :: string
  fr_file :: ifstream
  fr_nextItem :: LogItem
  fr_itemPosition :: nat
  fr_fileHeader :: LogHeader
  fr_message :: Message

definition in_file :: "FileReader \<Rightarrow> string" where
  "in_file r = [CHR 0x0A] @ ''    file : '' @ [CHR 0x27] @ fr_filename r @ [CHR 0x27]"

definition check_file_header :: "FileReader \<Rightarrow> LogHeader \<Rightarrow> bool result" where
  "check_file_header r hdr =
     (if lh_fileHeader hdr \<noteq> FileMagicNumber then
        Inl (Runtime_error
          (''oculus::FileReader : invalid file header, is it a .oculus file ?.'' @ in_file r))
      else if lh_encryption hdr \<noteq> 0 then
        Inl (Runtime_error
          (''oculus::FileReader : file is encrypted. Cannot decode.'' @ in_file r))
      else Inr True)"

definition read_next_header :: "FileReader \<Rightarrow> FileReader \<times> unit result" where
  "read_next_header r =
     (let (f, position) = stream_tell (fr_file r);
          (f, got) = stream_read sizeof_log_item f
      in if if_fail f then
           (r\<lparr>fr_file := f, fr_nextItem := zero_item, fr_itemPosition := 0\<rparr>,
            if \<not> if_eof f
            then Inl (Runtime_error
                   (''oculus::FileReader : error reading next item header. ''
                    @ ''The file may be corrupted.'' @ in_file r))
            else Inr ())
         else
           (r\<lparr>fr_file := f, fr_itemPosition := position,
              fr_nextItem := (case dec_log_item got of Some i \<Rightarrow> i | None \<Rightarrow> zero_item)\<rparr>,
            Inr ()))"

text \<open>\<open>FileReader::open\<close>: \<open>content\<close> is what the file system has under the name.\<close>

definition FileReader_open ::
    "string \<Rightarrow> byte list option \<Rightarrow> FileReader \<Rightarrow> FileReader \<times> unit result" where
  "FileReader_open filename content r =
     (let r = r\<lparr>fr_filename := filename, fr_file := ifstream_open content (fr_file r)\<rparr>
      in if \<not> if_open (fr_file r)
         then (r, Inl (Runtime_error (''Could not open file for reading : '' @ filename)))
         else
           let (f, got) = stream_read sizeof_log_header (fr_file r);
               r = r\<lparr>fr_file := f\<rparr>
           in if if_fail f
              then (r, Inl (Runtime_error
                     (''oculus::FileReader : error reading file header.'' @ in_file r)))
              else case dec_log_header got of
                None \<Rightarrow> (r, Inl Out_of_bounds)
              | Some hdr \<Rightarrow>
                  let r = r\<lparr>fr_fileHeader := hdr\<rparr>
                  in case check_file_header r hdr of
                       Inl e \<Rightarrow> (r, Inl e)
                     | Inr _ \<Rightarrow> read_next_header r)"

definition new_FileReader :: "LogHeader \<Rightarrow> FileReader" where
  "new_FileReader indeterminate =
     \<lparr>fr_filename = [], fr_file = closed_ifstream, fr_nextItem = zero_item, fr_itemPosition = 0,
      fr_fileHeader = indeterminate, fr_message = new_message\<rparr>"

definition FileReader_close :: "FileReader \<Rightarrow> FileReader" where
  "FileReader_close r = r\<lparr>fr_file := (fr_file r)\<lparr>if_open := False\<rparr>\<rparr>"

definition rewind :: "FileReader \<Rightarrow> FileReader \<times> unit result" where
  "rewind r = read_next_header (r\<lparr>fr_file := stream_seek sizeof_log_header (fr_file r)\<rparr>)"

definition jump_item :: "FileReader \<Rightarrow> FileReader \<times> nat result" where
  "jump_item r =
     (if li_type (fr_nextItem r) = 0 then (r, Inr 0)
      else
        let f = stream_skip (unat (li_payloadSize (fr_nextItem r))) (fr_file r);
            r = r\<lparr>fr_file := f\<rparr>
        in if if_fail f
           then (r\<lparr>fr_nextItem := zero_item\<rparr>, Inl (Runtime_error
                  (''oculus::FileReader : error jumping to next item. ''
                   @ ''File might be corrupted.'' @ in_file r)))
           else
             let currentItemPosition = fr_itemPosition r;
                 (r, done) = read_next_header r
             in (r, bindR done (\<lambda>_. Inr currentItemPosition)))"

text \<open>
  \<open>read_next_item\<close> into a buffer of \<open>room\<close> bytes, which the code does not check; the bytes it
  stored there are returned as well, also when it throws.
\<close>

definition read_next_item ::
    "nat \<Rightarrow> FileReader \<Rightarrow> FileReader \<times> byte list \<times> nat result" where
  "read_next_item room r =
     (if li_type (fr_nextItem r) = 0 then (r, [], Inr 0)
      else
        let (f, got) = stream_read (unat (li_payloadSize (fr_nextItem r))) (fr_file r);
            r = r\<lparr>fr_file := f\<rparr>
        in if room < length got then (r, got, Inl Out_of_bounds)
           else if if_fail f
           then (r\<lparr>fr_nextItem := zero_item\<rparr>, got, Inl (Runtime_error
                  (''oculus::FileReader : error reading item data. ''
                   @ ''File might be corrupted.'' @ in_file r)))
           else
             let currentItemPosition = fr_itemPosition r;
                 (r, done) = read_next_header r
             in (r, got, bindR done (\<lambda>_. Inr currentItemPosition)))"

section \<open>Reading messages\<close>

text \<open>
  The loops of the reader stop: every step that goes on has moved past an item header, and
  at the end of the file the next item has type zero.
\<close>

definition items_left :: "FileReader \<Rightarrow> nat" where
  "items_left r =
     (if li_type (fr_nextItem r) = 0 then 0
      else Suc (length (if_content (fr_file r)) - if_pos (fr_file r)))"

lemma zero_item_type [simp]: "li_type zero_item = 0"
  by (simp add: zero_item_def)

lemma stream_read_ok:
  "stream_read n f = (f', got) \<Longrightarrow> \<not> if_fail f' \<Longrightarrow>
     f' = f\<lparr>if_pos := if_pos f + n\<rparr> \<and> (0 < n \<longrightarrow> if_pos f + n \<le> length (if_content f))
     \<and> got = slice (if_pos f) n (if_content f)"
  by (auto simp: stream_read_def Let_def slice_def split: if_splits)

lemma stream_tell_ok: "stream_tell f = (f', p) \<Longrightarrow> \<not> if_fail f' \<Longrightarrow> f' = f"
  by (auto simp: stream_tell_def split: if_splits)

lemma stream_read_fail: "if_fail f \<Longrightarrow> if_fail (fst (stream_read n f))"
  by (simp add: stream_read_def)

lemma read_next_header_left:
  assumes "read_next_header r = (r', v)"
  shows "items_left r' = 0 \<or>
     items_left r' \<le> length (if_content (fr_file r)) - if_pos (fr_file r)"
proof -
  obtain f p where tell: "stream_tell (fr_file r) = (f, p)" by force
  obtain g got where read: "stream_read 40 f = (g, got)" by force
  show ?thesis
  proof (cases "if_fail g")
    case True
    then have "fr_nextItem r' = zero_item"
      using assms by (auto simp: read_next_header_def sizeof_log_item_def tell read)
    then show ?thesis by (simp add: items_left_def)
  next
    case False
    have "\<not> if_fail f" using stream_read_fail [of f 40] read False by auto
    with tell have f: "f = fr_file r" using stream_tell_ok by blast
    have r': "fr_file r' = g"
      using assms False by (auto simp: read_next_header_def sizeof_log_item_def tell read)
    have "g = f\<lparr>if_pos := if_pos f + 40\<rparr> \<and> if_pos f + 40 \<le> length (if_content f)"
      using stream_read_ok [OF read False] by simp
    then show ?thesis by (auto simp: items_left_def r' f)
  qed
qed

lemma jump_item_left:
  assumes "jump_item r = (r', Inr p)" and "li_type (fr_nextItem r) \<noteq> 0"
  shows "items_left r' < items_left r"
proof -
  let ?f = "stream_skip (unat (li_payloadSize (fr_nextItem r))) (fr_file r)"
  have nf: "\<not> if_fail ?f"
    using assms by (auto simp: jump_item_def Let_def split: if_splits)
  then have pos: "if_content ?f = if_content (fr_file r)" "if_pos (fr_file r) \<le> if_pos ?f"
    by (auto simp: stream_skip_def Let_def)
  obtain v where "read_next_header (r\<lparr>fr_file := ?f\<rparr>) = (r', v)"
    using assms nf by (auto simp: jump_item_def Let_def split: prod.splits)
  from read_next_header_left [OF this] pos assms(2) show ?thesis
    by (auto simp: items_left_def)
qed

lemma jump_item_goes_on:
  "jump_item r = (r', Inr p) \<Longrightarrow> p \<noteq> 0 \<Longrightarrow> items_left r' < items_left r"
  by (cases "li_type (fr_nextItem r) = 0") (auto simp: jump_item_left, simp add: jump_item_def)

lemma read_next_item_left:
  assumes "read_next_item room r = (r', bs, Inr p)" and "li_type (fr_nextItem r) \<noteq> 0"
  shows "items_left r' < items_left r"
proof -
  obtain f got where read: "stream_read (unat (li_payloadSize (fr_nextItem r))) (fr_file r) = (f, got)"
    by force
  have nf: "\<not> if_fail f"
    using assms by (auto simp: read_next_item_def Let_def read split: if_splits)
  then have pos: "if_content f = if_content (fr_file r)" "if_pos (fr_file r) \<le> if_pos f"
    using stream_read_ok [OF read nf] by auto
  obtain v where "read_next_header (r\<lparr>fr_file := f\<rparr>) = (r', v)"
    using assms nf by (auto simp: read_next_item_def Let_def read split: prod.splits if_splits)
  from read_next_header_left [OF this] pos assms(2) show ?thesis
    by (auto simp: items_left_def)
qed

text \<open>\<open>while(nextItem_.type != rt_oculusSonar && this->jump_item());\<close>\<close>

function skip_to_sonar :: "FileReader \<Rightarrow> FileReader \<times> unit result" where
  "skip_to_sonar r =
     (if li_type (fr_nextItem r) \<noteq> record_type_code rt_oculusSonar then
        (case jump_item r of
           (r', Inl e) \<Rightarrow> (r', Inl e)
         | (r', Inr jumped) \<Rightarrow> if jumped \<noteq> 0 then skip_to_sonar r' else (r', Inr ()))
      else (r, Inr ()))"
  by pat_completeness auto
termination
  by (relation "measure items_left") (auto intro: jump_item_goes_on sym)

declare skip_to_sonar.simps [simp del]

text \<open>
  \<open>read_next_message\<close>. The message returned is \<open>message_\<close> itself, so its content is in the new
  state as well. A stamp item is read into the sixteen bytes of a \<open>TimeStamp\<close>; when the item
  is shorter the rest of the stamp has never been written, which the model takes as an
  error too.
\<close>

definition message_date :: "LogItem \<Rightarrow> u64 result" where
  "message_date item =
     bindR (d_to_unsigned 64 (d_mul (d_of_int 1000000000) (li_time item)))
       (\<lambda>n. Inr (word_of_nat n))"

definition read_stamp :: "FileReader \<Rightarrow> FileReader \<times> u64 result" where
  "read_stamp r =
     (let (r, bs, got) = read_next_item sizeof_time_stamp r
      in (r, bindR got (\<lambda>_.
               case dec_time_stamp bs of
                 None \<Rightarrow> Inl Out_of_bounds
               | Some stamp \<Rightarrow> Inr (to_sonar_stamp stamp))))"

definition finish_message :: "LogItem \<Rightarrow> FileReader \<Rightarrow> FileReader \<times> Message option result" where
  "finish_message item r =
     (let (r, stamp) =
        (if li_type (fr_nextItem r) = record_type_code rt_oculusSonarStamp
         then read_stamp r else (r, message_date item))
      in case stamp of
           Inl e \<Rightarrow> (r, Inl e)
         | Inr t \<Rightarrow>
             let m = (fr_message r)\<lparr>timestamp := t\<rparr>
             in (r\<lparr>fr_message := m\<rparr>, Inr (Some m)))"

text \<open>The bytes of a vector that was resized to \<open>n\<close> and then overwritten from its start.\<close>

definition overwrite :: "nat \<Rightarrow> byte list \<Rightarrow> byte list \<Rightarrow> byte list" where
  "overwrite n bs old = bs @ drop (length bs) (vector_resize n old)"

definition read_next_message :: "FileReader \<Rightarrow> FileReader \<times> Message option result" where
  "read_next_message r =
     (case skip_to_sonar r of
        (r, Inl e) \<Rightarrow> (r, Inl e)
      | (r, Inr _) \<Rightarrow>
          if li_type (fr_nextItem r) = 0 then (r, Inr None)
          else
            let item = fr_nextItem r;
                n = unat (li_payloadSize item);
                (r, bs, got) = read_next_item n r;
                m = (fr_message r)\<lparr>data := overwrite n bs (data (fr_message r))\<rparr>;
                r = r\<lparr>fr_message := m\<rparr>
            in case got of
                 Inl e \<Rightarrow> (r, Inl e)
               | Inr _ \<Rightarrow>
                   (case update_from_data m of
                      Inl e \<Rightarrow> (r, Inl e)
                    | Inr m \<Rightarrow> finish_message item (r\<lparr>fr_message := m\<rparr>)))"

lemma skip_to_sonar_left: "skip_to_sonar r = (r', Inr v) \<Longrightarrow> items_left r' \<le> items_left r"
proof (induction r rule: skip_to_sonar.induct)
  case (1 r)
  obtain r1 w where j: "jump_item r = (r1, w)" by force
  show ?case
  proof (cases "li_type (fr_nextItem r) = record_type_code rt_oculusSonar \<or> li_type (fr_nextItem r) = 0")
    case True
    then show ?thesis using "1.prems" by (auto simp: skip_to_sonar.simps [of r] jump_item_def)
  next
    case False
    then obtain p where w: "w = Inr p"
      using "1.prems" j by (cases w) (auto simp: skip_to_sonar.simps [of r])
    then have less: "items_left r1 < items_left r" using j False jump_item_left by blast
    have "p \<noteq> 0 \<Longrightarrow> items_left r' \<le> items_left r1"
      using "1.IH" "1.prems" j w False by (auto simp: skip_to_sonar.simps [of r])
    with less show ?thesis
      using "1.prems" j w False by (cases "p = 0") (auto simp: skip_to_sonar.simps [of r])
  qed
qed

lemma items_left_message [simp]: "items_left (r\<lparr>fr_message := m\<rparr>) = items_left r"
  by (simp add: items_left_def)

lemma finish_message_left:
  assumes "finish_message item r = (r', Inr v)"
  shows "items_left r' \<le> items_left r"
proof (cases "li_type (fr_nextItem r) = record_type_code rt_oculusSonarStamp")
  case True
  then have nz: "li_type (fr_nextItem r) \<noteq> 0" by simp
  obtain r1 bs got where item: "read_next_item sizeof_time_stamp r = (r1, bs, got)"
    by (metis prod_cases3)
  then obtain p where "got = Inr p"
    using assms True by (cases got) (auto simp: finish_message_def read_stamp_def)
  with item nz have "items_left r1 < items_left r" using read_next_item_left by blast
  then show ?thesis
    using assms True item
    by (auto simp: finish_message_def read_stamp_def Let_def split: sum.splits)
next
  case False
  then show ?thesis
    using assms by (auto simp: finish_message_def Let_def split: sum.splits)
qed

lemma read_next_message_left:
  assumes "read_next_message r = (r', Inr (Some m))"
  shows "items_left r' < items_left r"
proof -
  obtain r1 v where skip: "skip_to_sonar r = (r1, Inr v)"
    using assms by (auto simp: read_next_message_def split: prod.splits sum.splits)
  obtain r2 bs got where item:
      "read_next_item (unat (li_payloadSize (fr_nextItem r1))) r1 = (r2, bs, got)"
    by (metis prod_cases3)
  have nz: "li_type (fr_nextItem r1) \<noteq> 0"
    using assms skip by (auto simp: read_next_message_def split: if_splits)
  obtain p where "got = Inr p"
    using assms skip nz item by (cases got) (auto simp: read_next_message_def Let_def)
  with item nz have less: "items_left r2 < items_left r1" using read_next_item_left by blast
  obtain m1 where fin: "finish_message (fr_nextItem r1) (r2\<lparr>fr_message := m1\<rparr>) = (r', Inr (Some m))"
    using assms skip nz item \<open>got = Inr p\<close>
    by (auto simp: read_next_message_def Let_def split: sum.splits)
  show ?thesis
    using finish_message_left [OF fin] less skip_to_sonar_left [OF skip] by simp
qed

text \<open>\<open>read_next_ping\<close>: the first ping message that is left.\<close>

function read_next_ping :: "FileReader \<Rightarrow> FileReader \<times> PingWrapper option result" where
  "read_next_ping r =
     (case read_next_message r of
        (r', Inl e) \<Rightarrow> (r', Inl e)
      | (r', Inr None) \<Rightarrow> (r', Inr None)
      | (r', Inr (Some m)) \<Rightarrow>
          if is_ping_message m then (r', make_ping_wrapper (Some m)) else read_next_ping r')"
  by pat_completeness auto
termination
  by (relation "measure items_left") (auto intro: read_next_message_left sym)

declare read_next_ping.simps [simp del]

end
