(* ===== verification/Log_Replay.thy ===== *)
theory Log_Replay
  imports Log_File
begin

text \<open>
  What a log file means: a list of items with their payloads. The byte-level reader of
  \<open>Log_File\<close> is related to a reader of that list (\<open>next_message\<close>) by the predicate
  \<open>reader_at\<close>, operation by operation, and what the recorder writes is such a list; together
  they give the round trip from recorded to replayed messages.
\<close>

section \<open>Files as lists of items\<close>

type_synonym entry = "LogItem \<times> byte list"

definition entries_bytes :: "entry list \<Rightarrow> byte list" where
  "entries_bytes es = concat (map (\<lambda>(i, p). enc_log_item i @ p) es)"

definition entry_ok :: "entry \<Rightarrow> bool" where
  "entry_ok e \<longleftrightarrow> unat (li_payloadSize (fst e)) = length (snd e) \<and> li_type (fst e) \<noteq> 0"

lemma entries_bytes_simps [simp]:
  "entries_bytes [] = []"
  "entries_bytes (e # es) = enc_log_item (fst e) @ snd e @ entries_bytes es"
  "entries_bytes (es @ es') = entries_bytes es @ entries_bytes es'"
  by (simp_all add: entries_bytes_def split_beta)

text \<open>A stream in good state, past the start of the file, with the bytes \<open>bs\<close> ahead.\<close>

definition stream_at :: "byte list \<Rightarrow> ifstream \<Rightarrow> bool" where
  "stream_at bs f \<longleftrightarrow>
     if_open f \<and> \<not> if_eof f \<and> \<not> if_fail f \<and> if_pos f \<noteq> 0 \<and> drop (if_pos f) (if_content f) = bs"

text \<open>
  The reader stands at the items \<open>es\<close>: the first of them is read already, the stream is at its
  payload; or nothing is left and the stream has run into its end. After the items the file may
  have some bytes more, too few for the header of another one.
\<close>

fun reader_before :: "byte list \<Rightarrow> entry list \<Rightarrow> FileReader \<Rightarrow> bool" where
  "reader_before tail [] r =
     (length tail < 40 \<and> fr_nextItem r = zero_item
      \<and> if_open (fr_file r) \<and> if_eof (fr_file r) \<and> if_fail (fr_file r))"
| "reader_before tail (e # es) r =
     (length tail < 40 \<and> fr_nextItem r = fst e \<and> fr_itemPosition r \<noteq> 0
      \<and> stream_at (snd e @ entries_bytes es @ tail) (fr_file r))"

abbreviation reader_at :: "entry list \<Rightarrow> FileReader \<Rightarrow> bool" where
  "reader_at \<equiv> reader_before []"

lemma drop_past: "drop k xs = bs @ cs \<Longrightarrow> drop (k + length bs) xs = cs"
  by (metis add.commute append_eq_conv_conj drop_drop)

lemma stream_read_at:
  assumes "stream_at (bs @ cs) f" and "length bs = n"
  shows "stream_read n f = (f\<lparr>if_pos := if_pos f + n\<rparr>, bs)
     \<and> stream_at cs (f\<lparr>if_pos := if_pos f + n\<rparr>)"
  using assms drop_past by (auto simp: stream_read_def stream_at_def slice_def Let_def)

lemma stream_skip_at:
  assumes "stream_at (bs @ cs) f" and "length bs = n"
  shows "stream_at cs (stream_skip n f) \<and> \<not> if_fail (stream_skip n f)"
  using assms drop_past by (auto simp: stream_skip_def stream_at_def Let_def)

lemma stream_end:
  assumes "stream_at bs f" and "length bs < n"
  obtains g where "stream_read n f = (g, bs)" and "if_open g" and "if_eof g" and "if_fail g"
    and "if_content g = if_content f"
  using assms by (auto simp: stream_read_def stream_at_def slice_def Let_def)

lemma read_next_header_at:
  assumes "stream_at (entries_bytes es @ tail) (fr_file r)" and "length tail < 40"
  shows "\<exists>r'. read_next_header r = (r', Inr ()) \<and> reader_before tail es r' \<and> fr_message r' = fr_message r
     \<and> if_content (fr_file r') = if_content (fr_file r) \<and> fr_filename r' = fr_filename r"
proof -
  have tell: "stream_tell (fr_file r) = (fr_file r, if_pos (fr_file r))"
    and pos: "if_pos (fr_file r) \<noteq> 0"
    using assms by (auto simp: stream_tell_def stream_at_def)
  show ?thesis
  proof (cases es)
    case Nil
    then have "stream_at tail (fr_file r)" using assms by simp
    then obtain g where read: "stream_read 40 (fr_file r) = (g, tail)"
      and g: "if_open g" "if_eof g" "if_fail g" "if_content g = if_content (fr_file r)"
      using assms(2) by (rule stream_end)
    with Nil g read assms(2) show ?thesis
      by (simp add: read_next_header_def sizeof_log_item_def tell)
  next
    case (Cons e es')
    then have "stream_at (enc_log_item (fst e) @ (snd e @ entries_bytes es' @ tail)) (fr_file r)"
      using assms by simp
    from stream_read_at [OF this] have
      read: "stream_read 40 (fr_file r) =
        ((fr_file r)\<lparr>if_pos := if_pos (fr_file r) + 40\<rparr>, enc_log_item (fst e))"
      and at: "stream_at (snd e @ entries_bytes es' @ tail) ((fr_file r)\<lparr>if_pos := if_pos (fr_file r) + 40\<rparr>)"
      by simp_all
    from at Cons pos assms(2) show ?thesis
      by (simp add: read_next_header_def sizeof_log_item_def tell read stream_at_def
          log_item_codec.dec_enc_alone)
  qed
qed

lemma jump_item_at:
  assumes "reader_before tail (e # es) r" and "entry_ok e"
  shows "\<exists>r' k. jump_item r = (r', Inr k) \<and> k \<noteq> 0 \<and> reader_before tail es r' \<and> fr_message r' = fr_message r"
proof -
  let ?f = "stream_skip (unat (li_payloadSize (fst e))) (fr_file r)"
  have at: "stream_at (entries_bytes es @ tail) ?f" and nf: "\<not> if_fail ?f"
    using stream_skip_at [of "snd e" "entries_bytes es @ tail" "fr_file r"] assms
    by (auto simp: entry_ok_def)
  obtain r' where "read_next_header (r\<lparr>fr_file := ?f\<rparr>) = (r', Inr ())" "reader_before tail es r'"
    "fr_message r' = fr_message r"
    using read_next_header_at [of es tail "r\<lparr>fr_file := ?f\<rparr>"] at assms(1) by auto
  with assms nf show ?thesis by (simp add: jump_item_def Let_def entry_ok_def)
qed

lemma read_next_item_at:
  assumes "reader_before tail (e # es) r" and "entry_ok e" and "length (snd e) \<le> room"
  shows "\<exists>r' k. read_next_item room r = (r', snd e, Inr k) \<and> reader_before tail es r'
     \<and> fr_message r' = fr_message r"
proof -
  let ?f = "(fr_file r)\<lparr>if_pos := if_pos (fr_file r) + length (snd e)\<rparr>"
  have read: "stream_read (unat (li_payloadSize (fst e))) (fr_file r) = (?f, snd e)"
    and at: "stream_at (entries_bytes es @ tail) ?f"
    using stream_read_at [of "snd e" "entries_bytes es @ tail" "fr_file r"] assms
    by (auto simp: entry_ok_def)
  obtain r' where "read_next_header (r\<lparr>fr_file := ?f\<rparr>) = (r', Inr ())" "reader_before tail es r'"
    "fr_message r' = fr_message r"
    using read_next_header_at [of es tail "r\<lparr>fr_file := ?f\<rparr>"] at assms(1) by auto
  with assms read at show ?thesis
    by (simp add: read_next_item_def Let_def entry_ok_def stream_at_def)
qed

text \<open>An item larger than the buffer it is read into.\<close>

lemma read_next_item_overflow:
  assumes "reader_before tail (e # es) r" and "entry_ok e" and "room < length (snd e)"
  shows "\<exists>r'. read_next_item room r = (r', snd e, Inl Out_of_bounds)"
  using assms stream_read_at [of "snd e" "entries_bytes es @ tail" "fr_file r"]
  by (auto simp: read_next_item_def Let_def entry_ok_def)

section \<open>The reader of items\<close>

definition not_sonar :: "entry \<Rightarrow> bool" where
  "not_sonar e \<longleftrightarrow> li_type (fst e) \<noteq> record_type_code rt_oculusSonar"

lemma skip_to_sonar_at:
  assumes "reader_before tail es r" and "\<forall>e \<in> set es. entry_ok e"
  shows "\<exists>r'. skip_to_sonar r = (r', Inr ()) \<and> reader_before tail (dropWhile not_sonar es) r'
     \<and> fr_message r' = fr_message r"
  using assms
proof (induction es arbitrary: r)
  case Nil
  then show ?case by (simp add: skip_to_sonar.simps [of r] jump_item_def)
next
  case (Cons e es)
  show ?case
  proof (cases "not_sonar e")
    case True
    obtain r1 k where j: "jump_item r = (r1, Inr k)" "k \<noteq> 0" "reader_before tail es r1"
      "fr_message r1 = fr_message r"
      using jump_item_at [of tail e es r] Cons.prems by auto
    then have "skip_to_sonar r = skip_to_sonar r1"
      using True Cons.prems by (simp add: skip_to_sonar.simps [of r] not_sonar_def)
    then show ?thesis using Cons.IH [of r1] Cons.prems j True by auto
  next
    case False
    then show ?thesis
      using Cons.prems by (simp add: skip_to_sonar.simps [of r] not_sonar_def)
  qed
qed

text \<open>
  The specification of \<open>read_next_message\<close> on items: skip what is no sonar message, take the
  header from the payload, take the time from the stamp item that follows or else from the
  date of the item itself.
\<close>

definition entry_stamp :: "LogItem \<Rightarrow> entry list \<Rightarrow> (u64 \<times> entry list) result" where
  "entry_stamp item es =
     (case es of
        (j, q) # es' \<Rightarrow>
          if li_type j = record_type_code rt_oculusSonarStamp then
            (if length q \<noteq> sizeof_time_stamp then Inl Out_of_bounds
             else case dec_time_stamp q of
                    None \<Rightarrow> Inl Out_of_bounds
                  | Some t \<Rightarrow> Inr (to_sonar_stamp t, es'))
          else bindR (message_date item) (\<lambda>t. Inr (t, es))
      | [] \<Rightarrow> bindR (message_date item) (\<lambda>t. Inr (t, es)))"

definition next_message :: "entry list \<Rightarrow> (Message option \<times> entry list) result" where
  "next_message es =
     (case dropWhile not_sonar es of
        [] \<Rightarrow> Inr (None, [])
      | (i, p) # rest \<Rightarrow>
          (case dec_header p of
             None \<Rightarrow> Inl Out_of_bounds
           | Some h \<Rightarrow>
               bindR (entry_stamp i rest) (\<lambda>(t, rest').
                 Inr (Some \<lparr>timestamp = t, header = h, data = p\<rparr>, rest'))))"

lemma entry_ok_dropWhile: "\<forall>e \<in> set es. entry_ok e \<Longrightarrow> \<forall>e \<in> set (dropWhile P es). entry_ok e"
  by (meson set_dropWhileD)

lemma reader_before_message [simp]: "reader_before tail es (r\<lparr>fr_message := m\<rparr>) = reader_before tail es r"
  by (cases es) simp_all

text \<open>\<open>finish_message\<close> implements \<open>entry_stamp\<close>.\<close>

lemma finish_message_date:
  assumes "li_type (fr_nextItem r) \<noteq> record_type_code rt_oculusSonarStamp" and "reader_before tail es r"
  shows "case message_date item of
       Inl e \<Rightarrow> \<exists>r'. finish_message item r = (r', Inl e)
     | Inr t \<Rightarrow> \<exists>r'. finish_message item r = (r', Inr (Some ((fr_message r)\<lparr>timestamp := t\<rparr>)))
         \<and> reader_before tail es r' \<and> fr_message r' = (fr_message r)\<lparr>timestamp := t\<rparr>"
  using assms by (simp add: finish_message_def Let_def split: sum.split)

lemma read_stamp_at:
  assumes "reader_before tail (e # es) r" and "entry_ok e"
    and "li_type (fst e) = record_type_code rt_oculusSonarStamp"
  shows "\<exists>r'. if length (snd e) = 16
     then \<exists>t. dec_time_stamp (snd e) = Some t \<and> read_stamp r = (r', Inr (to_sonar_stamp t))
            \<and> reader_before tail es r' \<and> fr_message r' = fr_message r
     else read_stamp r = (r', Inl Out_of_bounds)"
proof (cases "length (snd e) \<le> 16")
  case True
  obtain r' k where item: "read_next_item 16 r = (r', snd e, Inr k)" "reader_before tail es r'"
    "fr_message r' = fr_message r"
    using read_next_item_at [OF assms(1,2) True] by blast
  show ?thesis
  proof (cases "length (snd e) = 16")
    case full: True
    then obtain t where "dec_time_stamp (snd e) = Some t"
      using time_stamp_codec.dec_total by (metis order_refl)
    with full item show ?thesis by (simp add: read_stamp_def sizeof_time_stamp_def)
  next
    case False
    then have "dec_time_stamp (snd e) = None"
      using True by (simp add: time_stamp_codec.dec_None)
    with False item show ?thesis by (simp add: read_stamp_def sizeof_time_stamp_def)
  qed
next
  case False
  then show ?thesis
    using read_next_item_overflow [OF assms(1,2), of 16]
    by (auto simp: read_stamp_def sizeof_time_stamp_def)
qed

lemma finish_message_at:
  assumes "reader_before tail es r" and "\<forall>e \<in> set es. entry_ok e"
  shows "case entry_stamp item es of
       Inl e \<Rightarrow> \<exists>r'. finish_message item r = (r', Inl e)
     | Inr (t, es') \<Rightarrow> \<exists>r'. finish_message item r = (r', Inr (Some ((fr_message r)\<lparr>timestamp := t\<rparr>)))
         \<and> reader_before tail es' r' \<and> fr_message r' = (fr_message r)\<lparr>timestamp := t\<rparr>"
proof (cases "\<exists>e es'. es = e # es' \<and> li_type (fst e) = record_type_code rt_oculusSonarStamp")
  case True
  then obtain e es' where es: "es = e # es'"
    and stamp: "li_type (fst e) = record_type_code rt_oculusSonarStamp" by blast
  obtain r' where r': "if length (snd e) = 16
     then \<exists>t. dec_time_stamp (snd e) = Some t \<and> read_stamp r = (r', Inr (to_sonar_stamp t))
            \<and> reader_before tail es' r' \<and> fr_message r' = fr_message r
     else read_stamp r = (r', Inl Out_of_bounds)"
    using read_stamp_at [of tail e es' r] assms stamp es by auto
  have "fr_nextItem r = fst e" using assms(1) es by simp
  with r' stamp show ?thesis
    by (cases "length (snd e) = 16")
      (auto simp: es entry_stamp_def finish_message_def sizeof_time_stamp_def split_beta Let_def)
next
  case False
  then have none: "li_type (fr_nextItem r) \<noteq> record_type_code rt_oculusSonarStamp"
    using assms(1) by (cases es) auto
  have "entry_stamp item es = bindR (message_date item) (\<lambda>t. Inr (t, es))"
    using False by (auto simp: entry_stamp_def split: list.split)
  then show ?thesis
    using finish_message_date [OF none assms(1), of item] by (cases "message_date item") auto
qed

lemma overwrite_all: "length bs = n \<Longrightarrow> overwrite n bs old = bs"
  by (simp add: overwrite_def)

text \<open>The reader of bytes implements the reader of items.\<close>

lemma read_next_message_at:
  assumes "reader_before tail es r" and ok: "\<forall>e \<in> set es. entry_ok e"
  shows "case next_message es of
       Inl e \<Rightarrow> \<exists>r'. read_next_message r = (r', Inl e)
     | Inr (m, es') \<Rightarrow> \<exists>r'. read_next_message r = (r', Inr m) \<and> reader_before tail es' r'
         \<and> (m \<noteq> None \<longrightarrow> m = Some (fr_message r'))"
proof -
  obtain r1 where skip: "skip_to_sonar r = (r1, Inr ())"
    and at1: "reader_before tail (dropWhile not_sonar es) r1"
    using skip_to_sonar_at [OF assms] by blast
  show ?thesis
  proof (cases "dropWhile not_sonar es")
    case Nil
    show ?thesis
      unfolding next_message_def Nil using skip at1 [unfolded Nil]
      by (auto simp: read_next_message_def)
  next
    case (Cons e rest)
    have ok': "entry_ok e" "\<forall>e \<in> set rest. entry_ok e"
      using entry_ok_dropWhile [OF ok, of not_sonar] Cons by auto
    let ?n = "unat (li_payloadSize (fst e))"
    have n: "?n = length (snd e)" and nz: "li_type (fst e) \<noteq> 0"
      using ok'(1) by (auto simp: entry_ok_def)
    have next1: "fr_nextItem r1 = fst e" using at1 Cons by simp
    obtain r2 k where item: "read_next_item ?n r1 = (r2, snd e, Inr k)"
      and at2: "reader_before tail rest r2"
      using read_next_item_at [of tail e rest r1 ?n] at1 Cons ok'(1) n by auto
    show ?thesis
    proof (cases "dec_header (snd e)")
      case None
      then show ?thesis
        using skip next1 nz item n Cons
        by (auto simp: next_message_def read_next_message_def update_from_data_def Let_def
            overwrite_all split_beta)
    next
      case (Some h)
      let ?m = "(fr_message r2)\<lparr>data := snd e, header := h\<rparr>"
      let ?r = "r2\<lparr>fr_message := ?m\<rparr>"
      have rd: "read_next_message r = finish_message (fst e) ?r"
        using skip next1 nz item n Some
        by (simp add: read_next_message_def update_from_data_def Let_def overwrite_all)
      have "(fr_message ?r)\<lparr>timestamp := t\<rparr> = \<lparr>timestamp = t, header = h, data = snd e\<rparr>" for t
        by simp
      then show ?thesis
        using finish_message_at [of tail rest ?r "fst e"] at2 ok'(2) Cons Some
        by (cases "entry_stamp (fst e) rest") (auto simp: next_message_def rd split_beta)
    qed
  qed
qed

section \<open>What the recorder writes\<close>

definition recorded :: "Message \<Rightarrow> entry list" where
  "recorded m =
     [(sonar_item m, data m),
      (stamp_item m, enc_time_stamp (from_sonar_stamp (timestamp m)))]"

definition recordable :: "Message \<Rightarrow> bool" where
  "recordable m \<longleftrightarrow> message_wf m \<and> length (data m) < 2 ^ 32"

lemma to_from_sonar_stamp: "to_sonar_stamp (from_sonar_stamp t) = t"
  by (simp add: to_sonar_stamp_def from_sonar_stamp_def Let_def)

lemma sonar_item_size: "length (data m) < 2 ^ 32 \<Longrightarrow> unat (li_payloadSize (sonar_item m)) = length (data m)"
  by (simp add: sonar_item_def unat_of_nat)

lemma stamp_item_size: "unat (li_payloadSize (stamp_item m)) = 16"
  by (simp add: stamp_item_def sizeof_time_stamp_def)

lemma recorded_types:
  "li_type (sonar_item m) = record_type_code rt_oculusSonar"
  "li_type (stamp_item m) = record_type_code rt_oculusSonarStamp"
  by (simp_all add: stamp_item_def sonar_item_def)

lemma recorded_ok: "length (data m) < 2 ^ 32 \<Longrightarrow> e \<in> set (recorded m) \<Longrightarrow> entry_ok e"
  by (auto simp: recorded_def entry_ok_def sonar_item_size stamp_item_size recorded_types)

lemma Recorder_write_file:
  assumes "rc_open r" and "\<not> rc_fail r" and "length (data m) < 2 ^ 32"
  shows "Recorder_write m r =
     (r\<lparr>rc_file := rc_file r @ entries_bytes (recorded m)\<rparr>, length (entries_bytes (recorded m)))"
  using assms
  by (simp add: Recorder_write_def Recorder_write_item_def ofstream_write_def Let_def recorded_def
      sonar_item_size stamp_item_size sizeof_log_item_def)

definition record_all :: "Message list \<Rightarrow> Recorder \<Rightarrow> Recorder" where
  "record_all ms r = fold (\<lambda>m r. fst (Recorder_write m r)) ms r"

lemma record_all_file:
  assumes "rc_open r" and "\<not> rc_fail r" and "\<forall>m \<in> set ms. length (data m) < 2 ^ 32"
  shows "record_all ms r = r\<lparr>rc_file := rc_file r @ entries_bytes (concat (map recorded ms))\<rparr>"
  using assms
proof (induction ms arbitrary: r)
  case Nil
  then show ?case by (simp add: record_all_def)
next
  case (Cons m ms)
  then show ?case by (simp add: record_all_def Recorder_write_file)
qed

lemma next_message_recorded:
  assumes "message_wf m"
  shows "next_message (recorded m @ es) = Inr (Some m, es)"
  using assms
  by (simp add: next_message_def recorded_def not_sonar_def recorded_types entry_stamp_def
      message_wf_def sizeof_time_stamp_def time_stamp_codec.dec_enc_alone to_from_sonar_stamp)

section \<open>Logs of messages and other items\<close>

text \<open>A log: recorded messages, with items of other types anywhere between them.\<close>

datatype log_event = Logged Message | Foreign LogItem "byte list"

fun event_entries :: "log_event \<Rightarrow> entry list" where
  "event_entries (Logged m) = recorded m"
| "event_entries (Foreign i p) = [(i, p)]"

fun event_ok :: "log_event \<Rightarrow> bool" where
  "event_ok (Logged m) = recordable m"
| "event_ok (Foreign i p) = (entry_ok (i, p) \<and> not_sonar (i, p))"

fun logged :: "log_event list \<Rightarrow> Message list" where
  "logged [] = []"
| "logged (Logged m # evs) = m # logged evs"
| "logged (Foreign i p # evs) = logged evs"

abbreviation log_entries :: "log_event list \<Rightarrow> entry list" where
  "log_entries evs \<equiv> concat (map event_entries evs)"

lemma log_entries_ok:
  assumes "\<forall>ev \<in> set evs. event_ok ev"
  shows "\<forall>e \<in> set (log_entries evs). entry_ok e"
proof
  fix e
  assume "e \<in> set (log_entries evs)"
  then obtain ev where "ev \<in> set evs" "e \<in> set (event_entries ev)" by auto
  with assms have "event_ok ev" by blast
  with \<open>e \<in> set (event_entries ev)\<close> show "entry_ok e"
    by (cases ev) (auto simp: recordable_def intro: recorded_ok)
qed

lemma next_message_log:
  assumes "\<forall>ev \<in> set evs. event_ok ev"
  shows "\<exists>evs'. next_message (log_entries evs) =
       Inr (case logged evs of [] \<Rightarrow> None | m # _ \<Rightarrow> Some m, log_entries evs')
     \<and> set evs' \<subseteq> set evs \<and> logged evs' = tl (logged evs)"
  using assms
proof (induction evs)
  case Nil
  show ?case by (rule exI [of _ "[]"]) (simp add: next_message_def)
next
  case (Cons ev evs)
  show ?case
  proof (cases ev)
    case (Logged m)
    then show ?thesis
      using Cons.prems by (intro exI [of _ evs]) (auto simp: recordable_def next_message_recorded)
  next
    case (Foreign i p)
    then have "next_message (log_entries (ev # evs)) = next_message (log_entries evs)"
      using Cons.prems by (simp add: next_message_def)
    with Foreign Cons show ?thesis by auto
  qed
qed

text \<open>Reading \<open>n\<close> messages in a row.\<close>

fun read_messages :: "nat \<Rightarrow> FileReader \<Rightarrow> FileReader \<times> Message option result list" where
  "read_messages 0 r = (r, [])"
| "read_messages (Suc n) r =
     (let (r, v) = read_next_message r; (r, vs) = read_messages n r in (r, v # vs))"

lemma read_messages_log:
  assumes "reader_at (log_entries evs) r" and "\<forall>ev \<in> set evs. event_ok ev"
  shows "snd (read_messages (Suc (length (logged evs))) r) =
     map (\<lambda>m. Inr (Some m)) (logged evs) @ [Inr None]"
  using assms
proof (induction "length (logged evs)" arbitrary: evs r)
  case (0 evs r)
  obtain evs' where "next_message (log_entries evs) = Inr (None, log_entries evs')"
    using next_message_log [OF 0(3)] 0(1) by auto
  then obtain r' where "read_next_message r = (r', Inr None)"
    using read_next_message_at [OF 0(2) log_entries_ok [OF 0(3)]] by auto
  then show ?case using 0(1) by simp
next
  case (Suc n evs r)
  then obtain m ms where logged: "logged evs = m # ms" by (cases "logged evs") auto
  then obtain evs' where nxt: "next_message (log_entries evs) = Inr (Some m, log_entries evs')"
    and sub: "set evs' \<subseteq> set evs" and ms: "logged evs' = ms"
    using next_message_log [OF Suc(4)] by auto
  obtain r' where rd: "read_next_message r = (r', Inr (Some m))" and at: "reader_at (log_entries evs') r'"
    using read_next_message_at [OF Suc(3) log_entries_ok [OF Suc(4)]] nxt by auto
  have "snd (read_messages (Suc (length (logged evs'))) r') =
      map (\<lambda>m. Inr (Some m)) (logged evs') @ [Inr None]"
    using Suc(1) [of evs' r'] Suc(2,4) at sub ms logged by auto
  then show ?case
    using rd logged ms by (simp add: split_beta)
qed

lemma FileReader_open_at:
  assumes "content = enc_log_header hdr @ entries_bytes es @ tail" and "length tail < 40"
    and "lh_fileHeader hdr = FileMagicNumber" and "lh_encryption hdr = 0"
    and "\<not> if_open (fr_file r0)"
  shows "\<exists>r. FileReader_open filename (Some content) r0 = (r, Inr ()) \<and> reader_before tail es r
     \<and> if_content (fr_file r) = content \<and> if_open (fr_file r)"
proof -
  let ?f = "\<lparr>if_open = True, if_content = content, if_pos = 48, if_eof = False, if_fail = False\<rparr>"
  let ?r = "r0\<lparr>fr_filename := filename, fr_file := ?f, fr_fileHeader := hdr\<rparr>"
  have opened: "ifstream_open (Some content) (fr_file r0) = ?f\<lparr>if_pos := 0\<rparr>"
    using assms(5) by (simp add: ifstream_open_def)
  have read: "stream_read 48 (?f\<lparr>if_pos := 0\<rparr>) = (?f, enc_log_header hdr)"
    by (simp add: stream_read_def slice_exact assms(1) Let_def)
  have "stream_at (entries_bytes es @ tail) (fr_file ?r)"
    by (simp add: stream_at_def assms(1))
  then obtain r where "read_next_header ?r = (r, Inr ())" "reader_before tail es r"
    "if_content (fr_file r) = content"
    using read_next_header_at [of es tail ?r] assms(2) by auto
  moreover have "check_file_header ?r hdr = Inr True"
    using assms(3,4) by (simp add: check_file_header_def)
  moreover have "if_open (fr_file r)" using \<open>reader_before tail es r\<close> by (cases es) (auto simp: stream_at_def)
  ultimately show ?thesis
    using read by (simp add: FileReader_open_def Let_def opened sizeof_log_header_def
        log_header_codec.dec_enc_alone check_file_header_def)
qed

text \<open>A recorder just opened, and the replay of what it writes.\<close>

definition header_at :: "int \<Rightarrow> LogHeader" where
  "header_at now_ms =
     \<lparr>lh_fileHeader = FileMagicNumber, lh_sizeHeader = word_of_nat sizeof_log_header,
      lh_source = SourceId, lh_version = 1, lh_encryption = 0, lh_key = 0,
      lh_time = d_div (d_of_int now_ms) (d_of_int 1000)\<rparr>"

definition opened_recorder :: "int \<Rightarrow> Recorder" where
  "opened_recorder now_ms =
     \<lparr>rc_open = True, rc_fail = False, rc_file = enc_log_header (header_at now_ms)\<rparr>"

lemma Recorder_open_closed:
  "\<not> rc_open r \<Longrightarrow> Recorder_open filename force True now r = (opened_recorder now, Inr ())"
  by (simp add: Recorder_open_def ofstream_open_def ofstream_write_def opened_recorder_def
      header_at_def Let_def)

lemma opened_recorder_replays:
  assumes "\<forall>m \<in> set ms. recordable m"
  shows "\<exists>r. FileReader_open filename (Some (rc_file (record_all ms (opened_recorder now))))
       (new_FileReader h) = (r, Inr ())
     \<and> snd (read_messages (Suc (length ms)) r) = map (\<lambda>m. Inr (Some m)) ms @ [Inr None]"
proof -
  let ?evs = "map Logged ms"
  have logged: "logged ?evs = ms" by (induction ms) simp_all
  have "\<forall>m \<in> set ms. length (data m) < 2 ^ 32"
    using assms by (simp add: recordable_def)
  then have written: "rc_file (record_all ms (opened_recorder now))
      = rc_file (opened_recorder now) @ entries_bytes (log_entries ?evs)"
    by (simp add: record_all_file o_def) (simp add: opened_recorder_def record_all_file o_def)
  obtain r where open_ok: "FileReader_open filename
      (Some (rc_file (opened_recorder now) @ entries_bytes (log_entries ?evs))) (new_FileReader h) = (r, Inr ())"
    and at: "reader_at (log_entries ?evs) r"
    using FileReader_open_at [OF refl, of "[]" "header_at now" "new_FileReader h" filename "log_entries ?evs"]
    by (auto simp: opened_recorder_def header_at_def new_FileReader_def closed_ifstream_def)
  have "\<forall>ev \<in> set ?evs. event_ok ev" using assms by auto
  from read_messages_log [OF at this] open_ok show ?thesis
    unfolding written logged by auto
qed

section \<open>Samples\<close>

text \<open>A message, an item of another type, and a reader at given items, for the examples below.\<close>

definition sample_message :: Message where
  "sample_message =
     (let h = zero_header\<lparr>oculusId := OCULUS_CHECK_ID, msgId := message_type_code messageDummy, payloadSize := 2\<rparr>
      in \<lparr>timestamp = 1700000000123456789, header = h, data = enc_header h @ [7, 9]\<rparr>)"

definition sample_foreign :: entry where
  "sample_foreign = (zero_item\<lparr>li_type := 0x5A, li_payloadSize := 3\<rparr>, [1, 2, 3])"

definition sample_log_header :: LogHeader where
  "sample_log_header = \<lparr>lh_fileHeader = FileMagicNumber, lh_sizeHeader = 48, lh_source = SourceId,
     lh_version = 1, lh_encryption = 0, lh_key = 0, lh_time = d_of_int 0\<rparr>"

definition reader_standing :: "entry list \<Rightarrow> FileReader" where
  "reader_standing es =
     (let f = \<lparr>if_open = True, if_content = enc_log_header sample_log_header @ entries_bytes es,
               if_pos = 48, if_eof = False, if_fail = False\<rparr>
      in case es of
           [] \<Rightarrow> \<lparr>fr_filename = [], fr_file = f\<lparr>if_eof := True, if_fail := True\<rparr>, fr_nextItem = zero_item,
                  fr_itemPosition = 0, fr_fileHeader = sample_log_header,
                  fr_message = new_message\<rparr>
         | e # rest \<Rightarrow> \<lparr>fr_filename = [], fr_file = f\<lparr>if_pos := 48 + sizeof_log_item\<rparr>,
                  fr_nextItem = fst e, fr_itemPosition = 48,
                  fr_fileHeader = sample_log_header, fr_message = new_message\<rparr>)"

lemma reader_standing_at: "reader_at es (reader_standing es)"
  by (cases es) (simp_all add: reader_standing_def Let_def stream_at_def sizeof_log_item_def)

lemma sample_message_ok: "recordable sample_message"
  by (simp add: recordable_def message_wf_def sample_message_def Let_def header_codec.dec_enc
      sizeof_header_def)

lemma sample_events_ok:
  "\<forall>ev \<in> set [Foreign (fst sample_foreign) (snd sample_foreign), Logged sample_message]. event_ok ev"
  using sample_message_ok
  by (simp add: sample_foreign_def entry_ok_def not_sonar_def)

section \<open>Properties\<close>

text \<open>
  C4: the reader of the log file implements the reader of items. Wherever the reader stands
  at a list of well-formed items, \<open>read_next_message\<close> returns what \<open>next_message\<close> says of the
  list (the message, the end of the file, or the error), and then stands at the items that are
  left; the message returned is the object the reader keeps.
\<close>

theorem reader_implements_items:
  assumes "reader_at es r" and "\<forall>e \<in> set es. entry_ok e"
  shows "case next_message es of
       Inl e \<Rightarrow> \<exists>r'. read_next_message r = (r', Inl e)
     | Inr (m, es') \<Rightarrow> \<exists>r'. read_next_message r = (r', Inr m) \<and> reader_at es' r'
         \<and> (m \<noteq> None \<longrightarrow> m = Some (fr_message r'))"
  using read_next_message_at [OF assms] .

lemma reader_implements_items_witness:
  "\<exists>r'. read_next_message (reader_standing (recorded sample_message)) = (r', Inr (Some sample_message))
     \<and> reader_at [] r'"
proof -
  have "\<forall>e \<in> set (recorded sample_message). entry_ok e"
    using recorded_ok sample_message_ok by (auto simp: recordable_def)
  from reader_implements_items [OF reader_standing_at this] show ?thesis
    using next_message_recorded [of sample_message "[]"] sample_message_ok
    by (auto simp: recordable_def)
qed

text \<open>
  C1: what was recorded is replayed. A recorder is opened, any messages are written (each
  consistent and shorter than 4 GiB), and the file is opened by a reader: the reader returns
  these messages in order, with the same bytes, headers and time stamps, and then the end of
  the file.
\<close>

theorem recorded_messages_are_replayed:
  assumes "\<forall>m \<in> set ms. recordable m"
  shows "\<exists>r.
     FileReader_open filename
       (Some (rc_file (record_all ms (fst (Recorder_open filename force True now new_recorder)))))
       (new_FileReader h) = (r, Inr ())
     \<and> snd (read_messages (Suc (length ms)) r) = map (\<lambda>m. Inr (Some m)) ms @ [Inr None]"
  using opened_recorder_replays [OF assms, of filename now h]
  by (simp add: Recorder_open_closed new_recorder_def)

lemma recorded_messages_are_replayed_witness:
  "\<exists>r. snd (read_messages 3 r) = [Inr (Some sample_message), Inr (Some sample_message), Inr None]"
proof -
  have "\<forall>m \<in> set [sample_message, sample_message]. recordable m" by (simp add: sample_message_ok)
  from recorded_messages_are_replayed [OF this, of "''log''" True 0 sample_log_header] show ?thesis
    by (elim exE) (auto simp: numeral_3_eq_3 simp del: read_messages.simps)
qed

text \<open>
  Items of other types do not disturb the replay. From any log in which other items
  stand between recorded messages, reading yields the recorded messages in order and then the
  end of the file.
\<close>

theorem foreign_items_are_skipped:
  assumes "reader_at (log_entries evs) r" and "\<forall>ev \<in> set evs. event_ok ev"
  shows "snd (read_messages (Suc (length (logged evs))) r) =
     map (\<lambda>m. Inr (Some m)) (logged evs) @ [Inr None]"
  by (rule read_messages_log [OF assms])

lemma foreign_items_are_skipped_witness:
  "snd (read_messages 2 (reader_standing (sample_foreign # recorded sample_message))) =
     [Inr (Some sample_message), Inr None]"
  using foreign_items_are_skipped [OF reader_standing_at sample_events_ok]
  by (simp add: numeral_2_eq_2 del: read_messages.simps)

text \<open>
  \<open>rewind\<close> starts over as long as the end of the file has not been met: the reader stands
  at all items of the file again.
\<close>

theorem rewind_starts_over:
  assumes "reader_at (e # es) r"
    and "if_content (fr_file r) = enc_log_header hdr @ entries_bytes all"
  shows "\<exists>r'. rewind r = (r', Inr ()) \<and> reader_at all r'"
proof -
  have "stream_at (entries_bytes all) (stream_seek 48 (fr_file r))"
    using assms by (auto simp: stream_at_def stream_seek_def Let_def)
  then show ?thesis
    using read_next_header_at [of all "[]" "r\<lparr>fr_file := stream_seek 48 (fr_file r)\<rparr>"]
    by (auto simp: rewind_def sizeof_log_header_def)
qed

lemma rewind_starts_over_witness:
  "\<exists>hdr r r'. if_content (fr_file r) = enc_log_header hdr @ entries_bytes [sample_foreign]
     \<and> rewind r = (r', Inr ()) \<and> reader_at [sample_foreign] r'"
proof -
  have "if_content (fr_file (reader_standing [sample_foreign])) =
      enc_log_header sample_log_header @ entries_bytes [sample_foreign]"
    by (simp add: reader_standing_def Let_def)
  with rewind_starts_over [OF reader_standing_at this] show ?thesis by blast
qed

text \<open>
  After the end of the file has been met, \<open>rewind\<close> throws. The failure bit of the stream
  is never cleared, so the seek does nothing, the read of the next header fails without the
  end-of-file bit, and the code reports a corrupted file.
\<close>

theorem rewind_at_end_throws:
  assumes "reader_at [] r"
  shows "\<exists>r' msg. rewind r = (r', Inl (Runtime_error msg)) \<and> fr_nextItem r' = zero_item"
  using assms
  by (simp add: rewind_def read_next_header_def stream_seek_def stream_tell_def stream_read_def
      Let_def)

lemma rewind_at_end_throws_witness: "\<exists>r' msg. rewind (reader_standing []) = (r', Inl (Runtime_error msg))"
  using rewind_at_end_throws [OF reader_standing_at] by blast

text \<open>
  Opening a recorder that is open already loses every later message. The second \<open>open\<close>
  reports success, and each \<open>write\<close> after it returns the full size, but the file stays as it
  was before the second \<open>open\<close>.
\<close>

theorem second_open_loses_messages:
  assumes "rc_open r"
  shows "snd (Recorder_open filename force can_open now r) = Inr ()
     \<and> rc_file (record_all ms (fst (Recorder_open filename force can_open now r))) = rc_file r
     \<and> snd (Recorder_write m (fst (Recorder_open filename force can_open now r))) =
         96 + unat (word_of_nat (length (data m)) :: u32)"
proof -
  let ?r = "fst (Recorder_open filename force can_open now r)"
  have r': "?r = r\<lparr>rc_fail := True\<rparr>" "snd (Recorder_open filename force can_open now r) = Inr ()"
    using assms by (simp_all add: Recorder_open_def ofstream_open_def ofstream_write_def Let_def)
  have dropped: "Recorder_write m (r\<lparr>rc_fail := True\<rparr>) =
      (r\<lparr>rc_fail := True\<rparr>, 96 + unat (word_of_nat (length (data m)) :: u32))" for m
    using assms by (simp add: Recorder_write_def Recorder_write_item_def ofstream_write_def
        sizeof_log_item_def stamp_item_def sizeof_time_stamp_def sonar_item_def)
  have "record_all ms (r\<lparr>rc_fail := True\<rparr>) = r\<lparr>rc_fail := True\<rparr>"
    unfolding record_all_def by (induction ms) (simp_all add: dropped)
  then show ?thesis by (simp only: r' dropped) simp
qed

lemma second_open_loses_messages_witness:
  "rc_file (record_all [sample_message]
     (fst (Recorder_open ''b'' False True 0 \<lparr>rc_open = True, rc_fail = False, rc_file = [5]\<rparr>))) = [5]"
  using second_open_loses_messages [of "\<lparr>rc_open = True, rc_fail = False, rc_file = [5]\<rparr>" "''b''" False
      True 0 "[sample_message]" sample_message] by simp

text \<open>
  Time stamps survive the log format, and the nanoseconds of a stamp stay below one second.
\<close>

theorem time_stamp_roundtrip:
  "to_sonar_stamp (from_sonar_stamp t) = t \<and> unat (nanoseconds (from_sonar_stamp t)) < 1000000000"
proof -
  have "t - 1000000000 * (t div 1000000000) = t mod 1000000000"
    by (simp add: minus_mult_div_eq_mod)
  then have "unat (nanoseconds (from_sonar_stamp t)) = unat t mod 1000000000"
    by (simp add: from_sonar_stamp_def Let_def unat_mod)
  then show ?thesis by (simp add: to_from_sonar_stamp)
qed

text \<open>
  A stamp item longer than a \<open>TimeStamp\<close> makes the reader write outside it. After a
  sonar message, the payload of the item is copied into sixteen bytes whatever its size.
\<close>

theorem long_stamp_item_overflows:
  assumes "reader_at ((i, p) # (j, q) # es) r"
    and "entry_ok (i, p)" and "entry_ok (j, q)" and "\<forall>e \<in> set es. entry_ok e"
    and "li_type i = record_type_code rt_oculusSonar" and "16 \<le> length p"
    and "li_type j = record_type_code rt_oculusSonarStamp" and "16 < length q"
  shows "\<exists>r'. read_next_message r = (r', Inl Out_of_bounds)"
proof -
  obtain h where "dec_header p = Some h"
    using header_codec.dec_total assms(6) by blast
  then have "next_message ((i, p) # (j, q) # es) = Inl Out_of_bounds"
    using assms by (simp add: next_message_def not_sonar_def entry_stamp_def sizeof_time_stamp_def)
  then show ?thesis
    using read_next_message_at [OF assms(1)] assms(2-4) by auto
qed

lemma long_stamp_item_overflows_witness:
  "\<exists>r'. read_next_message (reader_standing
     [(zero_item\<lparr>li_type := record_type_code rt_oculusSonar, li_payloadSize := 16\<rparr>, replicate 16 0),
      (zero_item\<lparr>li_type := record_type_code rt_oculusSonarStamp, li_payloadSize := 17\<rparr>, replicate 17 0)])
     = (r', Inl Out_of_bounds)"
  by (rule long_stamp_item_overflows [OF reader_standing_at]) (simp_all add: entry_ok_def)

end
