(* ===== verification/Log_Cut.thy ===== *)
theory Log_Cut
  imports Log_Replay
begin

text \<open>
  What the reader makes of a recording that ends too early, because the recorder was stopped in the
  middle of a write. Wherever the file is cut, the messages before the cut are read as they were
  recorded; what the reader does at the cut depends on where it is in the last message.
\<close>

section \<open>Reading one recorded message\<close>

lemma read_sonar_item:
  assumes "reader_before tail ((i, p) # es) r" and "entry_ok (i, p)"
    and "li_type i = record_type_code rt_oculusSonar" and "dec_header p = Some h"
  shows "\<exists>r2. read_next_message r = finish_message i (r2\<lparr>fr_message := (fr_message r2)\<lparr>data := p, header := h\<rparr>\<rparr>)
     \<and> reader_before tail es r2"
proof -
  have n: "unat (li_payloadSize i) = length p" using assms(2) by (simp add: entry_ok_def)
  obtain r2 k where "read_next_item (length p) r = (r2, p, Inr k)" "reader_before tail es r2"
    using read_next_item_at [OF assms(1,2), of "length p"] by auto
  then show ?thesis
    using assms n
    by (auto simp: read_next_message_def skip_to_sonar.simps [of r] update_from_data_def Let_def overwrite_all)
qed

lemma recorded_parts:
  assumes "recordable m"
  shows "entry_ok (sonar_item m, data m)" and "entry_ok (stamp_item m, enc_time_stamp (from_sonar_stamp (timestamp m)))"
    and "dec_header (data m) = Some (header m)"
  using assms recorded_ok [of m] by (auto simp: recordable_def recorded_def message_wf_def)

lemma message_of_parts [simp]:
  "(x :: Message)\<lparr>data := data m, header := header m, timestamp := t\<rparr> = m\<lparr>timestamp := t\<rparr>"
  "m\<lparr>timestamp := timestamp m\<rparr> = m" for m :: Message
  by simp_all

lemma read_recorded:
  assumes "reader_before tail (recorded m @ es) r" and "recordable m"
  shows "\<exists>r'. read_next_message r = (r', Inr (Some m)) \<and> reader_before tail es r'"
proof -
  note parts = recorded_parts [OF assms(2)]
  let ?stamp = "(stamp_item m, enc_time_stamp (from_sonar_stamp (timestamp m)))"
  let ?m = "\<lambda>r. (fr_message r)\<lparr>data := data m, header := header m\<rparr>"
  obtain r2 where r2: "read_next_message r = finish_message (sonar_item m) (r2\<lparr>fr_message := ?m r2\<rparr>)"
    "reader_before tail (?stamp # es) r2"
    using read_sonar_item [of tail "sonar_item m" "data m" "?stamp # es" r] assms(1) parts
    by (auto simp: recorded_def recorded_types)
  then have "reader_before tail (?stamp # es) (r2\<lparr>fr_message := ?m r2\<rparr>)" by simp
  from read_stamp_at [OF this parts(2)] obtain r' where
    "read_stamp (r2\<lparr>fr_message := ?m r2\<rparr>) = (r', Inr (timestamp m))" "reader_before tail es r'"
    "fr_message r' = ?m r2"
    by (auto simp: recorded_types time_stamp_codec.dec_enc_alone to_from_sonar_stamp)
  with r2 show ?thesis by (simp add: finish_message_def recorded_types Let_def)
qed

lemma read_messages_recorded:
  assumes "reader_before tail (concat (map recorded ms) @ es) r" and "\<forall>m \<in> set ms. recordable m"
  shows "\<exists>r'. read_messages (length ms) r = (r', map (\<lambda>m. Inr (Some m)) ms) \<and> reader_before tail es r'"
  using assms
proof (induction ms arbitrary: r)
  case (Cons m ms)
  then obtain r1 where "read_next_message r = (r1, Inr (Some m))"
    "reader_before tail (concat (map recorded ms) @ es) r1"
    using read_recorded [of tail m "concat (map recorded ms) @ es" r] by auto
  with Cons.IH [of r1] Cons.prems(2) show ?case by auto
qed simp

section \<open>At the cut\<close>

lemma read_at_end: "reader_before tail [] r \<Longrightarrow> read_next_message r = (r, Inr None)"
  by (simp add: read_next_message_def skip_to_sonar.simps [of r] jump_item_def)

lemma read_cut_item:
  assumes "reader_at [(i, p)] r" and "length p < unat (li_payloadSize i)" and "length p \<le> room" and "li_type i \<noteq> 0"
  shows "\<exists>r' msg. read_next_item room r = (r', p, Inl (Runtime_error msg)) \<and> reader_at [] r'"
proof -
  have "stream_at p (fr_file r)" using assms(1) by simp
  from stream_end [OF this assms(2)] obtain g where
    "stream_read (unat (li_payloadSize i)) (fr_file r) = (g, p)" "if_open g" "if_eof g" "if_fail g" .
  with assms show ?thesis by (simp add: read_next_item_def Let_def)
qed

text \<open>In the payload of the sonar item, and in that of the stamp item.\<close>

lemma read_cut_message:
  assumes "reader_at [(sonar_item m, take j (data m))] r" and "j < length (data m)" and "length (data m) < 2 ^ 32"
  shows "\<exists>r' msg. read_next_message r = (r', Inl (Runtime_error msg)) \<and> reader_at [] r'"
proof -
  have n: "unat (li_payloadSize (sonar_item m)) = length (data m)" by (rule sonar_item_size [OF assms(3)])
  obtain r' msg where item: "read_next_item (length (data m)) r = (r', take j (data m), Inl (Runtime_error msg))"
    "reader_at [] r'"
    using read_cut_item [OF assms(1), of "length (data m)"] assms(2) n by (auto simp: recorded_types)
  have "li_type (fr_nextItem r) = record_type_code rt_oculusSonar" using assms(1) by (simp add: recorded_types)
  then have "\<exists>u. read_next_message r = (r'\<lparr>fr_message := u\<rparr>, Inl (Runtime_error msg))"
    using item(1) assms(1) n
    by (auto simp: read_next_message_def skip_to_sonar.simps [of r] Let_def)
  with item(2) show ?thesis by force
qed

lemma read_cut_stamp:
  assumes "reader_at [(sonar_item m, data m), (stamp_item m, q)] r" and "length q < 16" and "recordable m"
  shows "\<exists>r' msg. read_next_message r = (r', Inl (Runtime_error msg)) \<and> reader_at [] r'"
proof -
  note parts = recorded_parts [OF assms(3)]
  obtain r2 where r2: "read_next_message r = finish_message (sonar_item m) (r2\<lparr>fr_message := (fr_message r2)\<lparr>data := data m, header := header m\<rparr>\<rparr>)"
    "reader_at [(stamp_item m, q)] r2"
    using read_sonar_item [OF assms(1) parts(1) recorded_types(1) parts(3)] by blast
  let ?r = "r2\<lparr>fr_message := (fr_message r2)\<lparr>data := data m, header := header m\<rparr>\<rparr>"
  have "reader_at [(stamp_item m, q)] ?r" using r2(2) by simp
  from read_cut_item [OF this, of 16] assms(2) obtain r' msg where
    "read_next_item 16 ?r = (r', q, Inl (Runtime_error msg))" "reader_at [] r'"
    by (auto simp: recorded_types stamp_item_size)
  moreover have "li_type (fr_nextItem ?r) = record_type_code rt_oculusSonarStamp"
    using r2(2) by (simp add: recorded_types)
  ultimately show ?thesis
    using r2(1) by (auto simp: finish_message_def read_stamp_def sizeof_time_stamp_def)
qed

text \<open>Between the two items, or in the header of the second: the message gets the date of its item.\<close>

lemma read_without_stamp:
  assumes "reader_before tail [(sonar_item m, data m)] r" and "recordable m"
  shows "\<exists>r'. read_next_message r = (r', bindR (message_date (sonar_item m)) (\<lambda>t. Inr (Some (m\<lparr>timestamp := t\<rparr>))))
     \<and> reader_before tail [] r'"
proof -
  note parts = recorded_parts [OF assms(2)]
  obtain r2 where r2: "read_next_message r = finish_message (sonar_item m) (r2\<lparr>fr_message := (fr_message r2)\<lparr>data := data m, header := header m\<rparr>\<rparr>)"
    "reader_before tail [] r2"
    using read_sonar_item [OF assms(1) parts(1) recorded_types(1) parts(3)] by blast
  then show ?thesis
    by (cases "message_date (sonar_item m)") (auto simp: finish_message_def Let_def)
qed

text \<open>That date is a \<open>double\<close> of seconds, too coarse for the nanoseconds of a stamp.\<close>

lemma fallback_stamp_is_rounded:
  "timestamp sample_message = 1700000000123456789"
  "message_date (sonar_item sample_message) = Inr 1700000000123456768"
  by (simp_all add: message_date_def sonar_item_def sample_message_def to_seconds_def from_sonar_stamp_def Let_def fp_eval)

section \<open>Every cut\<close>

text \<open>The file after a recorder was opened and has written some messages.\<close>

definition log_of :: "int \<Rightarrow> Message list \<Rightarrow> byte list" where
  "log_of now ms = rc_file (record_all ms (fst (Recorder_open [] False True now new_recorder)))"

lemma log_of_entries:
  assumes "\<forall>m \<in> set ms. recordable m"
  shows "log_of now ms = enc_log_header (header_at now) @ entries_bytes (concat (map recorded ms))"
proof -
  have "\<forall>m \<in> set ms. length (data m) < 2 ^ 32" using assms by (simp add: recordable_def)
  then show ?thesis
    by (simp add: log_of_def Recorder_open_closed new_recorder_def opened_recorder_def record_all_file)
qed

text \<open>What is left of the bytes of a recorded message, as items and bytes that are no item.\<close>

definition cut_items :: "Message \<Rightarrow> nat \<Rightarrow> entry list \<times> byte list" where
  "cut_items m k =
     (let n = length (data m); stamp = enc_time_stamp (from_sonar_stamp (timestamp m))
      in if k < 40 then ([], take k (enc_log_item (sonar_item m)))
         else if k < 40 + n then ([(sonar_item m, take (k - 40) (data m))], [])
         else if k < 80 + n then ([(sonar_item m, data m)], take (k - 40 - n) (enc_log_item (stamp_item m)))
         else ([(sonar_item m, data m), (stamp_item m, take (k - 80 - n) stamp)], []))"

lemma cut_items_bytes:
  "take k (entries_bytes (recorded m)) = entries_bytes (fst (cut_items m k)) @ snd (cut_items m k)"
  "length (snd (cut_items m k)) < 40"
  by (auto simp: cut_items_def recorded_def Let_def)

lemma read_cut_items:
  assumes "reader_before (snd (cut_items m k)) (fst (cut_items m k)) r" and "recordable m"
    and "k < 96 + length (data m)"
  shows "\<exists>r' v tail. read_next_message r = (r', v) \<and> reader_before tail [] r'
     \<and> (if k < 40 then v = Inr None
        else if 40 + length (data m) \<le> k \<and> k < 80 + length (data m)
        then v = bindR (message_date (sonar_item m)) (\<lambda>t. Inr (Some (m\<lparr>timestamp := t\<rparr>)))
        else \<exists>msg. v = Inl (Runtime_error msg))"
proof -
  let ?n = "length (data m)"
  consider "k < 40" | "40 \<le> k" "k < 40 + ?n" | "40 + ?n \<le> k" "k < 80 + ?n" | "80 + ?n \<le> k" by linarith
  then show ?thesis
  proof cases
    case 1
    then have "reader_before (snd (cut_items m k)) [] r" using assms(1) by (simp add: cut_items_def)
    with 1 read_at_end show ?thesis by auto
  next
    case 2
    then have "reader_at [(sonar_item m, take (k - 40) (data m))] r" using assms(1) by (simp add: cut_items_def)
    moreover have "k - 40 < length (data m)" "length (data m) < 2 ^ 32" using 2 assms(2) by (auto simp: recordable_def)
    ultimately obtain r' msg where "read_next_message r = (r', Inl (Runtime_error msg))" "reader_at [] r'"
      using read_cut_message by blast
    with 2 show ?thesis by (intro exI [of _ r'] exI [of _ "Inl (Runtime_error msg)"] exI [of _ "[]"]) simp
  next
    case 3
    then have "reader_before (snd (cut_items m k)) [(sonar_item m, data m)] r" using assms(1) by (simp add: cut_items_def)
    from read_without_stamp [OF this assms(2)] 3 show ?thesis by auto
  next
    case 4
    let ?q = "take (k - 80 - ?n) (enc_time_stamp (from_sonar_stamp (timestamp m)))"
    have "reader_at [(sonar_item m, data m), (stamp_item m, ?q)] r" "length ?q < 16"
      using 4 assms(1,3) by (simp_all add: cut_items_def Let_def)
    from read_cut_stamp [OF this assms(2)] obtain r' msg where
      "read_next_message r = (r', Inl (Runtime_error msg))" "reader_at [] r'" by auto
    with 4 show ?thesis by (intro exI [of _ r'] exI [of _ "Inl (Runtime_error msg)"] exI [of _ "[]"]) simp
  qed
qed

text \<open>
  C5: a recording that ends anywhere. A file that was cut within its first 48 bytes cannot be opened.
  Otherwise the messages recorded before the cut are read as they were; the one that was cut is
  left out when the cut is in the header of its item, is returned whole with the date of the item for
  its stamp when the cut is between its data and its stamp, and is an exception when the cut is in
  its data or its stamp. After that, the reader is at the end of the file.
\<close>

theorem cut_recording_is_replayed:
  assumes "\<forall>m \<in> set (ms @ m # rest). recordable m" and "k < 96 + length (data m)"
  shows "(n < 48 \<longrightarrow> (\<exists>r msg. FileReader_open filename (Some (take n (log_of now ms))) (new_FileReader h) =
       (r, Inl (Runtime_error msg))))
     \<and> (\<exists>r r' r'' v. FileReader_open filename (Some (take (length (log_of now ms) + k) (log_of now (ms @ m # rest))))
            (new_FileReader h) = (r, Inr ())
          \<and> read_messages (length ms) r = (r', map (\<lambda>m. Inr (Some m)) ms)
          \<and> read_next_message r' = (r'', v) \<and> read_next_message r'' = (r'', Inr None)
          \<and> (if k < 40 then v = Inr None
             else if 40 + length (data m) \<le> k \<and> k < 80 + length (data m)
             then v = bindR (message_date (sonar_item m)) (\<lambda>t. Inr (Some (m\<lparr>timestamp := t\<rparr>)))
             else \<exists>msg. v = Inl (Runtime_error msg)))"
proof (intro conjI impI)
  assume n: "n < 48"
  have "\<forall>m \<in> set ms. recordable m" using assms(1) by simp
  from log_of_entries [OF this] n have "length (take n (log_of now ms)) < 48" by simp
  with n show "\<exists>r msg. FileReader_open filename (Some (take n (log_of now ms))) (new_FileReader h) = (r, Inl (Runtime_error msg))"
    by (simp add: FileReader_open_def new_FileReader_def closed_ifstream_def ifstream_open_def stream_read_def
        slice_def sizeof_log_header_def Let_def)
next
  let ?es = "fst (cut_items m k)" and ?tail = "snd (cut_items m k)"
  let ?file = "take (length (log_of now ms) + k) (log_of now (ms @ m # rest))"
  have rec: "\<forall>m \<in> set ms. recordable m" "recordable m" using assms(1) by auto
  have "length (data m) < 2 ^ 32" using rec(2) by (simp add: recordable_def)
  then have len: "length (entries_bytes (recorded m)) = 96 + length (data m)" by (simp add: recorded_def)
  have "?file = enc_log_header (header_at now) @ entries_bytes (concat (map recorded ms)) @ take k (entries_bytes (recorded m))"
    using log_of_entries [OF rec(1)] log_of_entries [OF assms(1)] len assms(2) by simp
  then have cut: "?file = enc_log_header (header_at now) @ entries_bytes (concat (map recorded ms) @ ?es) @ ?tail"
    by (simp add: cut_items_bytes)
  obtain r where r: "FileReader_open filename (Some ?file) (new_FileReader h) = (r, Inr ())"
    "reader_before ?tail (concat (map recorded ms) @ ?es) r"
    using FileReader_open_at [OF cut cut_items_bytes(2), of "new_FileReader h" filename]
    by (auto simp: header_at_def new_FileReader_def closed_ifstream_def)
  obtain r' where r': "read_messages (length ms) r = (r', map (\<lambda>m. Inr (Some m)) ms)" "reader_before ?tail ?es r'"
    using read_messages_recorded [OF r(2) rec(1)] by blast
  from read_cut_items [OF r'(2) rec(2) assms(2)] r(1) r'(1) read_at_end show
    "\<exists>r r' r'' v. FileReader_open filename (Some ?file) (new_FileReader h) = (r, Inr ())
       \<and> read_messages (length ms) r = (r', map (\<lambda>m. Inr (Some m)) ms)
       \<and> read_next_message r' = (r'', v) \<and> read_next_message r'' = (r'', Inr None)
       \<and> (if k < 40 then v = Inr None
          else if 40 + length (data m) \<le> k \<and> k < 80 + length (data m)
          then v = bindR (message_date (sonar_item m)) (\<lambda>t. Inr (Some (m\<lparr>timestamp := t\<rparr>)))
          else \<exists>msg. v = Inl (Runtime_error msg))"
    by blast
qed

lemma cut_recording_is_replayed_witness:
  "\<exists>r r' r'' msg. FileReader_open ''log'' (Some (take (length (log_of 0 [sample_message]) + 50)
        (log_of 0 [sample_message, sample_message]))) (new_FileReader sample_log_header) = (r, Inr ())
     \<and> read_messages 1 r = (r', [Inr (Some sample_message)])
     \<and> read_next_message r' = (r'', Inl (Runtime_error msg))"
proof -
  have "\<forall>m \<in> set ([sample_message] @ sample_message # []). recordable m" by (simp add: sample_message_ok)
  moreover have len: "length (data sample_message) = 18" by (simp add: sample_message_def Let_def)
  then have "50 < 96 + length (data sample_message)" by simp
  ultimately show ?thesis
    using cut_recording_is_replayed [of "[sample_message]" sample_message "[]" 50 0 "''log''" 0 sample_log_header] len
    by auto
qed

end
