(* ===== verification/Callback_Queue.thy ===== *)
theory Callback_Queue
  imports Oculus_Prelude "HOL-Library.Multiset"
begin

text \<open>
  The callback queue of \<open>include/oculus_driver/CallbackQueue.h\<close>: regular callbacks under
  an id, single shots that a thread waits for, and \<open>call\<close>. The two \<open>unordered_map\<close>s are
  association lists; the order they are iterated in is unspecified, so \<open>call\<close> takes it as
  a parameter that permutes the entries. A callback acts on the whole program state \<open>'w\<close>, of
  which the queue is a part read by \<open>getq\<close> and written by \<open>putq\<close>, because a callback may
  add and remove callbacks while it is called. The last section is the protocol between
  the threads blocked in \<open>add_single_shot\<close> and the thread that calls.
\<close>

section \<open>State and operations\<close>

type_synonym callback_id = u32
type_synonym 'cb callback_dict = "(callback_id \<times> 'cb) list"

record 'cb callback_queue =
  callbacks :: "'cb callback_dict"
  single_shots :: "'cb callback_dict"
  sshots_called :: bool

text \<open>
  The loop \<open>for(; find(newId) != end(); newId++);\<close>. It does not return when every id of
  the type is taken, which \<open>None\<close> stands for.
\<close>

partial_function (option) free_id :: "'cb callback_dict \<Rightarrow> callback_id \<Rightarrow> callback_id option" where
  "free_id d newId = (if newId \<in> set (map fst d) then free_id d (newId + 1) else Some newId)"

definition add_entry :: "'cb callback_dict \<Rightarrow> 'cb \<Rightarrow> ('cb callback_dict \<times> callback_id) option" where
  "add_entry d f =
     (case free_id d (word_of_nat (length d)) of
        None \<Rightarrow> None
      | Some newId \<Rightarrow> Some (d @ [(newId, f)], newId))"

definition add_callback ::
    "'cb callback_queue \<Rightarrow> 'cb \<Rightarrow> ('cb callback_queue \<times> callback_id) option" where
  "add_callback q f =
     (case add_entry (callbacks q) f of
        None \<Rightarrow> None
      | Some (d, newId) \<Rightarrow> Some (q\<lparr>callbacks := d\<rparr>, newId))"

definition remove_callback ::
    "'cb callback_queue \<Rightarrow> callback_id \<Rightarrow> 'cb callback_queue \<times> bool" where
  "remove_callback q index =
     (q\<lparr>callbacks := filter (\<lambda>e. fst e \<noteq> index) (callbacks q)\<rparr>,
      index \<in> set (map fst (callbacks q)))"

text \<open>The part of \<open>add_single_shot\<close> before the thread waits.\<close>

definition register_single_shot ::
    "'cb callback_queue \<Rightarrow> 'cb \<Rightarrow> ('cb callback_queue \<times> callback_id) option" where
  "register_single_shot q f =
     (case add_entry (single_shots q) f of
        None \<Rightarrow> None
      | Some (d, callbackId) \<Rightarrow>
          Some (q\<lparr>single_shots := d, sshots_called := False\<rparr>, callbackId))"

definition run_entries :: "('cb \<Rightarrow> 'w \<Rightarrow> 'w) \<Rightarrow> 'cb callback_dict \<Rightarrow> 'w \<Rightarrow> 'w" where
  "run_entries run d w = fold (\<lambda>e. run (snd e)) d w"

text \<open>
  \<open>call\<close>: the regular callbacks are copied first and run without the lock, then the
  single shots registered by then are run and forgotten.
\<close>

definition call_queue ::
    "('w \<Rightarrow> 'cb callback_queue) \<Rightarrow> ('cb callback_queue \<Rightarrow> 'w \<Rightarrow> 'w)
     \<Rightarrow> ('cb callback_dict \<Rightarrow> 'cb callback_dict) \<Rightarrow> ('cb \<Rightarrow> 'w \<Rightarrow> 'w) \<Rightarrow> 'w \<Rightarrow> 'w" where
  "call_queue getq putq order run w =
     (let copied = callbacks (getq w);
          w1 = run_entries run (order copied) w;
          w2 = run_entries run (order (single_shots (getq w1))) w1
      in putq ((getq w2)\<lparr>single_shots := [], sshots_called := True\<rparr>) w2)"

definition empty_queue :: "'cb callback_queue" where
  "empty_queue = \<lparr>callbacks = [], single_shots = [], sshots_called = False\<rparr>"

section \<open>The search for a free id\<close>

lemma free_id_fresh: "free_id d i = Some j \<Longrightarrow> j \<notin> set (map fst d)"
proof (rule free_id.raw_induct [where P = "\<lambda>d i j. j \<notin> set (map fst d)"], goal_cases)
  case (1 f d i j)
  then show ?case by (metis option.inject)
qed

lemma free_id_finds:
  assumes "i + word_of_nat n \<notin> set (map fst d)"
  shows "\<exists>j. free_id d i = Some j"
  using assms
proof (induction n arbitrary: i)
  case 0
  then show ?case by (simp add: free_id.simps [of d i])
next
  case (Suc n)
  have "(i + 1) + word_of_nat n \<notin> set (map fst d)"
    using Suc.prems by (simp add: ac_simps)
  then show ?case
    using Suc.IH [of "i + 1"] by (simp add: free_id.simps [of d i])
qed

lemma free_id_total:
  assumes "length d < 2 ^ 32"
  shows "\<exists>j. free_id d i = Some j"
proof -
  have "card (set (map fst d)) < CARD(callback_id)"
    using assms card_length [of "map fst d"] by (simp add: card_word)
  then obtain k where k: "k \<notin> set (map fst d)"
    by (metis UNIV_eq_I less_irrefl)
  have "i + word_of_nat (unat (k - i)) = k" by simp
  with k show ?thesis using free_id_finds by metis
qed

lemma free_id_start: "i \<notin> set (map fst d) \<Longrightarrow> free_id d i = Some i"
  by (simp add: free_id.simps [of d i])

lemma add_entry_Some:
  assumes "length d < 2 ^ 32"
  obtains j where "add_entry d f = Some (d @ [(j, f)], j)" and "j \<notin> set (map fst d)"
proof -
  from free_id_total [OF assms] obtain j
    where "free_id d (word_of_nat (length d)) = Some j" by blast
  with that show thesis
    using free_id_fresh by (force simp: add_entry_def)
qed

lemma add_entry_SomeD:
  "add_entry d f = Some (d', j) \<Longrightarrow> d' = d @ [(j, f)] \<and> j \<notin> set (map fst d)"
  using free_id_fresh by (fastforce simp: add_entry_def split: option.splits)

section \<open>The registry interface\<close>

text \<open>
  What the owners of a queue rely on: a registry of callbacks under ids. \<open>look\<close> is the
  abstract content, \<open>room\<close> says an id is left.
\<close>

locale callback_registry =
  fixes add :: "'q \<Rightarrow> 'cb \<Rightarrow> ('q \<times> 'i) option"
    and remove :: "'q \<Rightarrow> 'i \<Rightarrow> 'q \<times> bool"
    and look :: "'q \<Rightarrow> 'i \<Rightarrow> 'cb option"
    and inv :: "'q \<Rightarrow> bool"
    and room :: "'q \<Rightarrow> bool"
  assumes add_total: "inv q \<Longrightarrow> room q \<Longrightarrow> \<exists>q' i. add q f = Some (q', i)"
    and add_fresh: "inv q \<Longrightarrow> add q f = Some (q', i) \<Longrightarrow> look q i = None"
    and add_look: "inv q \<Longrightarrow> add q f = Some (q', i) \<Longrightarrow> look q' = (look q)(i \<mapsto> f)"
    and add_inv: "inv q \<Longrightarrow> add q f = Some (q', i) \<Longrightarrow> inv q'"
    and remove_look: "inv q \<Longrightarrow> remove q i = (q', b) \<Longrightarrow> look q' = (look q)(i := None)"
    and remove_flag: "inv q \<Longrightarrow> remove q i = (q', b) \<Longrightarrow> b = (look q i \<noteq> None)"
    and remove_inv: "inv q \<Longrightarrow> remove q i = (q', b) \<Longrightarrow> inv q'"
begin

lemma add_then_remove:
  assumes "inv q" and "add q f = Some (q1, i)" and "remove q1 i = (q2, b)"
  shows "look q2 = look q \<and> b"
proof -
  have "inv q1" using add_inv assms(1,2) by blast
  then have "look q2 = (look q1)(i := None)" and "b = (look q1 i \<noteq> None)"
    using remove_look remove_flag assms(3) by blast+
  moreover have "look q1 = (look q)(i \<mapsto> f)" and "look q i = None"
    using add_look add_fresh assms(1,2) by blast+
  ultimately show ?thesis by auto
qed

lemma add_keeps_others:
  "inv q \<Longrightarrow> add q f = Some (q', i) \<Longrightarrow> look q j = Some g \<Longrightarrow> look q' j = Some g \<and> j \<noteq> i"
  using add_look add_fresh by fastforce

lemma remove_twice:
  assumes "inv q" and "remove q i = (q1, b1)" and "remove q1 i = (q2, b2)"
  shows "\<not> b2 \<and> look q2 = look q1"
proof -
  have "inv q1" and l1: "look q1 = (look q)(i := None)"
    using remove_inv remove_look assms(1,2) by blast+
  then have "b2 = (look q1 i \<noteq> None)" and "look q2 = (look q1)(i := None)"
    using remove_flag remove_look assms(3) by blast+
  with l1 show ?thesis by auto
qed

end

definition queue_look :: "'cb callback_queue \<Rightarrow> callback_id \<Rightarrow> 'cb option" where
  "queue_look q = map_of (callbacks q)"

definition queue_inv :: "'cb callback_queue \<Rightarrow> bool" where
  "queue_inv q \<longleftrightarrow> distinct (map fst (callbacks q))"

definition queue_room :: "'cb callback_queue \<Rightarrow> bool" where
  "queue_room q \<longleftrightarrow> length (callbacks q) < 2 ^ 32"

lemma add_callback_cases:
  "add_callback q f = Some (q', i) \<longleftrightarrow>
   (\<exists>d. add_entry (callbacks q) f = Some (d, i) \<and> q' = q\<lparr>callbacks := d\<rparr>)"
  by (auto simp: add_callback_def split: option.splits)

lemma add_callback_SomeD:
  "add_callback q f = Some (q', i) \<Longrightarrow>
   q' = q\<lparr>callbacks := callbacks q @ [(i, f)]\<rparr> \<and> i \<notin> set (map fst (callbacks q))"
  using add_entry_SomeD by (fastforce simp: add_callback_cases)

lemma map_of_append_fresh:
  "j \<notin> set (map fst d) \<Longrightarrow> map_of (d @ [(j, f)]) = (map_of d)(j \<mapsto> f)"
  by (induction d) (auto simp: fun_eq_iff)

lemma map_of_filter_key:
  "map_of (filter (\<lambda>e. fst e \<noteq> i) d) = (map_of d)(i := None)"
  by (induction d) (auto simp: fun_eq_iff)

lemma distinct_filter_key:
  "distinct (map fst d) \<Longrightarrow> distinct (map fst (filter (\<lambda>e. fst e \<noteq> i) d))"
  by (induction d) auto

interpretation queue: callback_registry add_callback remove_callback queue_look queue_inv queue_room
proof
  fix q :: "'cb callback_queue" and f
  assume "queue_room q"
  then have "length (callbacks q) < 2 ^ 32" by (simp add: queue_room_def)
  then obtain j where "add_entry (callbacks q) f = Some (callbacks q @ [(j, f)], j)"
    by (rule add_entry_Some)
  then show "\<exists>q' i. add_callback q f = Some (q', i)"
    by (auto simp: add_callback_cases)
next
  fix q q' :: "'cb callback_queue" and f i
  assume inv: "queue_inv q" and added: "add_callback q f = Some (q', i)"
  have q': "q' = q\<lparr>callbacks := callbacks q @ [(i, f)]\<rparr>"
    and fresh: "i \<notin> set (map fst (callbacks q))"
    using add_callback_SomeD [OF added] by blast+
  show "queue_look q i = None"
    using fresh by (auto simp: queue_look_def map_of_eq_None_iff)
  show "queue_look q' = (queue_look q)(i \<mapsto> f)"
    using map_of_append_fresh [OF fresh, of f] by (simp add: queue_look_def q')
  show "queue_inv q'"
    using inv fresh by (auto simp: queue_inv_def q')
next
  fix q q' :: "'cb callback_queue" and i b
  assume inv: "queue_inv q" and "remove_callback q i = (q', b)"
  then have q': "q' = q\<lparr>callbacks := filter (\<lambda>e. fst e \<noteq> i) (callbacks q)\<rparr>"
    and b: "b = (i \<in> set (map fst (callbacks q)))"
    by (auto simp: remove_callback_def)
  show "queue_look q' = (queue_look q)(i := None)"
    by (simp add: queue_look_def q' map_of_filter_key)
  show "b = (queue_look q i \<noteq> None)"
    by (auto simp: queue_look_def b map_of_eq_None_iff)
  show "queue_inv q'"
    using inv by (simp add: queue_inv_def q' distinct_filter_key)
qed

section \<open>Calling\<close>

text \<open>
  Where a queue lives in a program state: reading what was written, the part of the state
  that records the calls (\<open>trace\<close>) is not the queue, and a callback adds itself to it. A
  callback may change the regular callbacks as it likes; only a single shot cannot be
  registered from inside a call, since that would block the calling thread.
\<close>

locale queue_host =
  fixes getq :: "'w \<Rightarrow> 'cb callback_queue"
    and putq :: "'cb callback_queue \<Rightarrow> 'w \<Rightarrow> 'w"
    and order :: "'cb callback_dict \<Rightarrow> 'cb callback_dict"
    and run :: "'cb \<Rightarrow> 'w \<Rightarrow> 'w"
    and trace :: "'w \<Rightarrow> 'cb list"
  assumes get_put: "getq (putq q w) = q"
    and trace_put: "trace (putq q w) = trace w"
    and order_perm: "mset (order d) = mset d"
    and trace_run: "trace (run f w) = trace w @ [f]"
    and shots_run: "single_shots (getq (run f w)) = single_shots (getq w)"
begin

lemma run_entries_trace: "trace (run_entries run d w) = trace w @ map snd d"
  by (induction d arbitrary: w) (simp_all add: run_entries_def trace_run)

lemma run_entries_shots:
  "single_shots (getq (run_entries run d w)) = single_shots (getq w)"
  by (induction d arbitrary: w) (simp_all add: run_entries_def shots_run)

lemma call_trace:
  "mset (trace (call_queue getq putq order run w)) =
   mset (trace w) + mset (map snd (callbacks (getq w))) + mset (map snd (single_shots (getq w)))"
proof -
  have "trace (call_queue getq putq order run w) =
      trace w @ map snd (order (callbacks (getq w))) @ map snd (order (single_shots (getq w)))"
    by (simp add: call_queue_def Let_def trace_put run_entries_trace run_entries_shots)
  then show ?thesis by (simp add: order_perm mset_map)
qed

lemma call_clears_shots:
  "single_shots (getq (call_queue getq putq order run w)) = []
   \<and> sshots_called (getq (call_queue getq putq order run w))"
  by (simp add: call_queue_def Let_def get_put)

end

text \<open>What no callback and no change of the queue touches, a call does not touch.\<close>

lemma run_entries_keep:
  assumes "\<And>f w. g (run f w) = g w"
  shows "g (run_entries run d w) = g w"
  by (induction d arbitrary: w) (simp_all add: run_entries_def assms)

lemma call_queue_keep:
  assumes "\<And>f w. g (run f w) = g w" and "\<And>q w. g (putq q w) = g w"
  shows "g (call_queue getq putq order run w) = g w"
  by (simp add: call_queue_def Let_def assms run_entries_keep [of g])

text \<open>The entries a call of the queue \<open>q\<close> runs, in order.\<close>

definition called ::
    "('cb callback_dict \<Rightarrow> 'cb callback_dict) \<Rightarrow> 'cb callback_queue \<Rightarrow> 'cb callback_dict" where
  "called order q = order (callbacks q) @ order (single_shots q)"

lemma called_mset:
  "(\<And>d. mset (order d) = mset d)
   \<Longrightarrow> mset (called order q) = mset (callbacks q) + mset (single_shots q)"
  by (simp add: called_def)

text \<open>A queue whose callbacks leave it alone: a call runs the entries it had at the start.\<close>

locale steady_queue =
  fixes getq :: "'w \<Rightarrow> 'cb callback_queue"
    and putq :: "'cb callback_queue \<Rightarrow> 'w \<Rightarrow> 'w"
    and run :: "'cb \<Rightarrow> 'w \<Rightarrow> 'w"
  assumes get_put: "getq (putq q w) = q"
    and get_run: "getq (run f w) = getq w"
begin

lemma call_steady:
  "call_queue getq putq order run w =
     putq ((getq w)\<lparr>single_shots := [], sshots_called := True\<rparr>) (run_entries run (called order (getq w)) w)"
  by (simp add: call_queue_def Let_def called_def run_entries_keep [of getq, OF get_run])
    (simp add: run_entries_def get_run run_entries_keep [of getq, OF get_run, unfolded run_entries_def])

lemma call_queue_after:
  "getq (call_queue getq putq order run w) = (getq w)\<lparr>single_shots := [], sshots_called := True\<rparr>"
  by (simp add: call_steady get_put)

lemma call_trace_emitted:
  assumes "\<And>f w. tr (run f w) = tr w @ [ev f]" and "\<And>q w. tr (putq q w) = tr w"
  shows "tr (call_queue getq putq order run w) = tr w @ map (ev \<circ> snd) (called order (getq w))"
proof -
  have "tr (run_entries run d w) = tr w @ map (ev \<circ> snd) d" for d
    by (induction d arbitrary: w) (simp_all add: run_entries_def assms(1))
  then show ?thesis by (simp add: call_steady assms(2))
qed

end

section \<open>Threads waiting for a single shot\<close>

text \<open>
  Every invocation of \<open>add_single_shot\<close> is a number. It registers its callback and waits;
  a wake-up (a notification, a spurious one, or the timeout) reacquires the mutex and
  evaluates the predicate \<open>sShotsCalled_\<close>, and the invocation returns its value or, on a
  wake-up that is not a timeout, waits on. \<open>executed\<close> records whose callbacks have run.
\<close>

datatype invocation = Not_started | Waiting | Returned bool

record shot_state =
  queue_of :: "nat callback_queue"
  invocations :: "nat \<Rightarrow> invocation"
  executed :: "nat list"

definition shots_init :: shot_state where
  "shots_init = \<lparr>queue_of = empty_queue, invocations = (\<lambda>_. Not_started), executed = []\<rparr>"

definition run_shot :: "nat \<Rightarrow> shot_state \<Rightarrow> shot_state" where
  "run_shot n s = s\<lparr>executed := executed s @ [n]\<rparr>"

definition put_shot_queue :: "nat callback_queue \<Rightarrow> shot_state \<Rightarrow> shot_state" where
  "put_shot_queue q s = s\<lparr>queue_of := q\<rparr>"

inductive shot_step :: "shot_state \<Rightarrow> shot_state \<Rightarrow> bool" where
  shot_register: "invocations s n = Not_started
     \<Longrightarrow> register_single_shot (queue_of s) n = Some (q, i)
     \<Longrightarrow> shot_step s (s\<lparr>queue_of := q, invocations := (invocations s)(n := Waiting)\<rparr>)"
| shot_call: "(\<And>d. mset (order d) = mset d)
     \<Longrightarrow> shot_step s (call_queue queue_of put_shot_queue order run_shot s)"
| shot_wake: "invocations s n = Waiting \<Longrightarrow> sshots_called (queue_of s)
     \<Longrightarrow> shot_step s (s\<lparr>invocations := (invocations s)(n := Returned True)\<rparr>)"
| shot_timeout: "invocations s n = Waiting \<Longrightarrow> \<not> sshots_called (queue_of s)
     \<Longrightarrow> shot_step s (s\<lparr>invocations := (invocations s)(n := Returned False)\<rparr>)"

inductive shot_reachable :: "shot_state \<Rightarrow> bool" where
  shot_start: "shot_reachable shots_init"
| shot_next: "shot_reachable s \<Longrightarrow> shot_step s t \<Longrightarrow> shot_reachable t"

text \<open>
  The invariant: an invocation is not started iff its callback was never registered; one
  that waits, or timed out, is still registered or has run; if the flag is up, the waiting
  ones have run; one that returned true has run. No callback is registered or run twice.
\<close>

definition shot_owners :: "shot_state \<Rightarrow> nat list" where
  "shot_owners s = map snd (single_shots (queue_of s))"

definition shot_inv :: "shot_state \<Rightarrow> bool" where
  "shot_inv s \<longleftrightarrow>
     callbacks (queue_of s) = []
     \<and> distinct (shot_owners s @ executed s)
     \<and> (\<forall>n. invocations s n = Not_started \<longleftrightarrow> n \<notin> set (shot_owners s) \<union> set (executed s))
     \<and> (sshots_called (queue_of s) \<longrightarrow> single_shots (queue_of s) = [])
     \<and> (\<forall>n. invocations s n = Returned True \<longrightarrow> n \<in> set (executed s))"

text \<open>The state that \<open>call\<close> leaves: the waiting callbacks have run, in some order.\<close>

interpretation shots: queue_host queue_of put_shot_queue "\<lambda>d. d" run_shot executed
  by unfold_locales (simp_all add: put_shot_queue_def run_shot_def)

lemma run_shots: "run_entries run_shot d s = s\<lparr>executed := executed s @ map snd d\<rparr>"
  by (induction d arbitrary: s) (simp_all add: run_entries_def run_shot_def)

lemma shot_call_state:
  assumes "callbacks (queue_of s) = []" and "\<And>d. mset (order d) = mset d"
  shows "call_queue queue_of put_shot_queue order run_shot s =
     s\<lparr>queue_of := (queue_of s)\<lparr>single_shots := [], sshots_called := True\<rparr>,
       executed := executed s @ map snd (order (single_shots (queue_of s)))\<rparr>"
proof -
  have "order [] = []" using assms(2) [of "[]"] by simp
  then show ?thesis
    using assms(1) by (simp add: call_queue_def Let_def run_shots put_shot_queue_def)
qed

lemma register_single_shot_SomeD:
  "register_single_shot q f = Some (q', i) \<Longrightarrow>
   q' = q\<lparr>single_shots := single_shots q @ [(i, f)], sshots_called := False\<rparr>"
  using add_entry_SomeD by (fastforce simp: register_single_shot_def split: option.splits)

lemma shot_inv_init: "shot_inv shots_init"
  by (simp add: shot_inv_def shots_init_def shot_owners_def empty_queue_def)

lemma shot_inv_waiting:
  "shot_inv s \<Longrightarrow> invocations s n = Waiting \<Longrightarrow> n \<in> set (shot_owners s) \<union> set (executed s)"
  unfolding shot_inv_def by (metis invocation.distinct(1))

lemma shot_inv_step: "shot_step s t \<Longrightarrow> shot_inv s \<Longrightarrow> shot_inv t"
proof (induction rule: shot_step.induct)
  case (shot_register s n q i)
  then show ?case
    by (auto simp: shot_inv_def shot_owners_def dest!: register_single_shot_SomeD)
      (force simp: disjoint_iff)
next
  case (shot_call order s)
  have perm: "mset (map snd (order (single_shots (queue_of s)))) = mset (shot_owners s)"
    using shot_call.hyps by (simp add: shot_owners_def mset_map)
  note perm_facts = mset_eq_setD [OF perm] mset_eq_imp_distinct_iff [OF perm]
  show ?case
    using shot_call perm_facts by (auto simp: shot_inv_def shot_owners_def shot_call_state)
next
  case (shot_wake s n)
  then have "n \<in> set (executed s)"
    using shot_inv_waiting [of s n] by (simp add: shot_inv_def shot_owners_def)
  with shot_wake show ?case
    by (auto simp: shot_inv_def shot_owners_def)
next
  case (shot_timeout s n)
  then show ?case
    using shot_inv_waiting [of s n] by (auto simp: shot_inv_def shot_owners_def)
qed

lemma shot_reachable_inv: "shot_reachable s \<Longrightarrow> shot_inv s"
  by (induction rule: shot_reachable.induct) (auto intro: shot_inv_init shot_inv_step)

end
