(* ===== verification/Callback_Properties.thy ===== *)
theory Callback_Properties
  imports Callback_Queue
begin

text \<open>
  What the callback queue promises: registering and removing, the calls, and what a thread that
  waits for a single shot can conclude from the value it gets.
\<close>

section \<open>Registering and removing\<close>

text \<open>
  C16: as long as an id is left, registering a callback returns; the id is new, finds the
  callback, leaves the others registered under theirs, and removing it once succeeds and gives
  back the registry there was.
\<close>

theorem registered_callback_is_found_and_removed:
  assumes "queue_inv q" and "queue_room q"
  shows "\<exists>q1 i q2. add_callback q f = Some (q1, i)
     \<and> queue_look q i = None \<and> queue_look q1 = (queue_look q)(i \<mapsto> f) \<and> queue_inv q1
     \<and> remove_callback q1 i = (q2, True) \<and> queue_look q2 = queue_look q
     \<and> (\<exists>q3. remove_callback q2 i = (q3, False))"
proof -
  obtain q1 i where add: "add_callback q f = Some (q1, i)"
    using queue.add_total [OF assms, of f] by (elim exE)
  have inv1: "queue_inv q1" by (rule queue.add_inv [OF assms(1) add])
  obtain q2 b where rem: "remove_callback q1 i = (q2, b)" by fastforce
  obtain q3 b3 where rem3: "remove_callback q2 i = (q3, b3)" by fastforce
  have b: "queue_look q2 = queue_look q" "b" "\<not> b3"
    using queue.add_then_remove [OF assms(1) add rem] queue.remove_twice [OF inv1 rem rem3]
    by simp_all
  have "queue_look q i = None" "queue_look q1 = (queue_look q)(i \<mapsto> f)"
    by (rule queue.add_fresh [OF assms(1) add], rule queue.add_look [OF assms(1) add])
  moreover have "remove_callback q1 i = (q2, True)" "remove_callback q2 i = (q3, False)"
    using rem rem3 b by simp_all
  ultimately show ?thesis using add inv1 b(1) by blast
qed

lemma registered_callback_is_found_and_removed_witness:
  "\<exists>q1 i. add_callback \<lparr>callbacks = [(1, ''a'')], single_shots = [], sshots_called = False\<rparr> ''b''
     = Some (q1, i) \<and> queue_look q1 i = Some ''b'' \<and> queue_look q1 1 = Some ''a''"
proof -
  let ?q = "\<lparr>callbacks = [(1, ''a'')], single_shots = [], sshots_called = False\<rparr>"
  have "queue_inv ?q" "queue_room ?q" by (simp_all add: queue_inv_def queue_room_def)
  from registered_callback_is_found_and_removed [OF this, of "''b''"]
  show ?thesis by (auto simp: queue_look_def split: if_splits)
qed

text \<open>
  Ids are reused. After a callback is removed the next one gets its id, so a second removal
  under the stale id, which should fail, removes the callback of someone else.
\<close>

theorem stale_id_removes_another_callback:
  assumes "add_callback q f = Some (q1, i)" and "remove_callback q1 i = (q2, b)"
  shows "\<exists>q3. add_callback q2 g = Some (q3, i) \<and> snd (remove_callback q3 i)
     \<and> callbacks (fst (remove_callback q3 i)) = callbacks q"
proof -
  from add_callback_SomeD [OF assms(1)]
  have q1: "q1 = q\<lparr>callbacks := callbacks q @ [(i, f)]\<rparr>" and fresh: "i \<notin> set (map fst (callbacks q))"
    by blast+
  have same: "filter (\<lambda>e. fst e \<noteq> i) (callbacks q) = callbacks q"
    using fresh by (auto simp: filter_id_conv)
  have q2: "callbacks q2 = callbacks q"
    using assms(2) same by (auto simp: remove_callback_def q1)
  have "free_id (callbacks q) (word_of_nat (length (callbacks q))) = Some i"
    using assms(1) by (auto simp: add_callback_def add_entry_def split: option.splits)
  then have "add_callback q2 g = Some (q2\<lparr>callbacks := callbacks q @ [(i, g)]\<rparr>, i)"
    by (simp add: add_callback_def add_entry_def q2)
  then show ?thesis using same by (simp add: remove_callback_def)
qed

lemma stale_id_removes_another_callback_witness:
  "\<exists>q3. add_callback (empty_queue :: nat callback_queue) 7 = Some (q3, 0)
     \<and> snd (remove_callback q3 0)"
proof -
  have "add_callback (empty_queue :: nat callback_queue) 5 =
      Some (empty_queue\<lparr>callbacks := [(0, 5)]\<rparr>, 0)"
    by (simp add: add_callback_def add_entry_def empty_queue_def free_id_start)
  moreover have "remove_callback ((empty_queue :: nat callback_queue)\<lparr>callbacks := [(0, 5)]\<rparr>) 0 =
      (empty_queue, True)"
    by (simp add: remove_callback_def empty_queue_def)
  ultimately show ?thesis
    using stale_id_removes_another_callback [of empty_queue 5 _ 0 empty_queue True 7] by blast
qed

section \<open>Waiting for a single shot\<close>

text \<open>
  C12: whatever threads register and wait, and however wake-ups, timeouts and calls interleave,
  an invocation of \<open>add_single_shot\<close> that returned true has had its callback run, exactly once,
  and it is no longer registered.
\<close>

theorem true_means_ran_once:
  assumes "shot_reachable s" and "invocations s n = Returned True"
  shows "count_list (executed s) n = 1 \<and> n \<notin> set (shot_owners s)"
proof -
  have inv: "shot_inv s" using assms(1) by (rule shot_reachable_inv)
  then have n: "n \<in> set (executed s)" and dist: "distinct (shot_owners s @ executed s)"
    using assms(2) by (auto simp: shot_inv_def)
  have "distinct xs \<Longrightarrow> x \<in> set xs \<Longrightarrow> count_list xs x = 1" for x and xs :: "nat list"
    by (induction xs) (auto simp: count_list_0_iff)
  with n dist show ?thesis by auto
qed

definition shots_done :: shot_state where
  "shots_done =
     \<lparr>queue_of = \<lparr>callbacks = [], single_shots = [], sshots_called = True\<rparr>,
      invocations = (\<lambda>_. Not_started)(3 := Returned True), executed = [3]\<rparr>"

lemma register_shot_step:
  assumes "invocations s n = Not_started" and "single_shots (queue_of s) = []"
  shows "shot_step s (s\<lparr>queue_of := (queue_of s)\<lparr>single_shots := [(0, n)], sshots_called := False\<rparr>,
     invocations := (invocations s)(n := Waiting)\<rparr>)"
proof -
  have "register_single_shot (queue_of s) n =
      Some ((queue_of s)\<lparr>single_shots := [(0, n)], sshots_called := False\<rparr>, 0)"
    using assms(2) by (simp add: register_single_shot_def add_entry_def free_id_start)
  from shot_register [of s n, OF assms(1) this] show ?thesis by simp
qed

lemma call_shots_step:
  assumes "callbacks (queue_of s) = []"
  shows "shot_step s (s\<lparr>queue_of := (queue_of s)\<lparr>single_shots := [], sshots_called := True\<rparr>,
     executed := executed s @ map snd (single_shots (queue_of s))\<rparr>)"
  using shot_call [of "\<lambda>d. d" s] shot_call_state [of s "\<lambda>d. d"] assms by simp

lemma shots_done_reachable: "shot_reachable shots_done"
proof -
  let ?a = "shots_init\<lparr>queue_of := (queue_of shots_init)\<lparr>single_shots := [(0, 3)], sshots_called := False\<rparr>,
      invocations := (invocations shots_init)(3 := Waiting)\<rparr>"
  let ?b = "?a\<lparr>queue_of := (queue_of ?a)\<lparr>single_shots := [], sshots_called := True\<rparr>,
      executed := executed ?a @ map snd (single_shots (queue_of ?a))\<rparr>"
  let ?c = "?b\<lparr>invocations := (invocations ?b)(3 := Returned True)\<rparr>"
  have "shot_step shots_init ?a"
    by (rule register_shot_step) (simp_all add: shots_init_def empty_queue_def)
  then have "shot_reachable ?a" using shot_start shot_next by blast
  moreover have "shot_step ?a ?b" by (rule call_shots_step) (simp add: shots_init_def empty_queue_def)
  ultimately have "shot_reachable ?b" using shot_next by blast
  moreover have "shot_step ?b ?c" by (rule shot_wake) simp_all
  ultimately have "shot_reachable ?c" using shot_next by blast
  moreover have "?c = shots_done" by (simp add: shots_done_def shots_init_def empty_queue_def)
  ultimately show ?thesis by simp
qed

lemma true_means_ran_once_witness: "count_list (executed shots_done) 3 = 1"
  using true_means_ran_once [OF shots_done_reachable, of 3] by (simp add: shots_done_def)

text \<open>
  The value false does not mean that the callback did not run. A thread whose callback was
  just run, and which has not reacquired the mutex, loses the wake-up to a second thread that
  registers: the flag is down again, and it times out.
\<close>

theorem false_although_it_ran:
  "\<exists>s n. shot_reachable s \<and> invocations s n = Returned False \<and> n \<in> set (executed s)"
proof -
  let ?a = "shots_init\<lparr>queue_of := (queue_of shots_init)\<lparr>single_shots := [(0, 0)], sshots_called := False\<rparr>,
      invocations := (invocations shots_init)(0 := Waiting)\<rparr>"
  let ?b = "?a\<lparr>queue_of := (queue_of ?a)\<lparr>single_shots := [], sshots_called := True\<rparr>,
      executed := executed ?a @ map snd (single_shots (queue_of ?a))\<rparr>"
  let ?c = "?b\<lparr>queue_of := (queue_of ?b)\<lparr>single_shots := [(0, 1)], sshots_called := False\<rparr>,
      invocations := (invocations ?b)(1 := Waiting)\<rparr>"
  let ?d = "?c\<lparr>invocations := (invocations ?c)(0 := Returned False)\<rparr>"
  have "shot_step shots_init ?a"
    by (rule register_shot_step) (simp_all add: shots_init_def empty_queue_def)
  then have "shot_reachable ?a" using shot_start shot_next by blast
  moreover have "shot_step ?a ?b" by (rule call_shots_step) (simp add: shots_init_def empty_queue_def)
  ultimately have "shot_reachable ?b" using shot_next by blast
  moreover have "shot_step ?b ?c"
    by (rule register_shot_step) (simp_all add: shots_init_def empty_queue_def)
  ultimately have "shot_reachable ?c" using shot_next by blast
  moreover have "shot_step ?c ?d" by (rule shot_timeout) simp_all
  ultimately have "shot_reachable ?d" using shot_next by blast
  moreover have "invocations ?d 0 = Returned False" "0 \<in> set (executed ?d)" by simp_all
  ultimately show ?thesis by blast
qed

end
