(* ===== verification/Callback_Threads.thy ===== *)
theory Callback_Threads
  imports Callback_Queue
begin

text \<open>
  The callback queue of \<open>include/oculus_driver/CallbackQueue.h\<close> lock by lock. Threads share one
  queue; each has a stack of what it still has to do. What runs under \<open>mutex_\<close> is one step, since
  no callback runs under it. \<open>sShotsMutex_\<close> is held while single shots run, so it has an owner.
  A callback is a number; its body is what it does to the queue. The lemmas relate these steps to
  the uninterrupted \<open>call_queue\<close> of \<open>Callback_Queue\<close>, and show what the locks do not prevent.
\<close>

section \<open>Threads\<close>

datatype queue_op =
    Op_add nat
  | Op_remove callback_id
  | Op_next nat
  | Op_call

text \<open>
  What a thread has to do: an operation; the loops of \<open>call\<close> over the copied callbacks and over
  the single shots, with what is left of them; between the two, to take \<open>sShotsMutex_\<close>; in
  \<open>add_single_shot\<close>, to wait.
\<close>

datatype task =
    Do queue_op
  | Run_copied "nat callback_dict"
  | Take_shots
  | Run_shots "nat callback_dict"
  | Wait

datatype queue_event =
    Added nat callback_id
  | Removed nat callback_id bool
  | Ran nat nat
  | Next_returned nat bool

record thread_state =
  shared_queue :: "nat callback_queue"
  shots_owner :: "nat option"
  stacks :: "nat \<Rightarrow> task list"
  queue_events :: "queue_event list"

definition set_stack :: "nat \<Rightarrow> task list \<Rightarrow> thread_state \<Rightarrow> thread_state" where
  "set_stack t ts s = s\<lparr>stacks := (stacks s)(t := ts)\<rparr>"

definition log_event :: "queue_event \<Rightarrow> thread_state \<Rightarrow> thread_state" where
  "log_event e s = s\<lparr>queue_events := queue_events s @ [e]\<rparr>"

definition threads_init :: "(nat \<Rightarrow> queue_op list) \<Rightarrow> thread_state" where
  "threads_init prog =
     \<lparr>shared_queue = empty_queue, shots_owner = None, stacks = (\<lambda>t. map Do (prog t)), queue_events = []\<rparr>"

section \<open>Steps\<close>

text \<open>
  One step of the thread \<open>t\<close>. A step that needs \<open>sShotsMutex_\<close> can be taken only while nobody
  owns it, not even \<open>t\<close>: the mutex is not recursive. A thread that waits gives the mutex up and
  takes it again to return, after a notification as after the timeout.
\<close>

inductive thread_step ::
    "(nat \<Rightarrow> queue_op list) \<Rightarrow> nat \<Rightarrow> thread_state \<Rightarrow> thread_state \<Rightarrow> bool" for body t where
  thread_add: "stacks s t = Do (Op_add f) # ts \<Longrightarrow> add_callback (shared_queue s) f = Some (q, i)
     \<Longrightarrow> thread_step body t s (log_event (Added t i) (set_stack t ts (s\<lparr>shared_queue := q\<rparr>)))"
| thread_remove: "stacks s t = Do (Op_remove i) # ts \<Longrightarrow> remove_callback (shared_queue s) i = (q, b)
     \<Longrightarrow> thread_step body t s (log_event (Removed t i b) (set_stack t ts (s\<lparr>shared_queue := q\<rparr>)))"
| thread_next: "stacks s t = Do (Op_next f) # ts \<Longrightarrow> shots_owner s = None
     \<Longrightarrow> register_single_shot (shared_queue s) f = Some (q, i)
     \<Longrightarrow> thread_step body t s (set_stack t (Wait # ts) (s\<lparr>shared_queue := q\<rparr>))"
| thread_wake: "stacks s t = Wait # ts \<Longrightarrow> shots_owner s = None \<Longrightarrow> sshots_called (shared_queue s)
     \<Longrightarrow> thread_step body t s (log_event (Next_returned t True) (set_stack t ts s))"
| thread_timeout: "stacks s t = Wait # ts \<Longrightarrow> shots_owner s = None \<Longrightarrow> \<not> sshots_called (shared_queue s)
     \<Longrightarrow> thread_step body t s (log_event (Next_returned t False) (set_stack t ts s))"
| thread_call: "stacks s t = Do Op_call # ts \<Longrightarrow> mset d = mset (callbacks (shared_queue s))
     \<Longrightarrow> thread_step body t s (set_stack t (Run_copied d # Take_shots # ts) s)"
| thread_run: "stacks s t = Run_copied ((i, f) # d) # ts
     \<Longrightarrow> thread_step body t s (log_event (Ran t f) (set_stack t (map Do (body f) @ Run_copied d # ts) s))"
| thread_copied_done: "stacks s t = Run_copied [] # ts \<Longrightarrow> thread_step body t s (set_stack t ts s)"
| thread_lock: "stacks s t = Take_shots # ts \<Longrightarrow> shots_owner s = None
     \<Longrightarrow> mset d = mset (single_shots (shared_queue s))
     \<Longrightarrow> thread_step body t s (set_stack t (Run_shots d # ts) (s\<lparr>shots_owner := Some t\<rparr>))"
| thread_run_shot: "stacks s t = Run_shots ((i, f) # d) # ts
     \<Longrightarrow> thread_step body t s (log_event (Ran t f) (set_stack t (map Do (body f) @ Run_shots d # ts) s))"
| thread_shots_done: "stacks s t = Run_shots [] # ts
     \<Longrightarrow> thread_step body t s (set_stack t ts (s\<lparr>shots_owner := None,
           shared_queue := (shared_queue s)\<lparr>single_shots := [], sshots_called := True\<rparr>\<rparr>))"

definition any_step :: "(nat \<Rightarrow> queue_op list) \<Rightarrow> thread_state \<Rightarrow> thread_state \<Rightarrow> bool" where
  "any_step body s s' \<longleftrightarrow> (\<exists>t. thread_step body t s s')"

inductive threads_reachable ::
    "(nat \<Rightarrow> queue_op list) \<Rightarrow> (nat \<Rightarrow> queue_op list) \<Rightarrow> thread_state \<Rightarrow> bool" for body prog where
  threads_start: "threads_reachable body prog (threads_init prog)"
| threads_next: "threads_reachable body prog s \<Longrightarrow> thread_step body t s s'
     \<Longrightarrow> threads_reachable body prog s'"

lemma stack_fields [simp]:
  "stacks (set_stack t ts s) = (stacks s)(t := ts)" "shared_queue (set_stack t ts s) = shared_queue s"
  "shots_owner (set_stack t ts s) = shots_owner s" "queue_events (set_stack t ts s) = queue_events s"
  "stacks (log_event e s) = stacks s" "shared_queue (log_event e s) = shared_queue s"
  "shots_owner (log_event e s) = shots_owner s" "queue_events (log_event e s) = queue_events s @ [e]"
  by (simp_all add: set_stack_def log_event_def)

lemma set_stack_twice [simp]: "set_stack t ts (set_stack t us s) = set_stack t ts s"
  by (simp add: set_stack_def)

text \<open>Stacks are set last.\<close>

lemma set_stack_last [simp]:
  "log_event e (set_stack t ts s) = set_stack t ts (log_event e s)"
  "(set_stack t ts s)\<lparr>shared_queue := q\<rparr> = set_stack t ts (s\<lparr>shared_queue := q\<rparr>)"
  "(set_stack t ts s)\<lparr>shots_owner := o'\<rparr> = set_stack t ts (s\<lparr>shots_owner := o'\<rparr>)"
  "log_event e (s\<lparr>shots_owner := o'\<rparr>) = (log_event e s)\<lparr>shots_owner := o'\<rparr>"
  by (simp_all add: set_stack_def log_event_def)

text \<open>A step of one thread leaves the stacks of the others alone.\<close>

lemma thread_step_others: "thread_step body u s s' \<Longrightarrow> u \<noteq> t \<Longrightarrow> stacks s' t = stacks s t"
  by (auto elim!: thread_step.cases)

lemma threads_reachable_steps:
  "(any_step body)\<^sup>*\<^sup>* s s' \<Longrightarrow> threads_reachable body prog s \<Longrightarrow> threads_reachable body prog s'"
  by (induction rule: rtranclp_induct) (auto simp: any_step_def intro: threads_next)

section \<open>Who holds the lock of the single shots\<close>

fun runs_shots :: "task \<Rightarrow> bool" where
  "runs_shots (Run_shots d) = True"
| "runs_shots _ = False"

definition lock_inv :: "thread_state \<Rightarrow> bool" where
  "lock_inv s \<longleftrightarrow> (\<forall>t. length (filter runs_shots (stacks s t)) = (if shots_owner s = Some t then 1 else 0))"

lemma runs_shots_Do [simp]: "filter runs_shots (map Do ops) = []"
  by (induction ops) simp_all

lemma lock_inv_keep:
  assumes "lock_inv s" and "\<And>u. u \<noteq> t \<Longrightarrow> stacks s' u = stacks s u" and "shots_owner s' = shots_owner s"
    and "length (filter runs_shots (stacks s' t)) = length (filter runs_shots (stacks s t))"
  shows "lock_inv s'"
  using assms unfolding lock_inv_def by metis

lemma lock_inv_step: "thread_step body t s s' \<Longrightarrow> lock_inv s \<Longrightarrow> lock_inv s'"
proof (induction rule: thread_step.induct)
  case (thread_shots_done s ts)
  then have "length (filter runs_shots (stacks s t)) \<noteq> 0" by simp
  then have owner: "shots_owner s = Some t"
    using thread_shots_done.prems unfolding lock_inv_def by metis
  then have "length (filter runs_shots ts) = 0" and "\<forall>u. u \<noteq> t \<longrightarrow> length (filter runs_shots (stacks s u)) = 0"
    using thread_shots_done unfolding lock_inv_def
    by (metis One_nat_def Suc_inject filter.simps(2) length_Cons runs_shots.simps(1), simp)
  then show ?case by (simp add: lock_inv_def)
next
  case (thread_lock s ts d)
  then have "length (filter runs_shots (stacks s u)) = 0" for u unfolding lock_inv_def by simp
  from this [of t] this thread_lock show ?case by (simp add: lock_inv_def)
qed (erule lock_inv_keep [where t = t]; simp)+

lemma lock_inv_init: "lock_inv (threads_init prog)"
  by (simp add: threads_init_def lock_inv_def)

lemma threads_reachable_inv: "threads_reachable body prog s \<Longrightarrow> lock_inv s"
  by (induction rule: threads_reachable.induct) (blast intro: lock_inv_init lock_inv_step)+

section \<open>A call that is not interrupted\<close>

text \<open>
  A callback that only adds and removes callbacks, run from beginning to end by the thread \<open>t\<close>.
  \<open>None\<close>: some callback finds no free id.
\<close>

fun registry_op :: "queue_op \<Rightarrow> bool" where
  "registry_op (Op_add f) = True"
| "registry_op (Op_remove i) = True"
| "registry_op _ = False"

fun run_op :: "nat \<Rightarrow> queue_op \<Rightarrow> thread_state \<Rightarrow> thread_state" where
  "run_op t (Op_add f) s =
     (case add_callback (shared_queue s) f of
        None \<Rightarrow> s
      | Some (q, i) \<Rightarrow> log_event (Added t i) (s\<lparr>shared_queue := q\<rparr>))"
| "run_op t (Op_remove i) s =
     (let (q, b) = remove_callback (shared_queue s) i
      in log_event (Removed t i b) (s\<lparr>shared_queue := q\<rparr>))"
| "run_op t _ s = s"

definition run_body :: "(nat \<Rightarrow> queue_op list) \<Rightarrow> nat \<Rightarrow> nat \<Rightarrow> thread_state \<Rightarrow> thread_state" where
  "run_body body t f s = fold (run_op t) (body f) (log_event (Ran t f) s)"

lemma run_op_stack: "run_op t op (set_stack u ts s) = set_stack u ts (run_op t op s)"
  by (cases op) (simp_all split: option.split prod.split)

lemma fold_run_op_stack: "fold (run_op t) ops (set_stack u ts s) = set_stack u ts (fold (run_op t) ops s)"
  by (induction ops arbitrary: s) (simp_all add: run_op_stack)

lemma set_stack_same: "stacks s t = ts \<Longrightarrow> set_stack t ts s = s"
  by (auto simp: set_stack_def)

text \<open>The ids left suffice for \<open>n\<close> more callbacks.\<close>

definition ids_left :: "nat \<Rightarrow> thread_state \<Rightarrow> bool" where
  "ids_left n s \<longleftrightarrow> length (callbacks (shared_queue s)) + n < 2 ^ 32"

lemma run_op_ids: "ids_left (Suc n) s \<Longrightarrow> ids_left n (run_op t op s)"
proof (cases op)
  case (Op_remove i)
  assume "ids_left (Suc n) s"
  then have "length (filter (\<lambda>e. fst e \<noteq> i) (callbacks (shared_queue s))) + n < 2 ^ 32"
    by (intro le_less_trans [OF add_right_mono [OF length_filter_le]]) (simp add: ids_left_def)
  with Op_remove show ?thesis by (simp add: ids_left_def remove_callback_def)
qed (auto simp: ids_left_def dest: add_callback_SomeD split: option.split)

lemma ids_left_stack [simp]: "ids_left n (set_stack t ts s) = ids_left n s"
  "ids_left n (log_event e s) = ids_left n s"
  by (simp_all add: ids_left_def)

lemma op_step:
  assumes "stacks s t = Do op # ts" and "registry_op op" and "ids_left 0 s"
  shows "thread_step body t s (set_stack t ts (run_op t op s))"
proof (cases op)
  case (Op_add f)
  have "length (callbacks (shared_queue s)) < 2 ^ 32" using assms(3) by (simp add: ids_left_def)
  then obtain j where "add_entry (callbacks (shared_queue s)) f = Some (callbacks (shared_queue s) @ [(j, f)], j)"
    by (rule add_entry_Some)
  then obtain q where "add_callback (shared_queue s) f = Some (q, j)" by (auto simp: add_callback_def)
  with thread_add [of s t f ts q j body] assms(1) Op_add show ?thesis by simp
next
  case (Op_remove i)
  obtain q b where "remove_callback (shared_queue s) i = (q, b)" by fastforce
  with thread_remove [of s t i ts q b body] assms(1) Op_remove show ?thesis by simp
qed (use assms in auto)

lemma body_steps:
  assumes "stacks s t = map Do ops @ ts" and "list_all registry_op ops" and "ids_left (length ops) s"
  shows "(thread_step body t)\<^sup>*\<^sup>* s (set_stack t ts (fold (run_op t) ops s))"
  using assms
proof (induction ops arbitrary: s)
  case Nil
  then show ?case by (simp add: set_stack_same)
next
  case (Cons op ops)
  let ?s = "set_stack t (map Do ops @ ts) (run_op t op s)"
  have "ids_left 0 s" using Cons.prems(3) by (simp add: ids_left_def)
  then have "thread_step body t s ?s" using Cons.prems by (intro op_step) simp_all
  moreover have "(thread_step body t)\<^sup>*\<^sup>* ?s (set_stack t ts (fold (run_op t) ops ?s))"
    using Cons.prems run_op_ids by (intro Cons.IH) simp_all
  ultimately show ?case by (simp add: fold_run_op_stack)
qed

text \<open>One of the two loops, to its end.\<close>

definition ops_of :: "(nat \<Rightarrow> queue_op list) \<Rightarrow> nat callback_dict \<Rightarrow> nat" where
  "ops_of body d = sum_list (map (\<lambda>e. length (body (snd e))) d)"

lemma fold_run_op_ids: "ids_left (length ops + n) s \<Longrightarrow> ids_left n (fold (run_op t) ops s)"
  by (induction ops arbitrary: s) (simp_all add: run_op_ids)

lemma run_body_commute:
  "run_body body t f (set_stack u ts s) = set_stack u ts (run_body body t f s)"
  "run_body body t f (s\<lparr>shots_owner := o'\<rparr>) = (run_body body t f s)\<lparr>shots_owner := o'\<rparr>"
proof -
  show "run_body body t f (set_stack u ts s) = set_stack u ts (run_body body t f s)"
    by (simp add: run_body_def fold_run_op_stack)
  have "run_op t op (s\<lparr>shots_owner := o'\<rparr>) = (run_op t op s)\<lparr>shots_owner := o'\<rparr>" for op s
    by (cases op) (simp_all add: log_event_def split: option.split prod.split)
  then have "fold (run_op t) ops (s\<lparr>shots_owner := o'\<rparr>) = (fold (run_op t) ops s)\<lparr>shots_owner := o'\<rparr>" for ops s
    by (induction ops arbitrary: s) simp_all
  from this [of "body f" "log_event (Ran t f) s"] show
    "run_body body t f (s\<lparr>shots_owner := o'\<rparr>) = (run_body body t f s)\<lparr>shots_owner := o'\<rparr>"
    by (simp add: run_body_def)
qed

lemma run_entries_stack:
  "run_entries (run_body body t) d (set_stack u ts s) = set_stack u ts (run_entries (run_body body t) d s)"
  by (induction d arbitrary: s) (simp_all add: run_entries_def run_body_commute)

lemma run_entries_owner:
  "run_entries (run_body body t) d (s\<lparr>shots_owner := o'\<rparr>) = (run_entries (run_body body t) d s)\<lparr>shots_owner := o'\<rparr>"
  by (induction d arbitrary: s) (simp_all add: run_entries_def run_body_commute)

lemma loop_steps:
  assumes "loop = Run_copied \<or> loop = Run_shots" and "stacks s t = loop d # ts"
    and "\<And>f. list_all registry_op (body f)" and "ids_left (ops_of body d) s"
  shows "(thread_step body t)\<^sup>*\<^sup>* s (set_stack t (loop [] # ts) (run_entries (run_body body t) d s))"
  using assms(2,4)
proof (induction d arbitrary: s)
  case Nil
  then show ?case by (simp add: run_entries_def set_stack_same)
next
  case (Cons e d)
  obtain i f where e: "e = (i, f)" by fastforce
  let ?s = "log_event (Ran t f) (set_stack t (map Do (body f) @ loop d # ts) s)"
  let ?u = "set_stack t (loop d # ts) (run_body body t f s)"
  have "thread_step body t s ?s"
    using assms(1) Cons.prems(1) e thread_run [of s t i f d ts body] thread_run_shot [of s t i f d ts body]
    by auto
  moreover have "(thread_step body t)\<^sup>*\<^sup>* ?s (set_stack t (loop d # ts) (fold (run_op t) (body f) ?s))"
    using Cons.prems(2) e assms(3)
    by (intro body_steps) (simp_all, simp add: ids_left_def ops_of_def)
  moreover have "set_stack t (loop d # ts) (fold (run_op t) (body f) ?s) = ?u"
    by (simp add: run_body_def fold_run_op_stack)
  moreover have "ids_left (ops_of body d) ?u"
    using Cons.prems(2) e by (simp add: run_body_def fold_run_op_ids ops_of_def)
  then have "(thread_step body t)\<^sup>*\<^sup>* ?u (set_stack t (loop [] # ts) (run_entries (run_body body t) d ?u))"
    by (intro Cons.IH) simp_all
  moreover have "run_entries (run_body body t) d ?u =
      set_stack t (loop d # ts) (run_entries (run_body body t) d (run_body body t f s))"
    by (rule run_entries_stack)
  ultimately show ?case by (simp add: run_entries_def e)
qed

definition put_shared_queue :: "nat callback_queue \<Rightarrow> thread_state \<Rightarrow> thread_state" where
  "put_shared_queue q s = s\<lparr>shared_queue := q\<rparr>"

lemma run_op_shots: "single_shots (shared_queue (run_op t op s)) = single_shots (shared_queue s)"
  "shots_owner (run_op t op s) = shots_owner s"
  by (cases op; auto simp: remove_callback_def log_event_def dest: add_callback_SomeD split: option.split)+

lemma run_entries_keeps_shots:
  "single_shots (shared_queue (run_entries (run_body body t) d s)) = single_shots (shared_queue s)"
  "shots_owner (run_entries (run_body body t) d s) = shots_owner s"
proof -
  have ops: "single_shots (shared_queue (fold (run_op t) ops s)) = single_shots (shared_queue s)"
    "shots_owner (fold (run_op t) ops s) = shots_owner s" for ops s
    by (induction ops arbitrary: s) (simp_all add: run_op_shots)
  show "single_shots (shared_queue (run_entries (run_body body t) d s)) = single_shots (shared_queue s)"
    by (rule run_entries_keep [where g = "\<lambda>s. single_shots (shared_queue s)"]) (simp add: run_body_def ops)
  show "shots_owner (run_entries (run_body body t) d s) = shots_owner s"
    by (rule run_entries_keep [where g = shots_owner]) (simp add: run_body_def ops)
qed

lemma run_entries_ids:
  "ids_left (ops_of body d + n) s \<Longrightarrow> ids_left n (run_entries (run_body body t) d s)"
proof (induction d arbitrary: s)
  case (Cons e d)
  then have "ids_left (length (body (snd e)) + (ops_of body d + n)) (log_event (Ran t (snd e)) s)"
    by (simp add: ops_of_def add.assoc)
  then have "ids_left (ops_of body d + n) (run_body body t (snd e) s)"
    unfolding run_body_def by (rule fold_run_op_ids)
  then show ?case using Cons.IH by (simp add: run_entries_def)
qed (simp add: run_entries_def ops_of_def)

lemma shots_done_step:
  assumes "shots_owner w = None"
  shows "thread_step body t (set_stack t (Run_shots [] # ts) (w\<lparr>shots_owner := Some t\<rparr>))
     (set_stack t ts (put_shared_queue ((shared_queue w)\<lparr>single_shots := [], sshots_called := True\<rparr>) w))"
proof -
  have w: "w\<lparr>shots_owner := None\<rparr> = w" by (rule thread_state.equality) (simp_all add: assms)
  let ?q = "(shared_queue w)\<lparr>single_shots := [], sshots_called := True\<rparr>"
  have "thread_step body t (set_stack t (Run_shots [] # ts) (w\<lparr>shots_owner := Some t\<rparr>))
      (set_stack t ts (w\<lparr>shots_owner := None\<rparr>\<lparr>shared_queue := ?q\<rparr>))"
    using thread_shots_done [of "set_stack t (Run_shots [] # ts) (w\<lparr>shots_owner := Some t\<rparr>)" t ts body] by simp
  then show ?thesis unfolding w put_shared_queue_def .
qed

lemma ops_of_perm: "mset d = mset d' \<Longrightarrow> ops_of body d = ops_of body d'"
proof -
  have "ops_of body d = sum_mset (image_mset (\<lambda>e. length (body (snd e))) (mset d))" for d
    by (induction d) (simp_all add: ops_of_def)
  then show "mset d = mset d' \<Longrightarrow> ?thesis" by simp
qed

section \<open>Threads that make no calls\<close>

fun client_task :: "task \<Rightarrow> bool" where
  "client_task (Do op) = (op \<noteq> Op_call)"
| "client_task Wait = True"
| "client_task _ = False"

definition only_caller :: "nat \<Rightarrow> thread_state \<Rightarrow> bool" where
  "only_caller t s \<longleftrightarrow> (\<forall>u. u \<noteq> t \<longrightarrow> list_all client_task (stacks s u))"

lemma client_step:
  assumes "thread_step body u s s'" and "u \<noteq> t" and "only_caller t s" and "\<not> sshots_called (shared_queue s)"
  shows "only_caller t s' \<and> \<not> sshots_called (shared_queue s') \<and> stacks s' t = stacks s t"
proof -
  have "list_all client_task (stacks s u)" using assms(2,3) by (simp add: only_caller_def)
  with assms(1,4) have u: "list_all client_task (stacks s' u) \<and> \<not> sshots_called (shared_queue s')"
    by cases (auto dest!: add_callback_SomeD register_single_shot_SomeD simp: remove_callback_def)
  moreover have "stacks s' v = stacks s v" if "v \<noteq> u" for v
    using thread_step_others [OF assms(1)] that by metis
  ultimately show ?thesis using assms(2,3) unfolding only_caller_def by metis
qed

section \<open>Properties\<close>

text \<open>
  C10: a call whose thread is not interrupted is the call of the sequential model. If the callbacks
  only add and remove callbacks, and ids do not run out, the thread alone can go from the start
  of a call to its end, and the state it reaches is the one \<open>call_queue\<close> computes, whatever
  order the callbacks come in.
\<close>

theorem uninterrupted_call_is_atomic:
  assumes "stacks s t = Do Op_call # ts" and "shots_owner s = None"
    and "\<And>f. list_all registry_op (body f)" and "\<And>d. mset (order d) = mset d"
    and "length (callbacks (shared_queue s)) + ops_of body (callbacks (shared_queue s) @ single_shots (shared_queue s))
      < 2 ^ 32"
  shows "(thread_step body t)\<^sup>*\<^sup>* s
     (set_stack t ts (call_queue shared_queue put_shared_queue order (run_body body t) s))"
proof -
  let ?run = "run_entries (run_body body t)"
  let ?d = "order (callbacks (shared_queue s))" and ?e = "order (single_shots (shared_queue s))"
  let ?u = "?run ?d s"
  have ids: "ids_left (ops_of body ?d + ops_of body ?e) s"
    using assms(5) ops_of_perm [OF assms(4)] by (simp add: ids_left_def ops_of_def)
  let ?s1 = "set_stack t (Run_copied ?d # Take_shots # ts) s"
  have "thread_step body t s ?s1" using thread_call assms(1,4) by blast
  also have "(thread_step body t)\<^sup>*\<^sup>* ?s1 (set_stack t (Run_copied [] # Take_shots # ts) (?run ?d ?s1))"
    using ids assms(3) by (intro loop_steps) (auto simp: ids_left_def)
  also have "?run ?d ?s1 = set_stack t (Run_copied ?d # Take_shots # ts) ?u" by (rule run_entries_stack)
  finally have "(thread_step body t)\<^sup>*\<^sup>* s (set_stack t (Run_copied [] # Take_shots # ts) ?u)" by simp
  moreover have "thread_step body t (set_stack t (Run_copied [] # Take_shots # ts) ?u) (set_stack t (Take_shots # ts) ?u)"
    using thread_copied_done [of "set_stack t (Run_copied [] # Take_shots # ts) ?u" t "Take_shots # ts" body] by simp
  moreover have shots: "single_shots (shared_queue ?u) = single_shots (shared_queue s)" "shots_owner ?u = None"
    using assms(2) by (simp_all add: run_entries_keeps_shots)
  let ?v = "?u\<lparr>shots_owner := Some t\<rparr>"
  have "thread_step body t (set_stack t (Take_shots # ts) ?u) (set_stack t (Run_shots ?e # ts) ?v)"
    using thread_lock [of "set_stack t (Take_shots # ts) ?u" t ts ?e body] shots assms(4) by simp
  moreover have "ids_left (ops_of body ?e) ?u" using run_entries_ids [OF ids] .
  then have "(thread_step body t)\<^sup>*\<^sup>* (set_stack t (Run_shots ?e # ts) ?v)
      (set_stack t (Run_shots [] # ts) (?run ?e (set_stack t (Run_shots ?e # ts) ?v)))"
    using assms(3) by (intro loop_steps) (auto simp: ids_left_def)
  moreover have "?run ?e (set_stack t (Run_shots ?e # ts) ?v)
      = set_stack t (Run_shots ?e # ts) ((?run ?e ?u)\<lparr>shots_owner := Some t\<rparr>)"
    by (simp add: run_entries_stack run_entries_owner)
  ultimately have "(thread_step body t)\<^sup>*\<^sup>* s (set_stack t (Run_shots [] # ts) ((?run ?e ?u)\<lparr>shots_owner := Some t\<rparr>))"
    by simp
  moreover have "thread_step body t (set_stack t (Run_shots [] # ts) ((?run ?e ?u)\<lparr>shots_owner := Some t\<rparr>))
      (set_stack t ts (call_queue shared_queue put_shared_queue order (run_body body t) s))"
    unfolding call_queue_def Let_def using shots
    by (simp add: shots_done_step run_entries_keeps_shots)
  ultimately show ?thesis by (rule rtranclp.rtrancl_into_rtrancl)
qed

text \<open>A thread that calls a queue with one callback, which removes itself and adds another.\<close>

definition sample_threads :: thread_state where
  "sample_threads = \<lparr>shared_queue = \<lparr>callbacks = [(4, 7)], single_shots = [(0, 8)], sshots_called = False\<rparr>,
     shots_owner = None, stacks = (\<lambda>_. [])(0 := [Do Op_call]), queue_events = []\<rparr>"

lemma uninterrupted_call_is_atomic_witness:
  "\<exists>s. (thread_step ((\<lambda>_. [])(7 := [Op_remove 4, Op_add 9])) 0)\<^sup>*\<^sup>* sample_threads s
     \<and> map snd (callbacks (shared_queue s)) = [9] \<and> single_shots (shared_queue s) = []
     \<and> queue_events s = [Ran 0 7, Removed 0 4 True, Added 0 0, Ran 0 8]"
proof -
  let ?body = "(\<lambda>_. [])(7 := [Op_remove 4, Op_add 9])"
  let ?s = "set_stack 0 [] (call_queue shared_queue put_shared_queue (\<lambda>d. d) (run_body ?body 0) sample_threads)"
  have steps: "(thread_step ?body 0)\<^sup>*\<^sup>* sample_threads ?s"
    by (rule uninterrupted_call_is_atomic) (simp_all add: sample_threads_def ops_of_def)
  let ?u = "sample_threads\<lparr>shared_queue := \<lparr>callbacks = [(0, 9)], single_shots = [(0, 8)], sshots_called = False\<rparr>,
      queue_events := [Ran 0 7, Removed 0 4 True, Added 0 0]\<rparr>"
  have "run_body ?body 0 7 sample_threads = ?u"
    by (simp add: run_body_def sample_threads_def log_event_def remove_callback_def add_callback_def
        add_entry_def free_id_start)
  moreover have "run_body ?body 0 8 ?u = ?u\<lparr>queue_events := queue_events ?u @ [Ran 0 8]\<rparr>"
    by (simp add: run_body_def log_event_def)
  moreover have "callbacks (shared_queue sample_threads) = [(4, 7)]" by (simp add: sample_threads_def)
  ultimately have "call_queue shared_queue put_shared_queue (\<lambda>d. d) (run_body ?body 0) sample_threads =
      put_shared_queue \<lparr>callbacks = [(0, 9)], single_shots = [], sshots_called = True\<rparr>
        (?u\<lparr>queue_events := queue_events ?u @ [Ran 0 8]\<rparr>)"
    by (simp add: call_queue_def run_entries_def)
  with steps show ?thesis by (auto simp: put_shared_queue_def)
qed

text \<open>
  C29: at most one thread runs single shots. In every reachable state a thread is in the loop over
  the single shots if and only if it owns their mutex, and then in one such loop only.
\<close>

theorem one_thread_runs_single_shots:
  assumes "threads_reachable body prog s"
  shows "length (filter runs_shots (stacks s t)) = (if shots_owner s = Some t then 1 else 0)"
  using threads_reachable_inv [OF assms] unfolding lock_inv_def by blast

lemma one_thread_runs_single_shots_witness:
  "length (filter runs_shots (stacks (threads_init (\<lambda>_. [Op_call])) 3)) = 0"
  using one_thread_runs_single_shots [OF threads_start [of "\<lambda>_. []" "\<lambda>_. [Op_call]"], of 3]
  by (simp add: threads_init_def)

text \<open>
  Removing a callback does not wait for it. \<open>call\<close> works on a copy, so another thread can
  remove a callback, be told it is gone, and destroy what it uses, and the callback still runs.
\<close>

theorem removed_callback_still_runs:
  "\<exists>s. threads_reachable (\<lambda>_. []) ((\<lambda>_. [])(0 := [Op_add 7], 1 := [Op_remove 0], 2 := [Op_call])) s
     \<and> queue_events s = [Added 0 0, Removed 1 0 True, Ran 2 7]"
proof -
  let ?prog = "(\<lambda>_. [])(0 := [Op_add 7], 1 := [Op_remove 0], 2 := [Op_call])"
  let ?reach = "threads_reachable (\<lambda>_. []) ?prog"
  let ?a = "log_event (Added 0 0) (set_stack 0 [] ((threads_init ?prog)\<lparr>shared_queue :=
      empty_queue\<lparr>callbacks := [(0, 7)]\<rparr>\<rparr>))"
  let ?b = "set_stack 2 [Run_copied [(0, 7)], Take_shots] ?a"
  let ?c = "log_event (Removed 1 0 True) (set_stack 1 [] (?b\<lparr>shared_queue := empty_queue\<rparr>))"
  let ?d = "log_event (Ran 2 7) (set_stack 2 [Run_copied [], Take_shots] ?c)"
  have "thread_step (\<lambda>_. []) 0 (threads_init ?prog) ?a"
    by (rule thread_add [where f = 7])
      (simp_all add: threads_init_def add_callback_def add_entry_def free_id_start empty_queue_def)
  then have "?reach ?a" using threads_start threads_next by blast
  moreover have "thread_step (\<lambda>_. []) 2 ?a ?b"
    by (rule thread_call) (simp_all add: threads_init_def)
  ultimately have "?reach ?b" using threads_next by blast
  moreover have "thread_step (\<lambda>_. []) 1 ?b ?c"
    by (rule thread_remove [where i = 0]) (simp_all add: threads_init_def remove_callback_def empty_queue_def)
  ultimately have "?reach ?c" using threads_next by blast
  moreover have "thread_step (\<lambda>_. []) 2 ?c ?d"
    using thread_run [of ?c 2 0 7 "[]" "[Take_shots]" "\<lambda>_. []"] by simp
  ultimately have "?reach ?d" using threads_next by blast
  then show ?thesis by (rule exI [of _ ?d, OF conjI]) (simp add: threads_init_def)
qed

text \<open>
  C33: waiting for the next call inside a callback is in vain. If no other thread calls the queue,
  a thread that registers a single shot, from a callback of its own call for instance, gets
  nothing but the timeout, whatever the other threads do in the meantime.
\<close>

theorem waiting_in_a_callback_times_out:
  assumes "stacks s0 t = Do (Op_next f) # ts" and "only_caller t s0" and "thread_step body t s0 s1"
    and "(\<lambda>a b. \<exists>u. u \<noteq> t \<and> thread_step body u a b)\<^sup>*\<^sup>* s1 s" and "thread_step body t s s'"
  shows "s' = log_event (Next_returned t False) (set_stack t ts s)"
proof -
  have "stacks s1 t = Wait # ts" "\<not> sshots_called (shared_queue s1)" "only_caller t s1"
    using assms(3,1,2)
    by (cases; auto dest!: register_single_shot_SomeD simp: only_caller_def)+
  with assms(4) have "stacks s t = Wait # ts \<and> \<not> sshots_called (shared_queue s) \<and> only_caller t s"
    by (induction rule: rtranclp_induct) (auto dest: client_step)
  with assms(5) show ?thesis by (cases rule: thread_step.cases) auto
qed

text \<open>A thread whose callback waits for the next call, and another that adds a callback meanwhile.\<close>

definition waiting_threads :: thread_state where
  "waiting_threads = \<lparr>shared_queue = \<lparr>callbacks = [(0, 7)], single_shots = [], sshots_called = True\<rparr>,
     shots_owner = None,
     stacks = (\<lambda>_. [])(0 := [Do (Op_next 8), Run_copied [], Take_shots], 1 := [Do (Op_remove 0)]),
     queue_events = []\<rparr>"

lemma waiting_in_a_callback_times_out_witness:
  "\<exists>s1 s s'. thread_step (\<lambda>_. []) 0 waiting_threads s1 \<and> thread_step (\<lambda>_. []) 1 s1 s
     \<and> thread_step (\<lambda>_. []) 0 s s' \<and> queue_events s' = [Removed 1 0 True, Next_returned 0 False]"
proof -
  let ?step = "thread_step (\<lambda>_. [])"
  let ?s1 = "set_stack 0 [Wait, Run_copied [], Take_shots] (waiting_threads\<lparr>shared_queue :=
      \<lparr>callbacks = [(0, 7)], single_shots = [(0, 8)], sshots_called = False\<rparr>\<rparr>)"
  let ?s = "log_event (Removed 1 0 True) (set_stack 1 [] (?s1\<lparr>shared_queue :=
      \<lparr>callbacks = [], single_shots = [(0, 8)], sshots_called = False\<rparr>\<rparr>))"
  let ?t = "log_event (Next_returned 0 False) (set_stack 0 [Run_copied [], Take_shots] ?s)"
  have one: "?step 0 waiting_threads ?s1"
    by (rule thread_next [where f = 8])
      (simp_all add: waiting_threads_def register_single_shot_def add_entry_def free_id_start)
  have two: "?step 1 ?s1 ?s"
    by (rule thread_remove [where i = 0]) (simp_all add: waiting_threads_def remove_callback_def)
  have three: "?step 0 ?s ?t"
    by (rule thread_timeout) (simp_all add: waiting_threads_def)
  have "only_caller 0 waiting_threads" by (auto simp: only_caller_def waiting_threads_def)
  from waiting_in_a_callback_times_out [OF _ this one _ three] two have
    "?t = log_event (Next_returned 0 False) (set_stack 0 [Run_copied [], Take_shots] ?s)"
    by (auto simp: waiting_threads_def)
  with one two three show ?thesis
    by (intro exI conjI) (assumption, assumption, assumption, simp add: waiting_threads_def)
qed

text \<open>
  A single shot that registers a single shot ends the service of its queue. The thread that
  runs it blocks on the mutex it holds, for ever; from then on no single shot can be registered
  or run, and no thread that waits returns, not even when its time is over.
\<close>

definition shot_events :: "thread_state \<Rightarrow> queue_event list" where
  "shot_events s = filter (\<lambda>e. \<exists>t b. e = Next_returned t b) (queue_events s)"

theorem nested_single_shot_blocks_the_queue:
  assumes "threads_reachable body prog s" and "stacks s t = Do (Op_next f) # ts"
    and "shots_owner s = Some t" and "(any_step body)\<^sup>*\<^sup>* s s'"
  shows "stacks s' t = stacks s t \<and> shots_owner s' = Some t
     \<and> single_shots (shared_queue s') = single_shots (shared_queue s) \<and> shot_events s' = shot_events s"
  using assms(4)
proof (induction rule: rtranclp_induct)
  case (step a b)
  have inv: "lock_inv a"
    using threads_reachable_inv threads_reachable_steps step.hyps(1) assms(1) by blast
  obtain u where u: "thread_step body u a b" using step.hyps(2) by (auto simp: any_step_def)
  have "u \<noteq> t" using u step.IH assms(2) by (cases rule: thread_step.cases) auto
  then have "filter runs_shots (stacks a u) = []"
    using inv step.IH unfolding lock_inv_def by (metis length_0_conv option.inject)
  with u step.IH \<open>u \<noteq> t\<close> assms(2) show ?case
    by (cases rule: thread_step.cases)
      (auto simp: shot_events_def remove_callback_def dest!: add_callback_SomeD)
qed (simp add: assms(3))

lemma nested_single_shot_blocks_the_queue_witness:
  "\<exists>body prog s. threads_reachable body prog s \<and> stacks s 0 = [Wait]
     \<and> (\<forall>s'. (any_step body)\<^sup>*\<^sup>* s s' \<longrightarrow> stacks s' 1 = [Do (Op_next 9), Run_shots []] \<and> shot_events s' = [])"
proof -
  let ?body = "(\<lambda>_. [])(8 := [Op_next 9])" and ?prog = "(\<lambda>_. [])(0 := [Op_next 8], 1 := [Op_call])"
  let ?reach = "threads_reachable ?body ?prog"
  let ?a = "set_stack 0 [Wait] ((threads_init ?prog)\<lparr>shared_queue := empty_queue\<lparr>single_shots := [(0, 8)]\<rparr>\<rparr>)"
  let ?b = "set_stack 1 [Run_copied [], Take_shots] ?a"
  let ?c = "set_stack 1 [Take_shots] ?b"
  let ?d = "set_stack 1 [Run_shots [(0, 8)]] (?c\<lparr>shots_owner := Some 1\<rparr>)"
  let ?e = "log_event (Ran 1 8) (set_stack 1 [Do (Op_next 9), Run_shots []] ?d)"
  have "thread_step ?body 0 (threads_init ?prog) ?a"
    by (rule thread_next [where f = 8])
      (simp_all add: threads_init_def register_single_shot_def add_entry_def free_id_start empty_queue_def)
  then have "?reach ?a" using threads_start threads_next by blast
  moreover have "thread_step ?body 1 ?a ?b"
    by (rule thread_call) (simp_all add: threads_init_def empty_queue_def)
  ultimately have "?reach ?b" using threads_next by blast
  moreover have "thread_step ?body 1 ?b ?c" by (rule thread_copied_done) simp
  ultimately have "?reach ?c" using threads_next by blast
  moreover have "thread_step ?body 1 ?c ?d"
    by (rule thread_lock) (simp_all add: threads_init_def)
  ultimately have "?reach ?d" using threads_next by blast
  moreover have "thread_step ?body 1 ?d ?e"
    using thread_run_shot [of ?d 1 0 8 "[]" "[]" ?body] by simp
  ultimately have e: "?reach ?e" using threads_next by blast
  have props: "stacks ?e 1 = [Do (Op_next 9), Run_shots []]" "shots_owner ?e = Some 1" "shot_events ?e = []"
    "stacks ?e 0 = [Wait]"
    by (simp_all add: shot_events_def threads_init_def)
  have "stacks s' 1 = [Do (Op_next 9), Run_shots []] \<and> shot_events s' = []"
    if "(any_step ?body)\<^sup>*\<^sup>* ?e s'" for s'
    using nested_single_shot_blocks_the_queue [OF e props(1,2) that] props(1,3) by argo
  with e props(4) show ?thesis by blast
qed

end
