(* ===== verification/Message_Properties.thy ===== *)
theory Message_Properties
  imports Oculus_Message
begin

text \<open>
  What holds of messages, of the pings read from them, and of the comparison of
  configurations.
\<close>

section \<open>Samples\<close>

definition sample_fire :: OculusSimpleFireMessage where
  "sample_fire = default_ping_config
     \<lparr>fm_head := (fm_head default_ping_config)
        \<lparr>msgId := message_type_code messageSimplePingResult, payloadSize := 106 + 28\<rparr>\<rparr>"

text \<open>Two lines of four bytes of gain and two samples of five bytes, with an unknown size code.\<close>

definition sample_ping :: OculusSimplePingResult where
  "sample_ping =
     \<lparr>pr_fireMessage = sample_fire, pr_pingId = 1, pr_status = 0, pr_frequency = 0,
      pr_temperature = 0, pr_pressure = 0, pr_speeedOfSoundUsed = 0, pr_pingStartTime = 0,
      pr_dataSize = 9, pr_rangeResolution = 0, pr_nRanges = 2, pr_nBeams = 2,
      pr_imageOffset = 122, pr_imageSize = 28, pr_messageSize = 150\<rparr>"

definition sample_ping_message :: Message where
  "sample_ping_message =
     \<lparr>timestamp = 0, header = fm_head sample_fire, data = enc_ping sample_ping @ replicate 28 0\<rparr>"

lemma sample_ping_metadata: "metadata1 sample_ping_message = Inr sample_ping"
  by (simp add: metadata1_def sample_ping_message_def ping_codec.dec_enc)

section \<open>Messages\<close>

text \<open>
  \<open>Message::Create\<close> accepts the bytes of a message, a valid header and as many bytes as it
  announces, and gives back the header, the bytes and the stamp; bytes that follow do not
  matter.
\<close>

theorem message_of_its_bytes:
  assumes "header_valid h" and "unat (payloadSize h) = length p" and "length p + sizeof_header < 2 ^ 32"
  shows "Message_Create (word_of_nat (length p + sizeof_header)) (enc_header h @ p @ rest) t =
     Inr (Some \<lparr>timestamp = t, header = h, data = enc_header h @ p\<rparr>)"
proof -
  have "unat (word_of_nat (length p + sizeof_header) :: u32) = length p + sizeof_header"
    using assms(3) by (simp add: unat_of_nat del: of_nat_add)
  with assms(1,2) show ?thesis
    by (simp add: Message_Create_def header_codec.dec_enc sizeof_header_def del: of_nat_add)
qed

lemma message_of_its_bytes_witness:
  "Message_Create 18 (enc_header (zero_header\<lparr>oculusId := OCULUS_CHECK_ID, payloadSize := 2\<rparr>) @ [7, 9] @ []) 5 =
     Inr (Some \<lparr>timestamp = 5, header = zero_header\<lparr>oculusId := OCULUS_CHECK_ID, payloadSize := 2\<rparr>,
       data = enc_header (zero_header\<lparr>oculusId := OCULUS_CHECK_ID, payloadSize := 2\<rparr>) @ [7, 9]\<rparr>)"
  using message_of_its_bytes [of "zero_header\<lparr>oculusId := OCULUS_CHECK_ID, payloadSize := 2\<rparr>" "[7, 9]" "[]" 5]
  by (simp add: header_valid_def OCULUS_CHECK_ID_def sizeof_header_def)



section \<open>The image of a ping\<close>

text \<open>
  On a version 1 ping whose image is \<open>nRanges\<close> equal lines, each of \<open>nBeams\<close> samples of \<open>s\<close>
  bytes after four bytes of gain if gains are sent, \<open>sample_size\<close> is \<open>s\<close> even when the size code
  is unknown, and \<open>step\<close> times the number of lines is the size of the image.
\<close>

theorem unknown_sample_size_is_deduced:
  assumes "metadata1 m = Inr p" and "data_size_of (pr_dataSize p) = None"
    and "unat (pr_imageSize p) =
           unat (pr_nRanges p) * line_step (has_gains1 p) (unat (pr_nBeams p)) s"
    and "pr_nRanges p \<noteq> 0" and "pr_nBeams p \<noteq> 0" and "s < 256"
  shows "sample_size (PingWrapper1 m) = Some (Inr (word_of_nat s))
     \<and> (\<exists>st. step (PingWrapper1 m) = Some (Inr st)
        \<and> unat (pr_nRanges p) * unat st = unat (pr_imageSize p))"
proof -
  have size: "sample_size1 p = Inr (word_of_nat s)"
    using sample_size1_deduced assms(2-5) by blast
  let ?L = "line_step (has_gains1 p) (unat (pr_nBeams p)) s"
  have R: "0 < unat (pr_nRanges p)" using assms(4) by (simp add: unat_gt_0)
  have "?L \<le> unat (pr_imageSize p)" using assms(3) R by simp
  moreover have "unat (pr_imageSize p) < 2 ^ 32" using unsigned_less [of "pr_imageSize p"] by simp
  ultimately have "?L < 2 ^ 32" by (rule le_less_trans)
  then have L: "unat (word_of_nat ?L :: u32) = ?L"
    by (simp add: unat_of_nat del: of_nat_add of_nat_mult)
  have "unat (word_of_nat s :: u8) = s" using assms(6) by (simp add: unat_of_nat)
  then have "step (PingWrapper1 m) = Some (Inr (word_of_nat ?L))"
    using size assms(1)
    by (simp add: accessor_defs step_def line_step_def
        del: of_nat_add of_nat_mult)
  with L size assms(1,3) show ?thesis by (simp add: accessor_defs)
qed

lemma unknown_sample_size_is_deduced_witness:
  "sample_size (PingWrapper1 sample_ping_message) = Some (Inr 5)"
  using unknown_sample_size_is_deduced [OF sample_ping_metadata, of 5]
  by (simp add: sample_ping_def data_size_of_None line_step_def has_gains1_def sample_fire_def
      default_ping_config_def)

text \<open>
  C38: on a version 2 ping, \<open>has_gains\<close> and \<open>sample_size\<close> never return exactly when the size code is
  unknown and the image splits into \<open>nRanges\<close> equal lines: each calls the other.
\<close>

theorem version_2_accessors_hang_iff:
  "(sample_size2 p = None \<longleftrightarrow> gains_needed p) \<and> (has_gains2 p = None \<longleftrightarrow> gains_needed p)"
proof -
  have "sample_size2 p = None \<longleftrightarrow> gains_needed p"
    using sample_size2_returns [of p] sample_size2_stops [of p] by (cases "sample_size2 p") auto
  then show ?thesis by (simp add: has_gains2_def)
qed

section \<open>Configurations\<close>

lemma config_changed_commute: "config_changed a b = config_changed b a"
  unfolding config_changed_def
  by (simp only: differ_by_commute [of _ "fm_range a"] differ_by_commute [of _ "fm_gainPercent a"]
      differ_by_commute [of _ "fm_speedOfSound a"] differ_by_commute [of _ "fm_salinity a"]
      eq_commute [of "fm_masterMode a"] eq_commute [of "fm_pingRate a"]
      eq_commute [of "fm_networkSpeed a"] eq_commute [of "fm_gammaCorrection a"]
      eq_commute [of "fm_flags a"])

text \<open>
  Whether a configuration changed does not depend on the order of the two, a configuration
  does not differ from itself, even with NaNs, and the header plays no part.
\<close>

theorem config_changed_is_symmetric:
  "config_changed a b = config_changed b a \<and> \<not> config_changed a a
   \<and> config_changed (a\<lparr>fm_head := h\<rparr>) b = config_changed a b"
proof (intro conjI)
  show "config_changed (a\<lparr>fm_head := h\<rparr>) b = config_changed a b" by (simp add: config_changed_def)
qed (rule config_changed_commute, rule config_changed_self)

text \<open>
  A request for a ping whose range or gain is not a number, or whose speed of sound is not,
  is never confirmed, whatever the sonar answers.
\<close>

theorem nan_request_is_never_confirmed:
  assumes "fm_pingRate requested \<noteq> ping_rate_code pingRateStandby"
    and "dval (fm_range requested) = FNan \<or> dval (fm_gainPercent requested) = FNan
         \<or> dval (fm_speedOfSound requested) = FNan"
  shows "\<not> check_config_feedback requested feedback"
  using assms not_close_to_Nan by (auto simp: check_config_feedback_def fp_eq_sym)

lemma nan_request_is_never_confirmed_witness:
  "\<not> check_config_feedback (default_ping_config\<lparr>fm_range := 0x7FF8000000000000\<rparr>) sample_fire"
  using nan_request_is_never_confirmed [of "default_ping_config\<lparr>fm_range := 0x7FF8000000000000\<rparr>" sample_fire]
  by (simp add: default_config_fields fp_eval)

end
