(* ===== verification/Sonar_Client.thy ===== *)
theory Sonar_Client
  imports Oculus_Message Callback_Queue
begin

text \<open>
  The clock (\<open>include/oculus_driver/Clock.h\<close>), the status listener
  (\<open>src/StatusListener.cpp\<close>) and the network client (\<open>src/SonarClient.cpp\<close>). Every
  handler the io service runs is a function of the client state; what the sockets answer
  (bytes received, errors, bytes sent) and the time are arguments. The asynchronous operations
  a handler starts are kept in \<open>pending\<close>; the io service completes one of them by calling
  its handler. \<open>SonarClient\<close> is an extensible record because \<open>SonarDriver\<close> derives from it; the
  two virtual methods are arguments of the handlers that call them. \<open>Inl\<close> is an exception
  that leaves the handler and ends the thread of the io service.
\<close>

section \<open>The clock\<close>

text \<open>A clock is the time of its last reset, in nanoseconds; \<open>now<float>()\<close> is in seconds.\<close>

type_synonym clock = int

definition clock_now :: "int \<Rightarrow> clock \<Rightarrow> float" where
  "clock_now now t0 = f_div (f_of_int (now - t0)) (f_of_int 1000000000)"

text \<open>\<open>interval\<close> also starts a new interval.\<close>

definition clock_interval :: "int \<Rightarrow> clock \<Rightarrow> float \<times> clock" where
  "clock_interval now t0 = (clock_now now t0, now)"

definition longer_than :: "int \<Rightarrow> int \<Rightarrow> clock \<Rightarrow> bool" where
  "longer_than secs now t0 = fp_lt (fval (f_of_int secs)) (fval (clock_now now t0))"

section \<open>State\<close>

datatype ConnectionState = Initializing | Attempt | Connected | Lost

text \<open>The callbacks of the status listener: the client's own, and those of its users.\<close>

datatype status_callback = On_first_status | User_status nat

record StatusListener =
  sl_callbacks :: "status_callback callback_queue"
  sl_clock :: clock

text \<open>
  The operations the io service has under way. Sockets are numbered in the order they are
  made; a read names the socket it was started on.
\<close>

datatype async_op =
    Timer_wait
  | Status_receive
  | Async_connect nat
  | Read_header nat
  | Read_payload nat nat

record SonarClient =
  socket :: "nat option"
  sockets_made :: nat
  remote_ip :: u32
  sonarId :: u16
  connectionState :: ConnectionState
  clock :: clock
  statusListener :: StatusListener
  statusCallbackId :: callback_id
  message :: Message
  pending :: "async_op list"
  wire :: "byte list"
  handled :: "Message list"
  user_status :: "(nat \<times> OculusStatusMsg) list"

text \<open>
  The last three fields only record what the client does: the bytes it gave to its sockets, the
  messages it passed to \<open>handle_message\<close>, and the calls of its users' status callbacks.
\<close>

section \<open>Sockets\<close>

text \<open>
  \<open>socket_->send\<close> answers with a number of bytes, or throws. \<open>shutdown\<close> may report an error,
  after which the socket is kept; \<open>close\<close> may throw, which is caught.
\<close>

datatype send_outcome = Sent nat | Send_throws string

datatype shutdown_outcome = Shutdown_error | Shutdown_closed | Close_throws

definition is_valid :: "('a SonarClient_scheme) \<Rightarrow> OculusMessageHeader \<Rightarrow> bool" where
  "is_valid s hdr \<longleftrightarrow> oculusId hdr = OCULUS_CHECK_ID \<and> srcDeviceId hdr = sonarId s"

definition connected :: "('a SonarClient_scheme) \<Rightarrow> bool" where
  "connected s \<longleftrightarrow> connectionState s = Connected"

definition send ::
    "send_outcome \<Rightarrow> byte list \<Rightarrow> 'a SonarClient_scheme \<Rightarrow> 'a SonarClient_scheme \<times> nat result" where
  "send outcome buffer s =
     (if socket s = None \<or> \<not> connected s then (s, Inr 0)
      else case outcome of
        Sent n \<Rightarrow> (s\<lparr>wire := wire s @ take n buffer\<rparr>, Inr n)
      | Send_throws e \<Rightarrow> (s, Inl (Runtime_error e)))"

definition close_connection ::
    "shutdown_outcome \<Rightarrow> 'a SonarClient_scheme \<Rightarrow> 'a SonarClient_scheme" where
  "close_connection outcome s =
     (if socket s \<noteq> None then
        (case outcome of
           Shutdown_error \<Rightarrow> s
         | Shutdown_closed \<Rightarrow> s\<lparr>socket := None\<rparr>
         | Close_throws \<Rightarrow> s\<lparr>socket := None\<rparr>)
      else s)"

section \<open>The status listener\<close>

definition start_op :: "async_op \<Rightarrow> 'a SonarClient_scheme \<Rightarrow> 'a SonarClient_scheme" where
  "start_op op s = s\<lparr>pending := op # pending s\<rparr>"

definition finish_op :: "async_op \<Rightarrow> 'a SonarClient_scheme \<Rightarrow> 'a SonarClient_scheme" where
  "finish_op op s = s\<lparr>pending := remove1 op (pending s)\<rparr>"

definition get_one_message :: "'a SonarClient_scheme \<Rightarrow> 'a SonarClient_scheme" where
  "get_one_message s = start_op Status_receive s"

definition time_since_last_status :: "int \<Rightarrow> StatusListener \<Rightarrow> float" where
  "time_since_last_status now l = clock_now now (sl_clock l)"

definition listener_queue :: "'a SonarClient_scheme \<Rightarrow> status_callback callback_queue" where
  "listener_queue s = sl_callbacks (statusListener s)"

definition put_listener_queue ::
    "status_callback callback_queue \<Rightarrow> 'a SonarClient_scheme \<Rightarrow> 'a SonarClient_scheme" where
  "put_listener_queue q s = s\<lparr>statusListener := (statusListener s)\<lparr>sl_callbacks := q\<rparr>\<rparr>"

text \<open>
  \<open>StatusListener\<close>'s own methods; \<open>on_next_status\<close> up to the wait. \<open>None\<close>: no id is free.
\<close>

definition StatusListener_add_callback ::
    "status_callback \<Rightarrow> 'a SonarClient_scheme \<Rightarrow> ('a SonarClient_scheme \<times> callback_id) option" where
  "StatusListener_add_callback f s =
     map_option (\<lambda>(q, i). (put_listener_queue q s, i)) (add_callback (listener_queue s) f)"

definition StatusListener_remove_callback ::
    "callback_id \<Rightarrow> 'a SonarClient_scheme \<Rightarrow> 'a SonarClient_scheme \<times> bool" where
  "StatusListener_remove_callback i s =
     (let (q, removed) = remove_callback (listener_queue s) i in (put_listener_queue q s, removed))"

definition StatusListener_on_next_status ::
    "status_callback \<Rightarrow> 'a SonarClient_scheme \<Rightarrow> 'a SonarClient_scheme option" where
  "StatusListener_on_next_status f s =
     map_option (\<lambda>(q, i). put_listener_queue q s) (register_single_shot (listener_queue s) f)"

lemma listener_ops_put:
  "StatusListener_add_callback f s = Some (t, i)
   \<Longrightarrow> \<exists>q. add_callback (listener_queue s) f = Some (q, i) \<and> t = put_listener_queue q s"
  "StatusListener_remove_callback i s = (t, b)
   \<Longrightarrow> t = put_listener_queue (fst (remove_callback (listener_queue s) i)) s"
  "StatusListener_on_next_status f s = Some t
   \<Longrightarrow> \<exists>q j. register_single_shot (listener_queue s) f = Some (q, j) \<and> t = put_listener_queue q s"
  by (auto simp: StatusListener_add_callback_def StatusListener_remove_callback_def
      StatusListener_on_next_status_def split: prod.splits)

lemma StatusListener_remove_state [simp]:
  "fst (StatusListener_remove_callback i s) =
     put_listener_queue (fst (remove_callback (listener_queue s) i)) s"
  by (simp add: StatusListener_remove_callback_def split: prod.split)

section \<open>Connecting\<close>

text \<open>
  Registering a status callback does not return if every id is taken; the client's own
  callback is the only one it registers, so \<open>None\<close> is kept apart from the errors.
\<close>

definition reset_connection ::
    "shutdown_outcome \<Rightarrow> 'a SonarClient_scheme \<Rightarrow> 'a SonarClient_scheme option" where
  "reset_connection outcome s =
     (let s = close_connection outcome (s\<lparr>connectionState := Attempt\<rparr>)
      in case StatusListener_add_callback On_first_status s of
           None \<Rightarrow> None
         | Some (s, newId) \<Rightarrow> Some (s\<lparr>statusCallbackId := newId\<rparr>))"

definition on_first_status ::
    "OculusStatusMsg \<Rightarrow> 'a SonarClient_scheme \<Rightarrow> 'a SonarClient_scheme" where
  "on_first_status msg s =
     (let s = fst (StatusListener_remove_callback (statusCallbackId s) s);
          s = s\<lparr>sonarId := srcDeviceId (st_hdr msg), remote_ip := st_ipAddr msg\<rparr>;
          k = sockets_made s
      in start_op (Async_connect k) (s\<lparr>socket := Some k, sockets_made := Suc k\<rparr>))"

definition run_status_callback ::
    "OculusStatusMsg \<Rightarrow> status_callback \<Rightarrow> 'a SonarClient_scheme \<Rightarrow> 'a SonarClient_scheme" where
  "run_status_callback msg f s =
     (case f of
        On_first_status \<Rightarrow> on_first_status msg s
      | User_status n \<Rightarrow> s\<lparr>user_status := user_status s @ [(n, msg)]\<rparr>)"

text \<open>\<open>StatusListener::message_callback\<close>; the datagram is what the socket received.\<close>

definition status_message_callback ::
    "(status_callback callback_dict \<Rightarrow> status_callback callback_dict) \<Rightarrow> int \<Rightarrow> bool
     \<Rightarrow> byte list \<Rightarrow> 'a SonarClient_scheme \<Rightarrow> 'a SonarClient_scheme" where
  "status_message_callback order now err datagram s =
     (if err then get_one_message s
      else if length datagram \<noteq> sizeof_status then get_one_message s
      else case dec_status datagram of
        None \<Rightarrow> get_one_message s
      | Some msg \<Rightarrow>
          let s = s\<lparr>statusListener := (statusListener s)\<lparr>sl_clock := now\<rparr>\<rparr>
          in get_one_message
               (call_queue listener_queue put_listener_queue order (run_status_callback msg) s))"

text \<open>Two observers: the age of the last message, the stamp of the last header.\<close>

definition time_since_last_message :: "int \<Rightarrow> 'a SonarClient_scheme \<Rightarrow> float" where
  "time_since_last_message now s = clock_now now (clock s)"

definition last_header_stamp :: "'a SonarClient_scheme \<Rightarrow> u64" where
  "last_header_stamp s = timestamp (message s)"

section \<open>Receiving\<close>

definition initiate_receive :: "'a SonarClient_scheme \<Rightarrow> 'a SonarClient_scheme" where
  "initiate_receive s = (case socket s of None \<Rightarrow> s | Some k \<Rightarrow> start_op (Read_header k) s)"

text \<open>
  The bytes of a header read arrive in \<open>message_->header_\<close> (all sixteen, or the first ones),
  those of a payload read after the header in \<open>message_->data_\<close>.
\<close>

definition store_header :: "byte list \<Rightarrow> Message \<Rightarrow> Message" where
  "store_header bs m =
     (case dec_header (bs @ drop (length bs) (enc_header (header m))) of
        Some h \<Rightarrow> m\<lparr>header := h\<rparr>
      | None \<Rightarrow> m)"

definition store_payload :: "byte list \<Rightarrow> Message \<Rightarrow> Message" where
  "store_payload bs m =
     m\<lparr>data := take sizeof_header (data m) @ bs @ drop (sizeof_header + length bs) (data m)\<rparr>"

definition header_received_callback ::
    "int \<Rightarrow> byte list \<Rightarrow> 'a SonarClient_scheme \<Rightarrow> 'a SonarClient_scheme result" where
  "header_received_callback now bs s =
     (let s = s\<lparr>message := store_header bs (message s)\<rparr>
      in if length bs \<noteq> sizeof_header \<or> \<not> is_valid s (header (message s))
         then Inr (initiate_receive s)
         else
           let s = s\<lparr>message := update_from_header (word_of_int now) (message s)\<rparr>
           in case socket s of
                None \<Rightarrow> Inl Null_dereference
              | Some k \<Rightarrow> Inr (start_op (Read_payload k (unat (payload_size (message s)))) s))"

definition data_received_callback ::
    "(Message \<Rightarrow> 'a SonarClient_scheme \<Rightarrow> 'a SonarClient_scheme result) \<Rightarrow> int \<Rightarrow> byte list
     \<Rightarrow> 'a SonarClient_scheme \<Rightarrow> 'a SonarClient_scheme result" where
  "data_received_callback handle_message now bs s =
     (let s = s\<lparr>message := store_payload bs (message s)\<rparr>
      in if length bs \<noteq> unat (payloadSize (header (message s))) then Inr (initiate_receive s)
         else
           let s = s\<lparr>clock := now, handled := handled s @ [message s]\<rparr>
           in bindR (handle_message (message s) s) (\<lambda>s. Inr (initiate_receive s)))"

definition connect_callback ::
    "('a SonarClient_scheme \<Rightarrow> 'a SonarClient_scheme result) \<Rightarrow> int \<Rightarrow> bool
     \<Rightarrow> 'a SonarClient_scheme \<Rightarrow> 'a SonarClient_scheme result" where
  "connect_callback on_connect now err s =
     (if err then Inl (Runtime_error ''oculus::SonarClient : connection failure.'')
      else on_connect (initiate_receive (s\<lparr>clock := now, connectionState := Connected\<rparr>)))"

text \<open>The two virtual methods of \<open>SonarClient\<close> itself do nothing.\<close>

definition SonarClient_on_connect :: "'a SonarClient_scheme \<Rightarrow> 'a SonarClient_scheme result" where
  "SonarClient_on_connect s = Inr s"

definition SonarClient_handle_message :: "Message \<Rightarrow> 'a SonarClient_scheme \<Rightarrow> 'a SonarClient_scheme result" where
  "SonarClient_handle_message msg s = Inr s"

section \<open>The watchdog\<close>

definition checker_callback ::
    "int \<Rightarrow> shutdown_outcome \<Rightarrow> 'a SonarClient_scheme \<Rightarrow> 'a SonarClient_scheme option" where
  "checker_callback now outcome s =
     (let s = start_op Timer_wait s
      in if connectionState s = Initializing \<or> connectionState s = Attempt then Some s
         else if longer_than 5 now (sl_clock (statusListener s))
         then Some (s\<lparr>connectionState := Lost\<rparr>)
         else if longer_than 10 now (clock s) then reset_connection outcome s
         else Some s)"

section \<open>Construction\<close>

text \<open>
  \<open>SonarClient::SonarClient\<close>: the members, the first wait of the watchdog, the listener's first
  receive, then \<open>reset_connection\<close>.
\<close>

definition client_init :: "int \<Rightarrow> SonarClient" where
  "client_init now =
     \<lparr>socket = None, sockets_made = 0, remote_ip = 0, sonarId = 0,
      connectionState = Initializing, clock = now,
      statusListener = \<lparr>sl_callbacks = empty_queue, sl_clock = now\<rparr>, statusCallbackId = 0,
      message = new_message, pending = [Timer_wait, Status_receive], wire = [], handled = [],
      user_status = []\<rparr>"

text \<open>
  \<open>StatusListener::StatusListener\<close>: the socket is opened, which reports an error, and bound, which
  throws one. The client that is made has a listener for which both went well.
\<close>

definition StatusListener_construct :: "bool \<Rightarrow> string option \<Rightarrow> int \<Rightarrow> StatusListener result" where
  "StatusListener_construct open_err bind_failure now =
     (if open_err then Inl (Runtime_error ''oculus::StatusListener : Error opening socket'')
      else case bind_failure of
        Some e \<Rightarrow> Inl (Runtime_error e)
      | None \<Rightarrow> Inr \<lparr>sl_callbacks = empty_queue, sl_clock = now\<rparr>)"

lemma client_init_listener:
  "StatusListener_construct open_err bind_failure now = Inr l
   \<longleftrightarrow> \<not> open_err \<and> bind_failure = None \<and> l = statusListener (client_init now)"
  by (auto simp: StatusListener_construct_def client_init_def split: option.split)

definition SonarClient_construct :: "int \<Rightarrow> SonarClient option" where
  "SonarClient_construct now = reset_connection Shutdown_closed (client_init now)"

section \<open>The reception loop over a stream of bytes\<close>

text \<open>
  What the io service does with the bytes of a connection: complete the read under way as soon
  as its bytes are there. \<open>pump\<close> completes at most \<open>n\<close> reads and returns the bytes left.
\<close>

fun read_size :: "async_op \<Rightarrow> nat option" where
  "read_size (Read_header k) = Some sizeof_header"
| "read_size (Read_payload k n) = Some n"
| "read_size _ = None"

definition reads :: "'a SonarClient_scheme \<Rightarrow> async_op list" where
  "reads s = filter (\<lambda>op. read_size op \<noteq> None) (pending s)"

definition complete_read ::
    "(Message \<Rightarrow> 'a SonarClient_scheme \<Rightarrow> 'a SonarClient_scheme result) \<Rightarrow> int \<Rightarrow> async_op
     \<Rightarrow> byte list \<Rightarrow> 'a SonarClient_scheme \<Rightarrow> 'a SonarClient_scheme result" where
  "complete_read handle_message now op bs s =
     (case op of
        Read_header k \<Rightarrow> header_received_callback now bs (finish_op op s)
      | Read_payload k n \<Rightarrow> data_received_callback handle_message now bs (finish_op op s)
      | _ \<Rightarrow> Inr s)"

fun pump ::
    "(Message \<Rightarrow> 'a SonarClient_scheme \<Rightarrow> 'a SonarClient_scheme result) \<Rightarrow> int \<Rightarrow> nat
     \<Rightarrow> byte list \<Rightarrow> 'a SonarClient_scheme \<Rightarrow> (byte list \<times> 'a SonarClient_scheme) result" where
  "pump handle_message now 0 bs s = Inr (bs, s)"
| "pump handle_message now (Suc n) bs s =
     (case reads s of
        [] \<Rightarrow> Inr (bs, s)
      | op # _ \<Rightarrow>
          let n_bytes = the (read_size op)
          in if length bs < n_bytes then Inr (bs, s)
             else bindR (complete_read handle_message now op (take n_bytes bs) s)
                    (pump handle_message now n (drop n_bytes bs)))"

text \<open>What a sonar sends: messages, and blocks of sixteen bytes that are no valid header.\<close>

datatype chunk = Frame OculusMessageHeader "byte list" | Noise OculusMessageHeader

fun chunk_bytes :: "chunk \<Rightarrow> byte list" where
  "chunk_bytes (Frame h p) = enc_header h @ p"
| "chunk_bytes (Noise h) = enc_header h"

fun chunk_ok :: "u16 \<Rightarrow> chunk \<Rightarrow> bool" where
  "chunk_ok sonar (Frame h p) =
     (oculusId h = OCULUS_CHECK_ID \<and> srcDeviceId h = sonar \<and> unat (payloadSize h) = length p)"
| "chunk_ok sonar (Noise h) = (\<not> (oculusId h = OCULUS_CHECK_ID \<and> srcDeviceId h = sonar))"

definition frame_message :: "int \<Rightarrow> OculusMessageHeader \<Rightarrow> byte list \<Rightarrow> Message" where
  "frame_message now h p = \<lparr>timestamp = word_of_int now, header = h, data = enc_header h @ p\<rparr>"

fun chunk_messages :: "int \<Rightarrow> chunk list \<Rightarrow> Message list" where
  "chunk_messages now [] = []"
| "chunk_messages now (Frame h p # cs) = frame_message now h p # chunk_messages now cs"
| "chunk_messages now (Noise h # cs) = chunk_messages now cs"

fun chunk_reads :: "chunk list \<Rightarrow> nat" where
  "chunk_reads [] = 0"
| "chunk_reads (Frame h p # cs) = Suc (Suc (chunk_reads cs))"
| "chunk_reads (Noise h # cs) = Suc (chunk_reads cs)"

text \<open>
  What the reception makes of any bytes at all: a header of the sonar takes the payload it
  announces with it, anything else is dropped sixteen bytes at a time.
\<close>

function cut_stream :: "u16 \<Rightarrow> int \<Rightarrow> byte list \<Rightarrow> Message list \<times> byte list" where
  "cut_stream sonar now bs =
     (case dec_header bs of
        None \<Rightarrow> ([], bs)
      | Some h \<Rightarrow>
          let rest = drop sizeof_header bs; n = unat (payloadSize h)
          in if \<not> (oculusId h = OCULUS_CHECK_ID \<and> srcDeviceId h = sonar) then cut_stream sonar now rest
             else if length rest < n then ([], rest)
             else let (ms, r) = cut_stream sonar now (drop n rest)
                  in (frame_message now h (take n rest) # ms, r))"
  by pat_completeness auto
termination
  by (relation "measure (length \<circ> snd \<circ> snd)")
    (auto simp: sizeof_header_def dest: header_codec.dec_Some_length)

declare cut_stream.simps [simp del]

lemma cut_stream_wf: "m \<in> set (fst (cut_stream sonar now bs)) \<Longrightarrow> message_wf m"
proof (induction sonar now bs rule: cut_stream.induct)
  case (1 sonar now bs)
  show ?case
  proof (cases "dec_header bs")
    case None
    then show ?thesis using "1.prems" by (simp add: cut_stream.simps [of sonar now bs])
  next
    case (Some h)
    let ?rest = "drop sizeof_header bs" and ?n = "unat (payloadSize h)"
    have wf: "?n \<le> length ?rest \<Longrightarrow> message_wf (frame_message now h (take ?n ?rest))"
      by (simp add: message_wf_def frame_message_def header_codec.dec_enc sizeof_header_def)
    show ?thesis
      using "1.prems" "1.IH" [OF Some refl refl] Some wf
      by (subst (asm) cut_stream.simps) (auto simp: Let_def split: if_splits prod.splits)
  qed
qed

lemma reads_start:
  "reads (start_op op s) = (if read_size op \<noteq> None then op # reads s else reads s)"
  by (simp add: reads_def start_op_def)

lemma reads_finish: "reads (finish_op op s) = remove1 op (reads s)"
  by (simp add: reads_def finish_op_def filter_remove1)

lemma store_header_full: "store_header (enc_header h) m = m\<lparr>header := h\<rparr>"
  by (simp add: store_header_def header_codec.dec_enc_alone)

lemma store_payload_full:
  assumes "length p = unat (payloadSize (header m))"
  shows "store_payload p (update_from_header t m) =
     \<lparr>timestamp = t, header = header m, data = enc_header (header m) @ p\<rparr>"
  using assms by (simp add: store_payload_def update_from_header_def Let_def sizeof_header_def)

lemma header_received_noise:
  assumes "\<not> is_valid s h" and "socket s = Some k"
  shows "header_received_callback now (enc_header h) s =
     Inr (start_op (Read_header k) (s\<lparr>message := (message s)\<lparr>header := h\<rparr>\<rparr>))"
  using assms by (simp add: header_received_callback_def store_header_full is_valid_def
      initiate_receive_def sizeof_header_def)

lemma header_received_valid:
  assumes "is_valid s h" and "socket s = Some k"
  shows "header_received_callback now (enc_header h) s =
     Inr (start_op (Read_payload k (unat (payloadSize h)))
       (s\<lparr>message := update_from_header (word_of_int now) ((message s)\<lparr>header := h\<rparr>)\<rparr>))"
  using assms by (simp add: header_received_callback_def store_header_full is_valid_def
      sizeof_header_def payload_size_def update_from_header_fields)

text \<open>
  What the client asks of \<open>handle_message\<close>: on the messages it accepts it returns, and leaves
  the reception state alone. \<open>obs\<close> is a part of the state that only the handler changes, by
  \<open>note\<close>, and the reception does not touch.
\<close>

locale message_handler =
  fixes handle :: "Message \<Rightarrow> 'a SonarClient_scheme \<Rightarrow> 'a SonarClient_scheme result"
    and accepts :: "Message \<Rightarrow> bool"
    and obs :: "'a SonarClient_scheme \<Rightarrow> 'o"
    and note_message :: "Message \<Rightarrow> 'o \<Rightarrow> 'o"
  assumes handles: "accepts m \<Longrightarrow> \<exists>s'. handle m s = Inr s' \<and> socket s' = socket s
    \<and> sonarId s' = sonarId s \<and> pending s' = pending s \<and> handled s' = handled s \<and> message s' = message s"
    and handle_obs: "handle m s = Inr s' \<Longrightarrow> obs s' = note_message m (obs s)"
    and obs_pending: "obs (s\<lparr>pending := ops\<rparr>) = obs s"
    and obs_message: "obs (s\<lparr>message := m\<rparr>) = obs s"
    and obs_received: "obs (s\<lparr>clock := t, handled := ms\<rparr>) = obs s"
begin

lemma obs_ops [simp]:
  "obs (start_op op s) = obs s" "obs (finish_op op s) = obs s"
  by (simp_all add: start_op_def finish_op_def obs_pending)

text \<open>The reads of a block that is no header, and of a message.\<close>

lemma noise_read:
  assumes "reads s = [Read_header k]" and "socket s = Some k" and "chunk_ok (sonarId s) (Noise h)"
  shows "\<exists>s'. complete_read handle now (Read_header k) (enc_header h) s = Inr s'
     \<and> reads s' = [Read_header k] \<and> socket s' = Some k \<and> sonarId s' = sonarId s
     \<and> handled s' = handled s \<and> obs s' = obs s \<and> data (message s') = data (message s)"
proof -
  let ?s = "finish_op (Read_header k) s"
  have inv: "\<not> is_valid ?s h" and sock: "socket ?s = Some k"
    using assms by (simp_all add: is_valid_def finish_op_def)
  let ?t = "start_op (Read_header k) (?s\<lparr>message := (message ?s)\<lparr>header := h\<rparr>\<rparr>)"
  have "complete_read handle now (Read_header k) (enc_header h) s = Inr ?t"
    using header_received_noise [OF inv sock, of now] by (simp add: complete_read_def)
  moreover have "reads ?t = [Read_header k]"
    using assms(1) by (simp add: reads_def start_op_def finish_op_def filter_remove1 sizeof_header_def)
  ultimately show ?thesis
    using assms(2) by (intro exI [of _ ?t]) (simp add: obs_message, simp add: start_op_def finish_op_def)
qed

lemma frame_reads:
  assumes "reads s = [Read_header k]" and "socket s = Some k"
    and "chunk_ok (sonarId s) (Frame h p)" and "accepts (frame_message now h p)"
  shows "\<exists>t s'. complete_read handle now (Read_header k) (enc_header h) s = Inr t
     \<and> reads t = [Read_payload k (length p)]
     \<and> complete_read handle now (Read_payload k (length p)) p t = Inr s'
     \<and> reads s' = [Read_header k] \<and> socket s' = Some k \<and> sonarId s' = sonarId s
     \<and> handled s' = handled s @ [frame_message now h p]
     \<and> obs s' = note_message (frame_message now h p) (obs s) \<and> message s' = frame_message now h p"
proof -
  let ?s = "finish_op (Read_header k) s" and ?P = "Read_payload k (length p)"
  have valid: "is_valid ?s h" and sock: "socket ?s = Some k" and size: "unat (payloadSize h) = length p"
    using assms by (simp_all add: is_valid_def finish_op_def)
  let ?m = "update_from_header (word_of_int now) ((message ?s)\<lparr>header := h\<rparr>)"
  let ?t = "start_op ?P (?s\<lparr>message := ?m\<rparr>)"
  have one: "complete_read handle now (Read_header k) (enc_header h) s = Inr ?t"
    using header_received_valid [OF valid sock, of now] size by (simp add: complete_read_def)
  have rt: "reads ?t = [?P]"
    using assms(1) by (simp add: reads_def start_op_def finish_op_def filter_remove1 sizeof_header_def)
  let ?u = "(finish_op ?P ?t)\<lparr>message := frame_message now h p, clock := now,
      handled := handled s @ [frame_message now h p]\<rparr>"
  obtain v where v: "handle (frame_message now h p) ?u = Inr v"
    and keep: "socket v = Some k" "sonarId v = sonarId s" "reads v = reads (finish_op ?P ?t)"
      "handled v = handled s @ [frame_message now h p]" "message v = frame_message now h p"
    using handles [OF assms(4), of ?u] sock by (auto simp: reads_def start_op_def finish_op_def)
  have "?u = (finish_op ?P ?t)\<lparr>message := frame_message now h p\<rparr>
      \<lparr>clock := now, handled := handled s @ [frame_message now h p]\<rparr>" by simp
  then have "obs ?u = obs s" by (simp only: obs_received obs_message obs_ops)
  then have ov: "obs v = note_message (frame_message now h p) (obs s)" using handle_obs [OF v] by simp
  have sp: "store_payload p ?m = frame_message now h p"
    using size by (simp add: store_payload_full frame_message_def)
  have "data_received_callback handle now p (finish_op ?P ?t) = Inr (start_op (Read_header k) v)"
    using v keep(1) sp size
    by (simp add: data_received_callback_def Let_def initiate_receive_def start_op_def finish_op_def
        frame_message_def)
  then have "complete_read handle now ?P p ?t = Inr (start_op (Read_header k) v)" by (simp add: complete_read_def)
  with one rt keep ov show ?thesis
    by (intro exI [of _ ?t] exI [of _ "start_op (Read_header k) v"])
      (simp add: reads_start reads_finish, simp add: start_op_def)
qed

lemma pump_noise:
  assumes "reads s = [Read_header k]" and "socket s = Some k" and "chunk_ok (sonarId s) (Noise h)"
  shows "\<exists>s'. pump handle now (Suc n) (enc_header h @ bs) s = pump handle now n bs s'
     \<and> reads s' = [Read_header k] \<and> socket s' = Some k \<and> sonarId s' = sonarId s
     \<and> handled s' = handled s \<and> obs s' = obs s"
proof -
  obtain s' where s': "complete_read handle now (Read_header k) (enc_header h) s = Inr s'"
    "reads s' = [Read_header k] \<and> socket s' = Some k \<and> sonarId s' = sonarId s
     \<and> handled s' = handled s \<and> obs s' = obs s"
    using noise_read [OF assms] by blast
  have "pump handle now (Suc n) (enc_header h @ bs) s = pump handle now n bs s'"
    using assms(1) s'(1) by (simp add: sizeof_header_def Let_def)
  with s'(2) show ?thesis by blast
qed

lemma pump_frame:
  assumes "reads s = [Read_header k]" and "socket s = Some k"
    and "chunk_ok (sonarId s) (Frame h p)" and "accepts (frame_message now h p)"
  shows "\<exists>s'. pump handle now (Suc (Suc n)) (enc_header h @ p @ bs) s = pump handle now n bs s'
     \<and> reads s' = [Read_header k] \<and> socket s' = Some k \<and> sonarId s' = sonarId s
     \<and> handled s' = handled s @ [frame_message now h p]
     \<and> obs s' = note_message (frame_message now h p) (obs s)"
proof -
  obtain t s' where one: "complete_read handle now (Read_header k) (enc_header h) s = Inr t"
    and rt: "reads t = [Read_payload k (length p)]"
    and two: "complete_read handle now (Read_payload k (length p)) p t = Inr s'"
    and s': "reads s' = [Read_header k] \<and> socket s' = Some k \<and> sonarId s' = sonarId s
     \<and> handled s' = handled s @ [frame_message now h p]
     \<and> obs s' = note_message (frame_message now h p) (obs s)"
    using frame_reads [OF assms] by blast
  have "pump handle now (Suc (Suc n)) (enc_header h @ p @ bs) s = pump handle now (Suc n) (p @ bs) t"
    unfolding pump.simps(2) [of handle now "Suc n"]
    using assms(1) one by (simp add: sizeof_header_def Let_def del: pump.simps)
  also have "\<dots> = pump handle now n bs s'" using rt two by (simp add: Let_def)
  finally show ?thesis using s' by blast
qed

lemma pump_chunks:
  assumes "reads s = [Read_header k]" and "socket s = Some k"
    and "\<forall>c \<in> set cs. chunk_ok (sonarId s) c" and "\<forall>m \<in> set (chunk_messages now cs). accepts m"
  shows "\<exists>s'. pump handle now (chunk_reads cs) (concat (map chunk_bytes cs) @ rest) s = Inr (rest, s')
     \<and> reads s' = [Read_header k] \<and> socket s' = Some k \<and> sonarId s' = sonarId s
     \<and> handled s' = handled s @ chunk_messages now cs
     \<and> obs s' = fold note_message (chunk_messages now cs) (obs s)"
  using assms
proof (induction cs arbitrary: s)
  case Nil
  then show ?case by simp
next
  case (Cons c cs)
  show ?case
  proof (cases c)
    case (Frame h p)
    from pump_frame [of s k h p now "chunk_reads cs" "concat (map chunk_bytes cs) @ rest"]
    obtain s1 where one: "pump handle now (chunk_reads (c # cs)) (concat (map chunk_bytes (c # cs)) @ rest) s
        = pump handle now (chunk_reads cs) (concat (map chunk_bytes cs) @ rest) s1"
      and s1: "reads s1 = [Read_header k]" "socket s1 = Some k" "sonarId s1 = sonarId s"
        "handled s1 = handled s @ [frame_message now h p]"
        "obs s1 = note_message (frame_message now h p) (obs s)"
      using Cons.prems Frame by (auto simp del: pump.simps)
    then show ?thesis
      unfolding one using Cons.IH [of s1] Cons.prems Frame by auto
  next
    case (Noise h)
    from pump_noise [of s k h now "chunk_reads cs" "concat (map chunk_bytes cs) @ rest"]
    obtain s1 where one: "pump handle now (chunk_reads (c # cs)) (concat (map chunk_bytes (c # cs)) @ rest) s
        = pump handle now (chunk_reads cs) (concat (map chunk_bytes cs) @ rest) s1"
      and s1: "reads s1 = [Read_header k]" "socket s1 = Some k" "sonarId s1 = sonarId s"
        "handled s1 = handled s" "obs s1 = obs s"
      using Cons.prems Noise by (auto simp del: pump.simps)
    then show ?thesis
      unfolding one using Cons.IH [of s1] Cons.prems Noise by auto
  qed
qed

text \<open>The reception of any bytes, with a read for each of them at most.\<close>

lemma pump_waits:
  assumes "reads s = [op]" and "read_size op = Some k" and "length bs < k"
  shows "pump handle now n bs s = Inr (bs, s)"
  using assms by (cases n) simp_all

lemma pump_incomplete:
  assumes "reads s = [Read_header k]" and "socket s = Some k"
    and "is_valid s h" and "length bs < unat (payloadSize h)" and "0 < n"
  shows "\<exists>s'. pump handle now n (enc_header h @ bs) s = Inr (bs, s') \<and> handled s' = handled s
     \<and> obs s' = obs s"
proof -
  obtain n' where n: "n = Suc n'" using assms(5) gr0_conv_Suc by blast
  let ?s = "finish_op (Read_header k) s"
  have valid: "is_valid ?s h" and sock: "socket ?s = Some k"
    using assms(2,3) by (simp_all add: is_valid_def finish_op_def)
  let ?P = "Read_payload k (unat (payloadSize h))"
  let ?t = "start_op ?P (?s\<lparr>message := update_from_header (word_of_int now) ((message ?s)\<lparr>header := h\<rparr>)\<rparr>)"
  have "pump handle now n (enc_header h @ bs) s = pump handle now n' bs ?t"
    using assms(1) header_received_valid [OF valid sock, of now]
    by (simp add: n complete_read_def sizeof_header_def Let_def)
  moreover have "reads ?t = [?P]"
    using assms(1) by (simp add: reads_def start_op_def finish_op_def filter_remove1 sizeof_header_def)
  then have "pump handle now n' bs ?t = Inr (bs, ?t)"
    using assms(4) pump_waits [of ?t ?P "unat (payloadSize h)" bs now n'] by simp
  moreover have "handled ?t = handled s" by (simp add: start_op_def finish_op_def)
  ultimately show ?thesis by (auto simp: obs_message)
qed

lemma pump_cut:
  assumes "reads s = [Read_header k]" and "socket s = Some k" and "length bs \<le> n"
    and "\<forall>m \<in> set (fst (cut_stream (sonarId s) now bs)). accepts m"
  shows "\<exists>s'. pump handle now n bs s = Inr (snd (cut_stream (sonarId s) now bs), s')
     \<and> handled s' = handled s @ fst (cut_stream (sonarId s) now bs)
     \<and> obs s' = fold note_message (fst (cut_stream (sonarId s) now bs)) (obs s)"
  using assms
proof (induction "length bs" arbitrary: bs n s rule: less_induct)
  case less
  show ?case
  proof (cases "dec_header bs")
    case None
    then have "length bs < sizeof_header" by (simp add: header_codec.dec_None sizeof_header_def)
    with less.prems(1) None show ?thesis
      by (simp add: cut_stream.simps [of "sonarId s" now bs] pump_waits [of s "Read_header k" sizeof_header])
  next
    case (Some h)
    let ?rest = "drop 16 bs" and ?m = "unat (payloadSize h)"
    have bs: "bs = enc_header h @ ?rest" using header_codec.enc_dec [OF Some] by simp
    have len: "16 \<le> length bs" using header_codec.dec_Some_length [OF Some] .
    define n' where "n' = n - 2"
    have n: "n = Suc (Suc n')" "length ?rest \<le> n'" using len less.prems(3) by (simp_all add: n'_def)
    have valid: "chunk_ok (sonarId s) (Noise h) \<longleftrightarrow> \<not> is_valid s h" by (simp add: is_valid_def)
    show ?thesis
    proof (cases "is_valid s h")
      case False
      then have cut: "cut_stream (sonarId s) now bs = cut_stream (sonarId s) now ?rest"
        using Some by (simp add: cut_stream.simps [of "sonarId s" now bs] is_valid_def sizeof_header_def)
      obtain s1 where one: "pump handle now n bs s = pump handle now (Suc n') ?rest s1"
        and s1: "reads s1 = [Read_header k]" "socket s1 = Some k" "sonarId s1 = sonarId s"
          "handled s1 = handled s" "obs s1 = obs s"
        using pump_noise [OF less.prems(1,2), of h now "Suc n'" ?rest] False valid bs n(1) by metis
      have "length ?rest < length bs" "length ?rest \<le> Suc n'" using len n(2) by simp_all
      from less.hyps [OF this(1) s1(1,2) this(2)] show ?thesis
        using less.prems(4) unfolding one cut s1(3-5) by blast
    next
      case vh: True
      show ?thesis
      proof (cases "length ?rest < ?m")
        case True
        then have "cut_stream (sonarId s) now bs = ([], ?rest)"
          using Some vh by (simp add: cut_stream.simps [of "sonarId s" now bs] is_valid_def sizeof_header_def)
        then show ?thesis
          using pump_incomplete [OF less.prems(1,2) vh True, of n now] n(1) bs by simp
      next
        case False
        let ?p = "take ?m ?rest" and ?r = "drop ?m ?rest"
        have cut: "cut_stream (sonarId s) now bs =
            (frame_message now h ?p # fst (cut_stream (sonarId s) now ?r), snd (cut_stream (sonarId s) now ?r))"
          using Some vh False
          by (simp add: cut_stream.simps [of "sonarId s" now bs] is_valid_def sizeof_header_def Let_def split_beta)
        have ok: "chunk_ok (sonarId s) (Frame h ?p)" "accepts (frame_message now h ?p)"
          using vh False less.prems(4) cut by (simp_all add: is_valid_def)
        obtain s1 where one: "pump handle now n bs s = pump handle now n' ?r s1"
          and s1: "reads s1 = [Read_header k]" "socket s1 = Some k" "sonarId s1 = sonarId s"
            "handled s1 = handled s @ [frame_message now h ?p]"
            "obs s1 = note_message (frame_message now h ?p) (obs s)"
          using pump_frame [OF less.prems(1,2) ok, of n' ?r] bs n(1) by (metis append_take_drop_id)
        have "length ?r < length bs" "length ?r \<le> n'" using len n(2) by simp_all
        from less.hyps [OF this(1) s1(1,2) this(2)] show ?thesis
          using less.prems(4) unfolding one cut s1(3-5) by auto
      qed
    qed
  qed
qed

end

interpretation base_receiver: message_handler SonarClient_handle_message "\<lambda>_. True" wire "\<lambda>_ w. w"
  by unfold_locales (simp_all add: SonarClient_handle_message_def)

end
