(* ===== verification/Sonar_Connection.thy ===== *)
theory Sonar_Connection
  imports Sonar_Client
begin

text \<open>
  The client as a state machine. \<open>io_step\<close> is one action of the program that touches a
  \<open>SonarClient\<close>: the io service completes an operation under way, with any outcome, or a
  user thread calls one of the public methods. \<open>client_inv\<close> is what every such action keeps.
  The virtual methods of the client are the parameters of the step; \<open>client_methods\<close> is
  their contract, which a class derived from \<open>SonarClient\<close> has to meet.
\<close>

section \<open>Actions\<close>

inductive io_step ::
    "(Message \<Rightarrow> 'a SonarClient_scheme \<Rightarrow> 'a SonarClient_scheme result)
     \<Rightarrow> ('a SonarClient_scheme \<Rightarrow> 'a SonarClient_scheme result)
     \<Rightarrow> 'a SonarClient_scheme \<Rightarrow> 'a SonarClient_scheme \<Rightarrow> bool"
  for handle on_connect where
  io_timer: "Timer_wait \<in> set (pending s)
     \<Longrightarrow> checker_callback now outcome (finish_op Timer_wait s) = Some t
     \<Longrightarrow> io_step handle on_connect s t"
| io_status: "Status_receive \<in> set (pending s) \<Longrightarrow> (\<And>d. mset (order d) = mset d)
     \<Longrightarrow> io_step handle on_connect s
           (status_message_callback order now err datagram (finish_op Status_receive s))"
| io_connect: "Async_connect k \<in> set (pending s)
     \<Longrightarrow> connect_callback on_connect now err (finish_op (Async_connect k) s) = Inr t
     \<Longrightarrow> io_step handle on_connect s t"
| io_header: "Read_header k \<in> set (pending s) \<Longrightarrow> length bs \<le> sizeof_header
     \<Longrightarrow> header_received_callback now bs (finish_op (Read_header k) s) = Inr t
     \<Longrightarrow> io_step handle on_connect s t"
| io_payload: "Read_payload k n \<in> set (pending s) \<Longrightarrow> length bs \<le> n
     \<Longrightarrow> data_received_callback handle now bs (finish_op (Read_payload k n) s) = Inr t
     \<Longrightarrow> io_step handle on_connect s t"
| user_add_status: "StatusListener_add_callback (User_status n) s = Some (t, i)
     \<Longrightarrow> io_step handle on_connect s t"
| user_remove_status: "queue_look (listener_queue s) i = Some (User_status n)
     \<Longrightarrow> StatusListener_remove_callback i s = (t, b) \<Longrightarrow> io_step handle on_connect s t"
| user_next_status: "StatusListener_on_next_status (User_status n) s = Some t
     \<Longrightarrow> io_step handle on_connect s t"
| user_send: "send outcome buffer s = (t, r) \<Longrightarrow> io_step handle on_connect s t"

inductive_cases io_step_cases: "io_step handle on_connect s t"

section \<open>The invariant\<close>

definition own_entries :: "'a SonarClient_scheme \<Rightarrow> status_callback callback_dict" where
  "own_entries s = filter (\<lambda>e. snd e = On_first_status) (callbacks (listener_queue s))"

definition connects :: "'a SonarClient_scheme \<Rightarrow> async_op list" where
  "connects s = filter (\<lambda>op. \<exists>k. op = Async_connect k) (pending s)"

text \<open>
  The watchdog and the status listener each have one operation under way. An attempt waits
  for one thing, a first status or a connection; otherwise neither is under way, and there is
  a socket.
\<close>

fun attempt_ok :: "ConnectionState \<Rightarrow> status_callback callback_dict \<Rightarrow> callback_id
    \<Rightarrow> async_op list \<Rightarrow> nat option \<Rightarrow> bool" where
  "attempt_ok Initializing own i conn sock = False"
| "attempt_ok Attempt own i conn sock =
     ((own = [(i, On_first_status)] \<and> conn = [])
      \<or> (own = [] \<and> (\<exists>k. conn = [Async_connect k] \<and> sock = Some k)))"
| "attempt_ok Connected own i conn sock = (own = [] \<and> conn = [] \<and> sock \<noteq> None)"
| "attempt_ok Lost own i conn sock = (own = [] \<and> conn = [] \<and> sock \<noteq> None)"

definition attempt_inv :: "'a SonarClient_scheme \<Rightarrow> bool" where
  "attempt_inv s \<longleftrightarrow>
     attempt_ok (connectionState s) (own_entries s) (statusCallbackId s) (connects s) (socket s)"

definition listener_inv :: "'a SonarClient_scheme \<Rightarrow> bool" where
  "listener_inv s \<longleftrightarrow>
     queue_inv (listener_queue s) \<and> On_first_status \<notin> snd ` set (single_shots (listener_queue s))"

definition waits :: "'a SonarClient_scheme \<Rightarrow> nat \<times> nat" where
  "waits s = (count_list (pending s) Timer_wait, count_list (pending s) Status_receive)"

definition client_inv :: "'a SonarClient_scheme \<Rightarrow> bool" where
  "client_inv s \<longleftrightarrow> waits s = (1, 1) \<and> listener_inv s \<and> attempt_inv s"

text \<open>What the invariant looks at.\<close>

definition client_view :: "'a SonarClient_scheme \<Rightarrow>
    nat option \<times> ConnectionState \<times> status_callback callback_queue \<times> callback_id \<times> async_op list" where
  "client_view s =
     (socket s, connectionState s, listener_queue s, statusCallbackId s, pending s)"

lemmas client_inv_defs = client_inv_def attempt_inv_def listener_inv_def own_entries_def
  connects_def waits_def client_view_def listener_queue_def

lemma client_view_inv: "client_view s = client_view t \<Longrightarrow> client_inv s = client_inv t"
  by (simp add: client_inv_defs)

lemma client_view_parts:
  "client_view s = client_view t \<Longrightarrow> attempt_inv s = attempt_inv t"
  "client_view s = client_view t \<Longrightarrow> listener_inv s = listener_inv t"
  "client_view s = client_view t \<Longrightarrow> waits s = waits t"
  by (simp_all add: client_inv_defs)

text \<open>Operations on \<open>pending\<close> that concern only the reception.\<close>

definition is_read :: "async_op \<Rightarrow> bool" where
  "is_read op \<longleftrightarrow> read_size op \<noteq> None"

lemma is_read_simps [simp]:
  "is_read (Read_header k)" "is_read (Read_payload k n)"
  "\<not> is_read Timer_wait" "\<not> is_read Status_receive" "\<not> is_read (Async_connect k)"
  by (simp_all add: is_read_def)

lemma start_read_inv: "is_read op \<Longrightarrow> client_inv (start_op op s) = client_inv s"
  by (cases op) (auto simp: client_inv_defs start_op_def)

lemma count_list_remove1:
  "count_list (remove1 x xs) y = (if x = y then count_list xs y - 1 else count_list xs y)"
  by (induction xs) (auto simp: gr0_conv_Suc dest: count_notin)

lemma waits_finish: "waits (finish_op op s) =
   (if op = Timer_wait then (fst (waits s) - 1, snd (waits s))
    else if op = Status_receive then (fst (waits s), snd (waits s) - 1) else waits s)"
  by (simp add: waits_def finish_op_def count_list_remove1)

lemma waits_start: "waits (start_op op s) =
   (if op = Timer_wait then (fst (waits s) + 1, snd (waits s))
    else if op = Status_receive then (fst (waits s), snd (waits s) + 1) else waits s)"
  by (simp add: waits_def start_op_def)

lemma own_entries_ops [simp]:
  "own_entries (finish_op op s) = own_entries s" "own_entries (start_op op s) = own_entries s"
  by (simp_all add: own_entries_def finish_op_def start_op_def listener_queue_def)

lemma connects_finish: "connects (finish_op op s) = remove1 op (connects s)"
  by (simp add: connects_def finish_op_def filter_remove1)

lemma connects_start:
  "connects (start_op op s) = (if \<exists>k. op = Async_connect k then op # connects s else connects s)"
  by (simp add: connects_def start_op_def)

lemma finish_start_fields [simp]:
  "socket (finish_op op s) = socket s" "socket (start_op op s) = socket s"
  "connectionState (finish_op op s) = connectionState s"
  "connectionState (start_op op s) = connectionState s"
  "listener_queue (finish_op op s) = listener_queue s"
  "listener_queue (start_op op s) = listener_queue s"
  "statusCallbackId (finish_op op s) = statusCallbackId s"
  "statusCallbackId (start_op op s) = statusCallbackId s"
  by (simp_all add: finish_op_def start_op_def listener_queue_def)

lemma attempt_finish: "\<forall>k. op \<noteq> Async_connect k \<Longrightarrow> attempt_inv (finish_op op s) = attempt_inv s"
  by (simp add: attempt_inv_def connects_finish)
    (simp add: connects_def remove1_idem)

lemma attempt_start: "\<forall>k. op \<noteq> Async_connect k \<Longrightarrow> attempt_inv (start_op op s) = attempt_inv s"
  by (simp add: attempt_inv_def connects_start)

lemma listener_finish_start [simp]:
  "listener_inv (finish_op op s) = listener_inv s" "listener_inv (start_op op s) = listener_inv s"
  by (simp_all add: listener_inv_def)

lemma finish_read_inv: "is_read op \<Longrightarrow> client_inv (finish_op op s) = client_inv s"
  by (cases op) (auto simp: client_inv_def waits_finish attempt_finish)

lemma initiate_receive_inv: "client_inv (initiate_receive s) = client_inv s"
  by (simp add: initiate_receive_def start_read_inv split: option.split)

section \<open>The watchdog\<close>

lemma close_connection_fields:
  "connectionState (close_connection out s) = connectionState s"
  "listener_queue (close_connection out s) = listener_queue s"
  "pending (close_connection out s) = pending s"
  "statusCallbackId (close_connection out s) = statusCallbackId s"
  by (simp_all add: close_connection_def listener_queue_def split: shutdown_outcome.split)

lemma put_listener_fields [simp]:
  "listener_queue (put_listener_queue q s) = q" "pending (put_listener_queue q s) = pending s"
  "connectionState (put_listener_queue q s) = connectionState s"
  "socket (put_listener_queue q s) = socket s"
  "statusCallbackId (put_listener_queue q s) = statusCallbackId s"
  by (simp_all add: put_listener_queue_def listener_queue_def)

lemma reset_connection_parts:
  assumes "reset_connection out s = Some t"
    and "listener_inv s" and "own_entries s = []" and "connects s = []"
  shows "listener_inv t \<and> attempt_inv t \<and> waits t = waits s \<and> connectionState t = Attempt"
proof -
  let ?s = "close_connection out (s\<lparr>connectionState := Attempt\<rparr>)"
  have lq: "listener_queue ?s = listener_queue s"
    by (simp add: close_connection_fields, simp add: listener_queue_def)
  obtain q i where add: "add_callback (listener_queue s) On_first_status = Some (q, i)"
    and t: "t = (put_listener_queue q ?s)\<lparr>statusCallbackId := i\<rparr>"
    using assms(1) by (auto simp: reset_connection_def Let_def StatusListener_add_callback_def lq
        split: option.splits prod.splits)
  have q: "q = (listener_queue s)\<lparr>callbacks := callbacks (listener_queue s) @ [(i, On_first_status)]\<rparr>"
    using add_callback_SomeD [OF add] by blast
  have tq: "listener_queue t = q"
    by (simp add: t listener_queue_def put_listener_queue_def)
  have "queue_inv q" using assms(2) queue.add_inv add by (auto simp: listener_inv_def)
  then have "listener_inv t"
    using assms(2) by (simp add: listener_inv_def tq) (simp add: q)
  moreover have pend: "pending t = pending s"
    by (simp add: t close_connection_fields)
  moreover have "attempt_inv t"
    using assms(3,4) tq pend
    by (simp add: attempt_inv_def own_entries_def connects_def q)
      (simp add: t close_connection_fields)
  ultimately show ?thesis
    by (simp add: waits_def t close_connection_fields)
qed

lemma reset_registers:
  assumes "reset_connection out s = Some t"
  shows "own_entries t \<noteq> []"
proof -
  obtain q i u where "add_callback (listener_queue u) On_first_status = Some (q, i)"
    and t: "t = (put_listener_queue q u)\<lparr>statusCallbackId := i\<rparr>"
    using assms by (auto simp: reset_connection_def Let_def StatusListener_add_callback_def
        split: option.splits prod.splits)
  then have "(i, On_first_status) \<in> set (callbacks q)" using add_callback_SomeD by fastforce
  then show ?thesis
    by (auto simp: t own_entries_def listener_queue_def put_listener_queue_def filter_empty_conv intro!: bexI)
qed

lemma lost_fields:
  "own_entries (s\<lparr>connectionState := c\<rparr>) = own_entries s"
  "connects (s\<lparr>connectionState := c\<rparr>) = connects s"
  "waits (s\<lparr>connectionState := c\<rparr>) = waits s"
  "listener_inv (s\<lparr>connectionState := c\<rparr>) = listener_inv s"
  by (simp_all add: own_entries_def connects_def waits_def listener_inv_def listener_queue_def)

lemma checker_outcomes:
  assumes "checker_callback now out s = Some t"
  shows "t = start_op Timer_wait s
    \<or> (t = (start_op Timer_wait s)\<lparr>connectionState := Lost\<rparr>
        \<and> connectionState (start_op Timer_wait s) \<in> {Connected, Lost})
    \<or> (reset_connection out (start_op Timer_wait s) = Some t
        \<and> connectionState (start_op Timer_wait s) \<in> {Connected, Lost})"
proof (cases "connectionState s")
  case Connected
  then show ?thesis using assms unfolding checker_callback_def Let_def
    by (simp only: finish_start_fields) (metis ConnectionState.distinct insertI1 option.inject)
next
  case Lost
  then show ?thesis using assms unfolding checker_callback_def Let_def
    by (simp only: finish_start_fields) (metis ConnectionState.distinct insertI1 insertI2 option.inject)
qed (use assms in \<open>simp_all add: checker_callback_def\<close>)

lemma checker_inv:
  assumes "client_inv s" and "Timer_wait \<in> set (pending s)"
    and "checker_callback now out (finish_op Timer_wait s) = Some t"
  shows "client_inv t"
proof -
  let ?s = "start_op Timer_wait (finish_op Timer_wait s)"
  have inv: "client_inv ?s"
    using assms(1) by (simp add: client_inv_def waits_finish waits_start attempt_finish attempt_start)
  from assms(3) consider "t = ?s"
    | "t = ?s\<lparr>connectionState := Lost\<rparr>" "connectionState ?s \<in> {Connected, Lost}"
    | "reset_connection out ?s = Some t" "connectionState ?s \<in> {Connected, Lost}"
    using checker_outcomes by blast
  then show ?thesis
  proof cases
    case 1
    with inv show ?thesis by simp
  next
    case 2
    with inv have "attempt_ok (connectionState ?s) (own_entries ?s) (statusCallbackId ?s) (connects ?s) (socket ?s)"
      by (simp add: client_inv_def attempt_inv_def)
    with 2 inv show ?thesis
      by (cases "connectionState s")
        (simp_all add: client_inv_def attempt_inv_def lost_fields)
  next
    case 3
    with inv have "own_entries ?s = []" "connects ?s = []" "listener_inv ?s" "waits ?s = (1, 1)"
      by (auto simp: client_inv_def attempt_inv_def)
    with reset_connection_parts [OF 3(1)] show ?thesis by (simp add: client_inv_def)
  qed
qed

section \<open>A status message\<close>

text \<open>
  While the callbacks of a status run, \<open>rest\<close> are the ones still to come. The client's own
  one is either still to come or no longer registered.
\<close>

lemma run_user_statuses:
  assumes "On_first_status \<notin> snd ` set d"
  shows "client_view (run_entries (run_status_callback msg) d s) = client_view s"
  using assms
proof (induction d arbitrary: s)
  case Nil
  then show ?case by (simp add: run_entries_def)
next
  case (Cons e d)
  then obtain n where "snd e = User_status n" by (cases "snd e") (auto simp: image_iff)
  then have "client_view (run_status_callback msg (snd e) s) = client_view s"
    by (simp add: run_status_callback_def client_view_def listener_queue_def)
  with Cons show ?case by (simp add: run_entries_def)
qed

lemma on_first_status_parts:
  assumes "listener_inv s" and "attempt_inv s" and "own_entries s \<noteq> []"
  shows "listener_inv (on_first_status msg s) \<and> attempt_inv (on_first_status msg s)
    \<and> waits (on_first_status msg s) = waits s"
proof -
  have state: "connectionState s = Attempt" and con: "connects s = []"
    and own: "own_entries s = [(statusCallbackId s, On_first_status)]"
    using assms(2,3) by (cases "connectionState s"; simp add: attempt_inv_def; blast)+
  let ?q = "fst (remove_callback (listener_queue s) (statusCallbackId s))"
  let ?t = "on_first_status msg s"
  have q: "listener_queue ?t = ?q"
    by (simp add: on_first_status_def Let_def, simp add: listener_queue_def put_listener_queue_def)
  have "own_entries ?t = filter (\<lambda>e. fst e \<noteq> statusCallbackId s) (own_entries s)"
    by (simp add: own_entries_def q remove_callback_def conj_commute)
  then have "own_entries ?t = []" by (simp add: own)
  moreover have "connects ?t = [Async_connect (sockets_made s)]"
    using con by (simp add: on_first_status_def Let_def connects_start)
      (simp add: connects_def put_listener_queue_def)
  moreover have "connectionState ?t = Attempt" "socket ?t = Some (sockets_made s)"
    using state by (simp_all add: on_first_status_def Let_def put_listener_queue_def)
  moreover have "waits ?t = waits s"
    by (simp add: on_first_status_def Let_def waits_start, simp add: waits_def put_listener_queue_def)
  moreover have "listener_inv ?t"
    using assms(1) by (auto simp: listener_inv_def q remove_callback_def queue_inv_def
        distinct_filter_key)
  ultimately show ?thesis by (simp add: attempt_inv_def)
qed

lemma own_entries_mset:
  assumes "mset d = mset (callbacks (listener_queue s))"
  shows "mset (filter (\<lambda>e. snd e = On_first_status) d) = mset (own_entries s)"
  using assms by (simp add: own_entries_def)

lemma run_status_callbacks_parts:
  assumes "listener_inv s" and "attempt_inv s" and "mset d = mset (callbacks (listener_queue s))"
    and t_def: "t = run_entries (run_status_callback msg) d s"
  shows "listener_inv t \<and> attempt_inv t \<and> waits t = waits s"
proof (cases "own_entries s = []")
  case True
  with own_entries_mset [OF assms(3)] have "On_first_status \<notin> snd ` set d"
    by (force simp: filter_empty_conv)
  then have "client_view t = client_view s" by (simp add: t_def run_user_statuses)
  with assms(1,2) client_view_parts [of t s] show ?thesis by simp
next
  case False
  with assms(2) have "length (own_entries s) = 1"
    by (cases "connectionState s") (auto simp: attempt_inv_def)
  then have one: "length (filter (\<lambda>e. snd e = On_first_status) d) = 1"
    using own_entries_mset [OF assms(3)] by (metis size_mset)
  then obtain e where e: "e \<in> set d" "snd e = On_first_status"
    by (metis (mono_tags, lifting) filter_False list.size(3) zero_neq_one)
  then obtain d1 d2 where d: "d = d1 @ e # d2" by (meson split_list)
  with one e have rest: "On_first_status \<notin> snd ` set d1" "On_first_status \<notin> snd ` set d2"
    by (auto simp: filter_empty_conv)
  let ?u = "run_entries (run_status_callback msg) d1 s"
  have u: "client_view ?u = client_view s" using rest by (simp add: run_user_statuses)
  have "own_entries ?u = own_entries s" using u by (simp add: client_view_def own_entries_def)
  with False u assms(1,2) client_view_parts [OF u]
  have "listener_inv (on_first_status msg ?u) \<and> attempt_inv (on_first_status msg ?u)
    \<and> waits (on_first_status msg ?u) = waits s"
    using on_first_status_parts [of ?u] by simp
  moreover have "t = run_entries (run_status_callback msg) d2 (on_first_status msg ?u)"
    using e by (simp add: t_def d run_entries_def run_status_callback_def)
  ultimately show ?thesis
    using client_view_parts [OF run_user_statuses [OF rest(2)], of msg "on_first_status msg ?u"]
    by simp
qed

lemma put_cleared_shots:
  assumes "q = (listener_queue s)\<lparr>single_shots := [], sshots_called := True\<rparr>"
    and "listener_inv s" and "attempt_inv s"
  shows "listener_inv (put_listener_queue q s) \<and> attempt_inv (put_listener_queue q s)
    \<and> waits (put_listener_queue q s) = waits s"
  using assms by (simp add: listener_inv_def attempt_inv_def own_entries_def connects_def waits_def
      queue_inv_def)

lemma status_message_inv:
  assumes "client_inv s" and "\<And>d. mset (order d) = mset d"
  shows "client_inv (status_message_callback order now err datagram (finish_op Status_receive s))"
proof -
  let ?s = "finish_op Status_receive s"
  have inv: "waits ?s = (1, 0)" "listener_inv ?s" "attempt_inv ?s"
    using assms(1) by (auto simp: client_inv_def waits_finish attempt_finish)
  have resume: "client_inv (get_one_message u)"
    if "waits u = (1, 0)" "listener_inv u" "attempt_inv u" for u :: "'a SonarClient_scheme"
    using that by (simp add: get_one_message_def client_inv_def waits_start attempt_start)
  show ?thesis
  proof (cases "err \<or> length datagram \<noteq> sizeof_status \<or> dec_status datagram = None")
    case True
    with resume [OF inv] show ?thesis by (auto simp: status_message_callback_def)
  next
    case False
    then obtain msg where msg: "dec_status datagram = Some msg" by blast
    let ?c = "?s\<lparr>statusListener := (statusListener ?s)\<lparr>sl_clock := now\<rparr>\<rparr>"
    have v: "client_view ?c = client_view ?s" by (simp add: client_view_def listener_queue_def)
    let ?run = "run_entries (run_status_callback msg)"
    let ?u = "?run (order (callbacks (listener_queue ?c))) ?c"
    let ?v = "?run (order (single_shots (listener_queue ?u))) ?u"
    have u: "listener_inv ?u \<and> attempt_inv ?u \<and> waits ?u = (1, 0)"
      using run_status_callbacks_parts [OF _ _ assms(2) refl, of ?c] inv client_view_parts [OF v]
      by simp
    have "set (order (single_shots (listener_queue ?u))) = set (single_shots (listener_queue ?u))"
      using assms(2) mset_eq_setD by blast
    then have "client_view ?v = client_view ?u"
      using u by (intro run_user_statuses) (simp add: listener_inv_def)
    from client_view_parts [OF this] u have "listener_inv ?v \<and> attempt_inv ?v \<and> waits ?v = (1, 0)"
      by simp
    with put_cleared_shots [OF refl, of ?v] resume
    have "client_inv (get_one_message (call_queue listener_queue put_listener_queue order
        (run_status_callback msg) ?c))"
      by (simp add: call_queue_def Let_def)
    with False msg show ?thesis by (simp add: status_message_callback_def Let_def)
  qed
qed

section \<open>A header, and the calls of users\<close>

lemma header_inv:
  fixes s :: "'a SonarClient_scheme"
  assumes "client_inv s" and "header_received_callback now bs (finish_op (Read_header k) s) = Inr t"
  shows "client_inv t"
proof -
  have m: "client_inv (u\<lparr>message := x\<rparr>) = client_inv u" for u :: "'a SonarClient_scheme" and x
    by (rule client_view_inv) (simp add: client_view_def listener_queue_def)
  show ?thesis
    using assms(2) by (auto simp: header_received_callback_def Let_def initiate_receive_inv
        start_read_inv m finish_read_inv assms(1) split: if_splits option.splits)
qed

lemma add_status_inv:
  assumes "client_inv s" and "add_callback (listener_queue s) (User_status n) = Some (q, i)"
  shows "client_inv (put_listener_queue q s)"
proof -
  have q: "q = (listener_queue s)\<lparr>callbacks := callbacks (listener_queue s) @ [(i, User_status n)]\<rparr>"
    using add_callback_SomeD [OF assms(2)] by blast
  have "queue_inv q" using assms queue.add_inv by (auto simp: client_inv_def listener_inv_def)
  with assms(1) show ?thesis
    by (simp add: client_inv_def listener_inv_def attempt_inv_def own_entries_def connects_def
        waits_def) (simp add: q)
qed

lemma remove_status_own:
  assumes "listener_inv s" and "queue_look (listener_queue s) i = Some (User_status n)"
  shows "own_entries (put_listener_queue (fst (remove_callback (listener_queue s) i)) s) = own_entries s"
proof -
  let ?d = "callbacks (listener_queue s)"
  have dist: "distinct (map fst ?d)" using assms(1) by (simp add: listener_inv_def queue_inv_def)
  have "e \<in> set ?d \<Longrightarrow> snd e = On_first_status \<Longrightarrow> fst e \<noteq> i" for e
    using assms(2) map_of_is_SomeI [OF dist, of "fst e" "snd e"] unfolding queue_look_def
    by (metis option.inject prod.collapse status_callback.distinct(1))
  then have "filter (\<lambda>e. fst e \<noteq> i \<and> snd e = On_first_status) ?d = own_entries s"
    unfolding own_entries_def by (intro filter_cong) auto
  then show ?thesis by (simp add: own_entries_def remove_callback_def)
qed

lemma remove_status_inv:
  assumes "client_inv s" and "queue_look (listener_queue s) i = Some (User_status n)"
  shows "client_inv (put_listener_queue (fst (remove_callback (listener_queue s) i)) s)"
  using remove_status_own [OF _ assms(2)] assms(1)
  by (simp add: client_inv_def listener_inv_def attempt_inv_def connects_def waits_def
      remove_callback_def queue_inv_def distinct_filter_key)

lemma next_status_inv:
  assumes "client_inv s" and "register_single_shot (listener_queue s) (User_status n) = Some (q, i)"
  shows "client_inv (put_listener_queue q s)"
  using assms register_single_shot_SomeD [OF assms(2)]
  by (auto simp: client_inv_def listener_inv_def attempt_inv_def own_entries_def connects_def
      waits_def queue_inv_def)

lemma send_view: "send out buffer s = (t, r) \<Longrightarrow> client_view t = client_view s"
  by (auto simp: send_def client_view_def listener_queue_def split: if_splits send_outcome.splits)

section \<open>Transitions\<close>

text \<open>The transitions of \<open>connectionState_\<close>, and what each needs.\<close>

fun transition_ok :: "bool \<Rightarrow> bool \<Rightarrow> ConnectionState \<Rightarrow> ConnectionState \<Rightarrow> bool" where
  "transition_ok noStatus noMessage Attempt Connected = True"
| "transition_ok noStatus noMessage Connected Lost = noStatus"
| "transition_ok noStatus noMessage Connected Attempt = (\<not> noStatus \<and> noMessage)"
| "transition_ok noStatus noMessage Lost Attempt = (\<not> noStatus \<and> noMessage)"
| "transition_ok noStatus noMessage a b = (a = b)"

definition state_change :: "'a SonarClient_scheme \<Rightarrow> 'a SonarClient_scheme \<Rightarrow> bool" where
  "state_change s t \<longleftrightarrow>
     (\<exists>now. transition_ok (longer_than 5 now (sl_clock (statusListener s)))
        (longer_than 10 now (clock s)) (connectionState s) (connectionState t))"

lemma transition_ok_refl [simp]: "transition_ok a b c c"
  by (cases c) simp_all

lemma state_change_same: "connectionState t = connectionState s \<Longrightarrow> state_change s t"
  by (simp add: state_change_def)

lemma reset_connection_state: "reset_connection out s = Some t \<Longrightarrow> connectionState t = Attempt"
  by (auto simp: reset_connection_def Let_def close_connection_fields StatusListener_add_callback_def
      split: option.splits)

lemma checker_change:
  assumes "checker_callback now out (finish_op Timer_wait s) = Some t"
    and "connectionState s \<noteq> Initializing"
  shows "state_change s t"
proof -
  have clocks: "sl_clock (statusListener (start_op Timer_wait (finish_op Timer_wait s)))
      = sl_clock (statusListener s)" "clock (start_op Timer_wait (finish_op Timer_wait s)) = clock s"
    by (simp_all add: start_op_def finish_op_def)
  have "transition_ok (longer_than 5 now (sl_clock (statusListener s)))
        (longer_than 10 now (clock s)) (connectionState s) (connectionState t)"
  proof (cases "connectionState s")
    case Connected
    then show ?thesis using assms(1) clocks unfolding checker_callback_def Let_def
      by (auto simp: dest!: reset_connection_state split: if_split_asm)
  next
    case Lost
    then show ?thesis using assms(1) clocks unfolding checker_callback_def Let_def
      by (auto simp: dest!: reset_connection_state split: if_split_asm)
  qed (use assms in \<open>auto simp: checker_callback_def\<close>)
  then show ?thesis unfolding state_change_def by blast
qed

lemma run_status_state:
  "connectionState (run_entries (run_status_callback msg) d s) = connectionState s"
proof (induction d arbitrary: s)
  case (Cons e d)
  have "connectionState (run_status_callback msg (snd e) s) = connectionState s"
    by (simp add: run_status_callback_def on_first_status_def Let_def split: status_callback.split)
  with Cons show ?case by (simp add: run_entries_def)
qed (simp add: run_entries_def)

lemma status_message_state:
  "connectionState (status_message_callback order now err datagram s) = connectionState s"
  by (simp add: status_message_callback_def get_one_message_def call_queue_def Let_def
      run_status_state split: option.split)

lemma header_received_state:
  "header_received_callback now bs s = Inr t \<Longrightarrow> connectionState t = connectionState s"
  by (auto simp: header_received_callback_def Let_def initiate_receive_def
      split: if_splits option.splits)

section \<open>The virtual methods\<close>

locale client_methods =
  fixes handle :: "Message \<Rightarrow> 'a SonarClient_scheme \<Rightarrow> 'a SonarClient_scheme result"
    and on_connect :: "'a SonarClient_scheme \<Rightarrow> 'a SonarClient_scheme result"
  assumes handle_view: "handle m s = Inr t \<Longrightarrow> client_view t = client_view s"
    and connect_view: "on_connect s = Inr t \<Longrightarrow> client_view t = client_view s"
begin

lemma connect_inv:
  assumes "client_inv s" and "Async_connect k \<in> set (pending s)"
    and "connect_callback on_connect now err (finish_op (Async_connect k) s) = Inr t"
  shows "client_inv t \<and> connectionState t = Connected"
proof -
  have "Async_connect k \<in> set (connects s)" using assms(2) by (simp add: connects_def)
  with assms(1) have s: "own_entries s = []" "connects s = [Async_connect k]" "socket s = Some k"
    by (cases "connectionState s"; auto simp: client_inv_def attempt_inv_def)+
  let ?u = "(finish_op (Async_connect k) s)\<lparr>clock := now, connectionState := Connected\<rparr>"
  have "own_entries ?u = own_entries s" "connects ?u = []" "waits ?u = waits s"
    "listener_inv ?u = listener_inv s"
    using s(2) connects_finish [of "Async_connect k" s] waits_finish [of "Async_connect k" s]
    by (simp_all add: own_entries_def connects_def waits_def listener_inv_def listener_queue_def
        finish_op_def)
  with assms(1) s have "client_inv ?u" by (simp add: client_inv_def attempt_inv_def)
  then have inv: "client_inv (initiate_receive ?u)" by (simp add: initiate_receive_inv)
  have "client_view t = client_view (initiate_receive ?u)"
    using assms(3) connect_view by (simp add: connect_callback_def split: if_splits)
  moreover have "connectionState (initiate_receive ?u) = Connected"
    by (simp add: initiate_receive_def split: option.split)
  ultimately show ?thesis
    using inv client_view_inv [of t "initiate_receive ?u"] by (simp add: client_view_def)
qed

lemma payload_inv:
  assumes "client_inv s" and "data_received_callback handle now bs (finish_op (Read_payload k n) s) = Inr t"
  shows "client_inv t"
proof -
  have view: "client_view (u\<lparr>message := m\<rparr>) = client_view u"
    "client_view (u\<lparr>clock := c, handled := h\<rparr>) = client_view u" for u :: "'a SonarClient_scheme" and m c h
    by (simp_all add: client_view_def listener_queue_def)
  have inv: "client_inv (u\<lparr>message := m\<rparr>) = client_inv u"
    "client_inv (u\<lparr>clock := c, handled := h\<rparr>) = client_inv u" for u :: "'a SonarClient_scheme" and m c h
    by (rule client_view_inv, rule view)+
  from assms(2) show ?thesis
    by (auto simp: data_received_callback_def Let_def bindR_Inr_iff initiate_receive_inv inv
        finish_read_inv assms(1) dest!: handle_view client_view_inv split: if_splits)
qed

lemma connect_from:
  assumes "client_inv s" and "Async_connect k \<in> set (pending s)"
  shows "connectionState s = Attempt"
proof -
  have "connects s \<noteq> []" using assms(2) by (auto simp: connects_def filter_empty_conv)
  with assms(1) show ?thesis by (cases "connectionState s") (auto simp: client_inv_def attempt_inv_def)
qed

lemma io_step_inv:
  assumes "io_step handle on_connect s t" and "client_inv s"
  shows "client_inv t"
  using assms(1)
proof cases
  case io_timer
  with assms(2) checker_inv show ?thesis by blast
next
  case io_status
  with assms(2) status_message_inv show ?thesis by blast
next
  case io_connect
  with assms(2) connect_inv show ?thesis by blast
next
  case io_header
  with assms(2) header_inv show ?thesis by blast
next
  case io_payload
  with assms(2) payload_inv show ?thesis by blast
next
  case user_add_status
  with assms(2) add_status_inv listener_ops_put(1) show ?thesis by metis
next
  case user_remove_status
  with assms(2) remove_status_inv listener_ops_put(2) show ?thesis by metis
next
  case user_next_status
  with assms(2) next_status_inv listener_ops_put(3) show ?thesis by metis
next
  case user_send
  with assms(2) send_view client_view_inv show ?thesis by blast
qed

lemma data_received_state:
  "data_received_callback handle now bs s = Inr t \<Longrightarrow> connectionState t = connectionState s"
  by (auto simp: data_received_callback_def Let_def bindR_Inr_iff initiate_receive_def client_view_def
      dest!: handle_view split: if_splits option.splits)

lemma io_step_change:
  assumes "io_step handle on_connect s t" and "client_inv s"
  shows "state_change s t"
  using assms(1)
proof cases
  case io_timer
  moreover have "connectionState s \<noteq> Initializing"
    using assms(2) by (auto simp: client_inv_def attempt_inv_def)
  ultimately show ?thesis using checker_change by blast
next
  case (io_connect k now err)
  then have "connectionState s = Attempt" "connectionState t = Connected"
    using connect_from connect_inv assms(2) by blast+
  then show ?thesis by (simp add: state_change_def)
next
  case user_send
  then show ?thesis by (auto simp: client_view_def intro!: state_change_same dest!: send_view)
qed (auto intro!: state_change_same
      simp: status_message_state dest!: header_received_state data_received_state listener_ops_put)

end

lemma construct_inv: "SonarClient_construct now = Some s \<Longrightarrow> client_inv s"
proof -
  assume c: "SonarClient_construct now = Some s"
  have "listener_inv (client_init now)" "own_entries (client_init now) = []"
    "connects (client_init now) = []" "waits (client_init now) = (1, 1)"
    by (simp_all add: listener_inv_def own_entries_def connects_def waits_def client_init_def
        listener_queue_def empty_queue_def queue_inv_def)
  with c reset_connection_parts [of Shutdown_closed "client_init now" s] show ?thesis
    by (simp add: SonarClient_construct_def client_inv_def)
qed

text \<open>The client that nothing derives from.\<close>

interpretation base_client: client_methods SonarClient_handle_message SonarClient_on_connect
  by unfold_locales (simp_all add: SonarClient_handle_message_def SonarClient_on_connect_def)

end
