(* ===== verification/Sonar_Driver.thy ===== *)
theory Sonar_Driver
  imports Sonar_Connection
begin

text \<open>
  The sonar driver (\<open>src/SonarDriver.cpp\<close>): a \<open>SonarClient\<close> that keeps the configuration of
  the sonar, sends configurations, and dispatches the messages it receives to four callback
  queues. A user's callback is a number; what it is called with is recorded in \<open>events\<close>. The
  callback that \<open>current_ping_config\<close> registers writes to a variable of its caller: the live
  ones are \<open>frames\<close>, a write after the caller returned is recorded in \<open>dead_writes\<close>.
  \<open>Recorder_writer\<close> is the callback of an owner of the driver that records every message; what
  it does is the owner's (\<open>Python_Handle\<close>).
\<close>

section \<open>State\<close>

datatype driver_callback = User nat | Config_setter nat | Recorder_writer

datatype driver_event =
    On_message driver_callback Message
  | On_ping driver_callback "PingWrapper option"
  | On_dummy driver_callback OculusMessageHeader
  | On_config driver_callback OculusSimpleFireMessage OculusSimpleFireMessage

record SonarDriver = SonarClient +
  lastConfig :: OculusSimpleFireMessage
  lastPingRate :: u8
  messageCallbacks :: "driver_callback callback_queue"
  pingCallbacks :: "driver_callback callback_queue"
  dummyCallbacks :: "driver_callback callback_queue"
  configCallbacks :: "driver_callback callback_queue"
  events :: "driver_event list"
  frames :: "nat \<Rightarrow> OculusSimpleFireMessage option"
  frames_made :: nat
  dead_writes :: "nat list"

type_synonym driver_order = "driver_callback callback_dict \<Rightarrow> driver_callback callback_dict"

definition SonarDriver_construct :: "int \<Rightarrow> SonarDriver option" where
  "SonarDriver_construct now =
     map_option (\<lambda>c. SonarClient.extend c
       \<lparr>lastConfig = default_ping_config, lastPingRate = ping_rate_code pingRateNormal,
        messageCallbacks = empty_queue, pingCallbacks = empty_queue,
        dummyCallbacks = empty_queue, configCallbacks = empty_queue,
        events = [], frames = (\<lambda>_. None), frames_made = 0, dead_writes = []\<rparr>)
       (SonarClient_construct now)"

section \<open>Sending a configuration\<close>

definition fire_message :: "u16 \<Rightarrow> OculusSimpleFireMessage \<Rightarrow> OculusSimpleFireMessage" where
  "fire_message sonar config =
     config\<lparr>fm_head := (fm_head config)
       \<lparr>oculusId := OCULUS_CHECK_ID, msgId := message_type_code messageSimpleFire,
        srcDeviceId := 0, dstDeviceId := sonar,
        payloadSize := word_of_nat (sizeof_fire - sizeof_header)\<rparr>,
      fm_networkSpeed := 0xff\<rparr>"

definition send_ping_config ::
    "send_outcome \<Rightarrow> OculusSimpleFireMessage \<Rightarrow> 'a SonarDriver_scheme
     \<Rightarrow> 'a SonarDriver_scheme \<times> bool result" where
  "send_ping_config outcome config s =
     (case send outcome (enc_fire (fire_message (sonarId s) config)) s of
        (s, Inl e) \<Rightarrow> (s, Inl e)
      | (s, Inr bytesSent) \<Rightarrow>
          if bytesSent \<noteq> sizeof_fire then (s, Inr False)
          else
            let s = s\<lparr>lastConfig := (lastConfig s)\<lparr>fm_pingRate := fm_pingRate config\<rparr>\<rparr>
            in (if fm_pingRate (lastConfig s) \<noteq> ping_rate_code pingRateStandby
                then s\<lparr>lastPingRate := fm_pingRate (lastConfig s)\<rparr> else s, Inr True))"

definition standby ::
    "send_outcome \<Rightarrow> 'a SonarDriver_scheme \<Rightarrow> 'a SonarDriver_scheme \<times> bool result" where
  "standby outcome s =
     send_ping_config outcome
       ((lastConfig s)\<lparr>fm_pingRate := ping_rate_code pingRateStandby\<rparr>) s"

definition resume ::
    "send_outcome \<Rightarrow> 'a SonarDriver_scheme \<Rightarrow> 'a SonarDriver_scheme \<times> bool result" where
  "resume outcome s =
     send_ping_config outcome ((lastConfig s)\<lparr>fm_pingRate := lastPingRate s\<rparr>) s"

definition on_connect ::
    "send_outcome \<Rightarrow> 'a SonarDriver_scheme \<Rightarrow> 'a SonarDriver_scheme result" where
  "on_connect outcome s =
     (case send_ping_config outcome (lastConfig s) s of
        (s, Inl e) \<Rightarrow> Inl e
      | (s, Inr _) \<Rightarrow> Inr s)"

section \<open>Callbacks\<close>

definition emit :: "driver_event \<Rightarrow> 'a SonarDriver_scheme \<Rightarrow> 'a SonarDriver_scheme" where
  "emit e s = s\<lparr>events := events s @ [e]\<rparr>"

text \<open>The setter of \<open>current_ping_config\<close>: \<open>config = lastConfig_; config.head = ...\<close>.\<close>

definition run_message_callback ::
    "Message \<Rightarrow> driver_callback \<Rightarrow> 'a SonarDriver_scheme \<Rightarrow> 'a SonarDriver_scheme" where
  "run_message_callback m f s =
     (let s = emit (On_message f m) s
      in case f of
           User n \<Rightarrow> s
         | Recorder_writer \<Rightarrow> s
         | Config_setter k \<Rightarrow>
             (case frames s k of
                Some _ \<Rightarrow> s\<lparr>frames := (frames s)(k \<mapsto> (lastConfig s)\<lparr>fm_head := header m\<rparr>)\<rparr>
              | None \<Rightarrow> s\<lparr>dead_writes := dead_writes s @ [k]\<rparr>))"

definition put_messageCallbacks where
  "put_messageCallbacks q s = s\<lparr>messageCallbacks := q\<rparr>"

definition put_pingCallbacks where
  "put_pingCallbacks q s = s\<lparr>pingCallbacks := q\<rparr>"

definition put_dummyCallbacks where
  "put_dummyCallbacks q s = s\<lparr>dummyCallbacks := q\<rparr>"

definition put_configCallbacks where
  "put_configCallbacks q s = s\<lparr>configCallbacks := q\<rparr>"

section \<open>Messages\<close>

text \<open>
  \<open>handle_message\<close> first computes the new configuration. In master mode 2 the sonar answers
  with a gain between 40 and 100, which is mapped back to 0 to 100.
\<close>

definition rescale_gain :: "double \<Rightarrow> double" where
  "rescale_gain g = d_div (d_mul (d_sub g (d_of_int 40)) (d_of_int 100)) (d_of_int 60)"

definition new_config ::
    "Message \<Rightarrow> OculusSimpleFireMessage \<Rightarrow> OculusSimpleFireMessage result" where
  "new_config m prev =
     (if msgId (header m) = message_type_code messageSimplePingResult then
        (case dec_fire (data m) of
           None \<Rightarrow> Inl Out_of_bounds
         | Some fire \<Rightarrow>
             let c = fire\<lparr>fm_pingRate := fm_pingRate prev\<rparr>
             in Inr (if fm_masterMode c = 2
                     then c\<lparr>fm_gainPercent := rescale_gain (fm_gainPercent c)\<rparr> else c))
      else if msgId (header m) = message_type_code messageDummy then
        Inr (prev\<lparr>fm_pingRate := ping_rate_code pingRateStandby\<rparr>)
      else Inr prev)"

definition handle_message ::
    "driver_order \<Rightarrow> Message \<Rightarrow> 'a SonarDriver_scheme \<Rightarrow> 'a SonarDriver_scheme result" where
  "handle_message order m s =
     bindR (new_config m (lastConfig s)) (\<lambda>newConfig.
       let s = (if config_changed (lastConfig s) newConfig
                then call_queue configCallbacks put_configCallbacks order
                       (\<lambda>f s'. emit (On_config f (lastConfig s) newConfig) s') s
                else s);
           s = s\<lparr>lastConfig := newConfig\<rparr>;
           s = call_queue messageCallbacks put_messageCallbacks order (run_message_callback m) s
       in if msgId (header m) = message_type_code messageSimplePingResult then
            bindR (make_ping_wrapper (Some m)) (\<lambda>ping. Inr
              (call_queue pingCallbacks put_pingCallbacks order (\<lambda>f. emit (On_ping f ping)) s))
          else if msgId (header m) = message_type_code messageDummy then
            Inr (call_queue dummyCallbacks put_dummyCallbacks order
                   (\<lambda>f. emit (On_dummy f (header m))) s)
          else Inr s)"

fun handle_messages ::
    "driver_order \<Rightarrow> Message list \<Rightarrow> 'a SonarDriver_scheme \<Rightarrow> 'a SonarDriver_scheme result" where
  "handle_messages order [] s = Inr s"
| "handle_messages order (m # ms) s =
     bindR (handle_message order m s) (handle_messages order ms)"

section \<open>Asking for the configuration\<close>

text \<open>
  \<open>current_ping_config\<close> blocks in \<open>on_next_message\<close>. \<open>answer\<close> is the message the io service
  handles meanwhile, \<open>None\<close> if the wait times out. \<open>uninit\<close> is the indeterminate value of the
  local variable. \<open>None\<close> as result: the registration does not return.
\<close>

definition current_ping_config ::
    "driver_order \<Rightarrow> OculusSimpleFireMessage \<Rightarrow> Message option \<Rightarrow> 'a SonarDriver_scheme
     \<Rightarrow> ('a SonarDriver_scheme \<times> OculusSimpleFireMessage result) option" where
  "current_ping_config order uninit answer s =
     (let k = frames_made s in
      case register_single_shot (messageCallbacks s) (Config_setter k) of
        None \<Rightarrow> None
      | Some (q, _) \<Rightarrow>
          let s = s\<lparr>messageCallbacks := q, frames := (frames s)(k \<mapsto> uninit), frames_made := Suc k\<rparr>
          in case answer of
               None \<Rightarrow> Some (s\<lparr>frames := (frames s)(k := None)\<rparr>, Inl Timeout_reached)
             | Some m \<Rightarrow>
                 (case handle_message order m s of
                    Inl e \<Rightarrow> Some (s, Inl e)
                  | Inr s \<Rightarrow>
                      Some (s\<lparr>frames := (frames s)(k := None)\<rparr>, Inr (the (frames s k)))))"

text \<open>
  What happens during one iteration of the loop of \<open>request_ping_config\<close>: the outcome of the
  send, the messages handled before the wait starts, and what the wait sees.
\<close>

record attempt =
  at_send :: send_outcome
  at_before :: "Message list"
  at_answer :: "Message option"

definition maxCount :: nat where
  "maxCount = 100"

text \<open>
  One iteration of the loop: it leaves the function with an error or by \<open>break\<close>, or goes to
  the loop condition. \<open>Next n\<close> has run \<open>count++\<close> \<open>n\<close> times: the \<open>continue\<close> after a timeout skips
  it.
\<close>

datatype iteration = Throw cxx_error | Break OculusSimpleFireMessage | Next nat

definition request_iteration ::
    "driver_order \<Rightarrow> OculusSimpleFireMessage \<Rightarrow> OculusSimpleFireMessage \<Rightarrow> attempt
     \<Rightarrow> 'a SonarDriver_scheme \<Rightarrow> ('a SonarDriver_scheme \<times> iteration) option" where
  "request_iteration order uninit request a s =
     (case send_ping_config (at_send a) request s of
        (s, Inl e) \<Rightarrow> Some (s, Throw e)
      | (s, Inr sent) \<Rightarrow>
          if \<not> sent then Some (s, Next 1)
          else case handle_messages order (at_before a) s of
            Inl e \<Rightarrow> Some (s, Throw e)
          | Inr s \<Rightarrow>
              (case current_ping_config order uninit (at_answer a) s of
                 None \<Rightarrow> None
               | Some (s, Inl e) \<Rightarrow> Some (s, if e = Timeout_reached then Next 0 else Throw e)
               | Some (s, Inr feedback) \<Rightarrow>
                   Some (s, if check_config_feedback request feedback then Break feedback
                            else Next 1)))"

text \<open>The loop: \<open>Inr (Some feedback)\<close> is the \<open>break\<close>, \<open>Inr None\<close> the end of the loop.\<close>

partial_function (option) request_loop ::
    "driver_order \<Rightarrow> OculusSimpleFireMessage \<Rightarrow> OculusSimpleFireMessage \<Rightarrow> (nat \<Rightarrow> attempt)
     \<Rightarrow> nat \<Rightarrow> nat \<Rightarrow> 'a SonarDriver_scheme
     \<Rightarrow> ('a SonarDriver_scheme \<times> OculusSimpleFireMessage option result) option" where
  "request_loop order uninit request env i cnt s =
     Option.bind (request_iteration order uninit request (env i) s) (\<lambda>r.
       case snd r of
         Throw e \<Rightarrow> Some (fst r, Inl e)
       | Break feedback \<Rightarrow> Some (fst r, Inr (Some feedback))
       | Next n \<Rightarrow>
           if cnt + n < maxCount
           then request_loop order uninit request env (Suc i) (cnt + n) (fst r)
           else Some (fst r, Inr None))"

definition forced_request :: "OculusSimpleFireMessage \<Rightarrow> OculusSimpleFireMessage" where
  "forced_request request = request\<lparr>fm_flags := or (fm_flags request) 0x4\<rparr>"

definition request_ping_config ::
    "driver_order \<Rightarrow> OculusSimpleFireMessage \<Rightarrow> OculusSimpleFireMessage \<Rightarrow> (nat \<Rightarrow> attempt)
     \<Rightarrow> 'a SonarDriver_scheme \<Rightarrow> ('a SonarDriver_scheme \<times> OculusSimpleFireMessage result) option" where
  "request_ping_config order uninit request env s =
     (let request = forced_request request
      in case request_loop order uninit request env 0 0 s of
           None \<Rightarrow> None
         | Some (s, Inl e) \<Rightarrow> Some (s, Inl e)
         | Some (s, Inr (Some feedback)) \<Rightarrow> Some (s, Inr feedback)
         | Some (s, Inr None) \<Rightarrow>
             Some (s, Inr (request\<lparr>fm_head := (fm_head request)\<lparr>msgId := 0\<rparr>\<rparr>)))"

section \<open>The callback methods\<close>

definition add_message_callback where
  "add_message_callback f s = map_option (\<lambda>(q, i). (put_messageCallbacks q s, i))
     (add_callback (messageCallbacks s) f)"

definition add_ping_callback where
  "add_ping_callback f s = map_option (\<lambda>(q, i). (put_pingCallbacks q s, i))
     (add_callback (pingCallbacks s) f)"

definition add_dummy_callback where
  "add_dummy_callback f s = map_option (\<lambda>(q, i). (put_dummyCallbacks q s, i))
     (add_callback (dummyCallbacks s) f)"

definition add_config_callback where
  "add_config_callback f s = map_option (\<lambda>(q, i). (put_configCallbacks q s, i))
     (add_callback (configCallbacks s) f)"

definition add_status_callback ::
    "nat \<Rightarrow> 'a SonarDriver_scheme \<Rightarrow> ('a SonarDriver_scheme \<times> callback_id) option" where
  "add_status_callback n s = StatusListener_add_callback (User_status n) s"

definition remove_message_callback where
  "remove_message_callback i s =
     (let (q, removed) = remove_callback (messageCallbacks s) i in (put_messageCallbacks q s, removed))"

definition remove_ping_callback where
  "remove_ping_callback i s =
     (let (q, removed) = remove_callback (pingCallbacks s) i in (put_pingCallbacks q s, removed))"

definition remove_dummy_callback where
  "remove_dummy_callback i s =
     (let (q, removed) = remove_callback (dummyCallbacks s) i in (put_dummyCallbacks q s, removed))"

definition remove_status_callback ::
    "callback_id \<Rightarrow> 'a SonarDriver_scheme \<Rightarrow> 'a SonarDriver_scheme \<times> bool" where
  "remove_status_callback i s = StatusListener_remove_callback i s"

text \<open>
  The methods that wait for the next message, up to the wait; what they return is the protocol
  of \<open>Callback_Queue\<close>. \<open>wait_next_message\<close> registers a callback that does nothing, the number
  \<open>n\<close> only tells it apart.
\<close>

definition on_next_message where
  "on_next_message f s = map_option (\<lambda>(q, i). put_messageCallbacks q s)
     (register_single_shot (messageCallbacks s) f)"

definition wait_next_message where
  "wait_next_message n s = on_next_message (User n) s"

definition on_next_status ::
    "nat \<Rightarrow> 'a SonarDriver_scheme \<Rightarrow> 'a SonarDriver_scheme option" where
  "on_next_status n s = StatusListener_on_next_status (User_status n) s"

definition on_next_ping where
  "on_next_ping f s = map_option (\<lambda>(q, i). put_pingCallbacks q s)
     (register_single_shot (pingCallbacks s) f)"

definition on_next_dummy where
  "on_next_dummy f s = map_option (\<lambda>(q, i). put_dummyCallbacks q s)
     (register_single_shot (dummyCallbacks s) f)"

definition last_ping_config :: "'a SonarDriver_scheme \<Rightarrow> OculusSimpleFireMessage" where
  "last_ping_config s = lastConfig s"

section \<open>The callback queues of the driver\<close>

lemmas put_queue_defs = put_messageCallbacks_def put_pingCallbacks_def put_dummyCallbacks_def
  put_configCallbacks_def

abbreviation config_runner where
  "config_runner prev c \<equiv> \<lambda>f s. emit (On_config f prev c) s"

interpretation message_queue: steady_queue messageCallbacks put_messageCallbacks
  "run_message_callback m" for m
  by unfold_locales
    (simp_all add: put_messageCallbacks_def run_message_callback_def emit_def Let_def
      split: driver_callback.split option.split)

interpretation ping_queue: steady_queue pingCallbacks put_pingCallbacks "\<lambda>f. emit (On_ping f w)" for w
  by unfold_locales (simp_all add: put_pingCallbacks_def emit_def)

interpretation dummy_queue: steady_queue dummyCallbacks put_dummyCallbacks "\<lambda>f. emit (On_dummy f h)" for h
  by unfold_locales (simp_all add: put_dummyCallbacks_def emit_def)

interpretation config_queue: steady_queue configCallbacks put_configCallbacks "config_runner prev c"
  for prev c
  by unfold_locales (simp_all add: put_configCallbacks_def emit_def)

text \<open>
  The parts of the state that only the handlers outside the callbacks write: everything of the
  client, and the ping rate to resume.
\<close>

definition driver_view :: "'a SonarDriver_scheme \<Rightarrow>
    (nat option \<times> ConnectionState \<times> status_callback callback_queue \<times> callback_id \<times> async_op list)
    \<times> u16 \<times> Message list \<times> byte list \<times> u8 \<times> nat" where
  "driver_view s =
     (client_view s, sonarId s, handled s, wire s, lastPingRate s, frames_made s)"

lemma emit_keeps [simp]:
  "driver_view (emit e s) = driver_view s" "lastConfig (emit e s) = lastConfig s"
  "events (emit e s) = events s @ [e]" "frames (emit e s) = frames s"
  "dead_writes (emit e s) = dead_writes s"
  "messageCallbacks (emit e s) = messageCallbacks s" "pingCallbacks (emit e s) = pingCallbacks s"
  "dummyCallbacks (emit e s) = dummyCallbacks s" "configCallbacks (emit e s) = configCallbacks s"
  by (simp_all add: emit_def driver_view_def client_view_def listener_queue_def)

lemma puts_keep [simp]:
  "driver_view (put_messageCallbacks q s) = driver_view s"
  "driver_view (put_pingCallbacks q s) = driver_view s"
  "driver_view (put_dummyCallbacks q s) = driver_view s"
  "driver_view (put_configCallbacks q s) = driver_view s"
  "lastConfig (put_messageCallbacks q s) = lastConfig s"
  "lastConfig (put_pingCallbacks q s) = lastConfig s"
  "lastConfig (put_dummyCallbacks q s) = lastConfig s"
  "lastConfig (put_configCallbacks q s) = lastConfig s"
  "events (put_messageCallbacks q s) = events s" "events (put_pingCallbacks q s) = events s"
  "events (put_dummyCallbacks q s) = events s" "events (put_configCallbacks q s) = events s"
  "frames (put_messageCallbacks q s) = frames s" "frames (put_pingCallbacks q s) = frames s"
  "frames (put_dummyCallbacks q s) = frames s" "frames (put_configCallbacks q s) = frames s"
  "dead_writes (put_messageCallbacks q s) = dead_writes s"
  "dead_writes (put_pingCallbacks q s) = dead_writes s"
  "dead_writes (put_dummyCallbacks q s) = dead_writes s"
  "dead_writes (put_configCallbacks q s) = dead_writes s"
  by (simp_all add: put_queue_defs driver_view_def client_view_def listener_queue_def)

lemma other_queues_keep [simp]:
  "messageCallbacks (put_pingCallbacks q s) = messageCallbacks s"
  "messageCallbacks (put_dummyCallbacks q s) = messageCallbacks s"
  "messageCallbacks (put_configCallbacks q s) = messageCallbacks s"
  "configCallbacks (put_messageCallbacks q s) = configCallbacks s"
  "pingCallbacks (put_messageCallbacks q s) = pingCallbacks s"
  "pingCallbacks (put_configCallbacks q s) = pingCallbacks s"
  "dummyCallbacks (put_messageCallbacks q s) = dummyCallbacks s"
  "dummyCallbacks (put_configCallbacks q s) = dummyCallbacks s"
  by (simp_all add: put_queue_defs)

lemma run_message_keeps [simp]:
  "driver_view (run_message_callback m f s) = driver_view s"
  "lastConfig (run_message_callback m f s) = lastConfig s"
  "events (run_message_callback m f s) = events s @ [On_message f m]"
  "pingCallbacks (run_message_callback m f s) = pingCallbacks s"
  "dummyCallbacks (run_message_callback m f s) = dummyCallbacks s"
  "configCallbacks (run_message_callback m f s) = configCallbacks s"
  by (simp_all add: run_message_callback_def emit_def Let_def driver_view_def client_view_def
      listener_queue_def split: driver_callback.split option.split)

lemma set_config_keeps [simp]:
  "driver_view (s\<lparr>lastConfig := c\<rparr>) = driver_view s"
  by (simp add: driver_view_def client_view_def listener_queue_def)

text \<open>The steps of \<open>handle_message\<close>.\<close>

definition call_config where
  "call_config order c s =
     (if config_changed (lastConfig s) c
      then call_queue configCallbacks put_configCallbacks order (config_runner (lastConfig s) c) s
      else s)\<lparr>lastConfig := c\<rparr>"

definition call_messages where
  "call_messages order m s =
     call_queue messageCallbacks put_messageCallbacks order (run_message_callback m) s"

definition call_special where
  "call_special order m s =
     (if msgId (header m) = message_type_code messageSimplePingResult then
        bindR (make_ping_wrapper (Some m)) (\<lambda>ping. Inr
          (call_queue pingCallbacks put_pingCallbacks order (\<lambda>f. emit (On_ping f ping)) s))
      else if msgId (header m) = message_type_code messageDummy then
        Inr (call_queue dummyCallbacks put_dummyCallbacks order (\<lambda>f. emit (On_dummy f (header m))) s)
      else Inr s)"

lemma handle_message_steps:
  "handle_message order m s = bindR (new_config m (lastConfig s)) (\<lambda>c.
     call_special order m (call_messages order m (call_config order c s)))"
  by (simp add: handle_message_def call_special_def call_messages_def call_config_def Let_def
      cong: if_cong)

lemma call_config_keeps [simp]:
  "driver_view (call_config order c s) = driver_view s"
  "lastConfig (call_config order c s) = c"
  "frames (call_config order c s) = frames s"
  "dead_writes (call_config order c s) = dead_writes s"
  "messageCallbacks (call_config order c s) = messageCallbacks s"
  "pingCallbacks (call_config order c s) = pingCallbacks s"
  "dummyCallbacks (call_config order c s) = dummyCallbacks s"
  by (simp_all add: call_config_def call_queue_keep [of driver_view] call_queue_keep [of frames]
      call_queue_keep [of dead_writes] call_queue_keep [of messageCallbacks]
      call_queue_keep [of pingCallbacks] call_queue_keep [of dummyCallbacks])

lemma call_messages_keeps [simp]:
  "driver_view (call_messages order m s) = driver_view s"
  "lastConfig (call_messages order m s) = lastConfig s"
  "pingCallbacks (call_messages order m s) = pingCallbacks s"
  "dummyCallbacks (call_messages order m s) = dummyCallbacks s"
  "configCallbacks (call_messages order m s) = configCallbacks s"
  "messageCallbacks (call_messages order m s) =
     (messageCallbacks s)\<lparr>single_shots := [], sshots_called := True\<rparr>"
  by (simp_all add: call_messages_def call_queue_keep [of driver_view] call_queue_keep [of lastConfig]
      call_queue_keep [of configCallbacks] call_queue_keep [of pingCallbacks]
      call_queue_keep [of dummyCallbacks] message_queue.call_queue_after)

lemma call_special_returns: "\<exists>t. call_special order m s = Inr t"
  using make_ping_wrapper_no_error [of "Some m"] by (auto simp: call_special_def)

lemma call_special_keeps:
  assumes "call_special order m s = Inr t"
  shows "driver_view t = driver_view s" "lastConfig t = lastConfig s" "frames t = frames s"
    "dead_writes t = dead_writes s" "messageCallbacks t = messageCallbacks s"
  using assms
  by (auto simp: call_special_def bindR_Inr_iff call_queue_keep [of driver_view]
      call_queue_keep [of lastConfig] call_queue_keep [of frames] call_queue_keep [of dead_writes]
      call_queue_keep [of messageCallbacks] split: if_splits)

lemma handle_message_Inr:
  assumes "handle_message order m s = Inr t"
  obtains c where "new_config m (lastConfig s) = Inr c"
    and "call_special order m (call_messages order m (call_config order c s)) = Inr t"
  using assms by (auto simp: handle_message_steps bindR_Inr_iff)

lemma handle_message_returns:
  "(\<exists>t. handle_message order m s = Inr t) \<longleftrightarrow> (\<exists>c. new_config m (lastConfig s) = Inr c)"
  by (auto simp: handle_message_steps bindR_Inr_iff call_special_returns)

lemma handle_message_keeps:
  assumes "handle_message order m s = Inr t"
  shows "driver_view t = driver_view s"
    "messageCallbacks t = (messageCallbacks s)\<lparr>single_shots := [], sshots_called := True\<rparr>"
    "new_config m (lastConfig s) = Inr (lastConfig t)"
  using assms by (auto elim!: handle_message_Inr dest: call_special_keeps)

interpretation virtual: client_methods "handle_message order" "on_connect outcome" for order outcome
proof
  fix m and s t :: "'a SonarDriver_scheme"
  assume "handle_message order m s = Inr t"
  then show "client_view t = client_view s"
    using handle_message_keeps(1) by (auto simp: driver_view_def)
next
  fix s t :: "'a SonarDriver_scheme"
  assume "on_connect outcome s = Inr t"
  then show "client_view t = client_view s"
    by (auto simp: on_connect_def send_ping_config_def Let_def client_view_def listener_queue_def
        dest!: send_view split: prod.splits sum.splits if_splits)
qed

definition readable :: "Message \<Rightarrow> bool" where
  "readable m \<longleftrightarrow>
     (msgId (header m) = message_type_code messageSimplePingResult \<longrightarrow> sizeof_fire \<le> length (data m))"

lemma new_config_returns: "readable m \<Longrightarrow> \<exists>c. new_config m prev = Inr c"
  using fire_codec.dec_total [of "data m"]
  by (auto simp: readable_def new_config_def sizeof_fire_def Let_def)

lemma new_config_error:
  "new_config m prev = Inl e \<longleftrightarrow> \<not> readable m \<and> e = Out_of_bounds"
  using fire_codec.dec_total [of "data m"] fire_codec.dec_None [of "data m"]
  by (auto simp: readable_def new_config_def sizeof_fire_def Let_def split: option.split)

text \<open>The configuration after a message; it stays when the handler throws.\<close>

definition follow_config :: "Message \<Rightarrow> OculusSimpleFireMessage \<Rightarrow> OculusSimpleFireMessage" where
  "follow_config m c = (case new_config m c of Inl e \<Rightarrow> c | Inr c' \<Rightarrow> c')"

lemma handle_message_message: "handle_message order m s = Inr t \<Longrightarrow> message t = message s"
  by (auto simp: handle_message_def bindR_Inr_iff Let_def call_queue_keep [of message] put_queue_defs emit_def
      run_message_callback_def split: if_splits driver_callback.split option.split)

interpretation receiver: message_handler "handle_message order" readable lastConfig follow_config
  for order
proof
  fix m and s :: "'a SonarDriver_scheme"
  assume "readable m"
  then obtain t where t: "handle_message order m s = Inr t"
    using handle_message_returns new_config_returns by blast
  then show "\<exists>s'. handle_message order m s = Inr s' \<and> socket s' = socket s \<and> sonarId s' = sonarId s
      \<and> pending s' = pending s \<and> handled s' = handled s \<and> message s' = message s"
    using handle_message_keeps(1) [OF t] handle_message_message [OF t] by (auto simp: driver_view_def client_view_def)
next
  fix m and s t :: "'a SonarDriver_scheme"
  assume "handle_message order m s = Inr t"
  then show "lastConfig t = follow_config m (lastConfig s)"
    using handle_message_keeps(3) [of order m s t] by (simp add: follow_config_def)
qed simp_all

end
