(* ===== verification/Driver_Behaviour.thy ===== *)
theory Driver_Behaviour
  imports Sonar_Driver Message_Properties
begin

text \<open>
  What the driver does with messages and configurations: which callbacks a message calls and
  in which order, how the configuration follows the feedback of the sonar, what is sent, and
  when \<open>request_ping_config\<close> returns.
\<close>

section \<open>Samples\<close>

text \<open>A connected driver with one callback of each kind, and two messages for it.\<close>

definition one_callback :: "nat \<Rightarrow> driver_callback callback_queue" where
  "one_callback n = \<lparr>callbacks = [(0, User n)], single_shots = [], sshots_called = False\<rparr>"

definition sample_driver :: SonarDriver where
  "sample_driver =
     \<lparr>socket = Some 0, sockets_made = 1, remote_ip = 0, sonarId = 7,
      connectionState = Connected, clock = 0,
      statusListener = \<lparr>sl_callbacks = empty_queue, sl_clock = 0\<rparr>, statusCallbackId = 0,
      message = new_message, pending = [Read_header 0, Timer_wait, Status_receive], wire = [],
      handled = [], user_status = [],
      lastConfig = default_ping_config, lastPingRate = 0,
      messageCallbacks = one_callback 1, pingCallbacks = one_callback 2,
      dummyCallbacks = one_callback 3, configCallbacks = one_callback 4,
      events = [], frames = (\<lambda>_. None), frames_made = 0, dead_writes = []\<rparr>"

definition sample_dummy_header :: OculusMessageHeader where
  "sample_dummy_header = zero_header
     \<lparr>oculusId := OCULUS_CHECK_ID, srcDeviceId := 7, msgId := message_type_code messageDummy\<rparr>"

definition sample_dummy :: Message where
  "sample_dummy = frame_message 0 sample_dummy_header []"

lemma sample_driver_state [simp]:
  "socket sample_driver = Some 0" "connectionState sample_driver = Connected"
  "sonarId sample_driver = 7" "lastConfig sample_driver = default_ping_config"
  "lastPingRate sample_driver = 0" "messageCallbacks sample_driver = one_callback 1"
  "dummyCallbacks sample_driver = one_callback 3" "configCallbacks sample_driver = one_callback 4"
  "events sample_driver = []" "reads sample_driver = [Read_header 0]" "handled sample_driver = []"
  "frames_made sample_driver = 0"
  by (simp_all add: sample_driver_def reads_def)

lemma sample_dummy_id [simp]: "msgId (header sample_dummy) = 255"
  by (simp add: sample_dummy_def frame_message_def sample_dummy_header_def)

lemma sample_dummy_handled: "\<exists>t. handle_message order sample_dummy s = Inr t"
  by (simp add: handle_message_returns new_config_def)

lemma sample_ping_handled: "\<exists>t. handle_message order sample_ping_message s = Inr t"
  using new_config_returns [of sample_ping_message "lastConfig s"]
  by (simp add: handle_message_returns readable_def sample_ping_message_def sizeof_fire_def)

lemma send_succeeds:
  assumes "socket s \<noteq> None" and "connectionState s = Connected"
  shows "\<exists>t. send_ping_config (Sent sizeof_fire) config s = (t, Inr True)
     \<and> socket t = socket s \<and> connectionState t = connectionState s"
  using assms by (simp add: send_ping_config_def send_def connected_def sizeof_fire_def Let_def)

section \<open>Messages\<close>

lemma call_config_events:
  "events (call_config order c s) = events s @
     (if config_changed (lastConfig s) c
      then map (\<lambda>e. On_config (snd e) (lastConfig s) c) (called order (configCallbacks s)) else [])"
  using config_queue.call_trace_emitted [where tr = events and w = s and order = order
      and ev = "\<lambda>f. On_config f (lastConfig s) c" and prev = "lastConfig s" and c = c]
  by (simp add: call_config_def comp_def)

lemma call_messages_events:
  "events (call_messages order m s) = events s @
     map (\<lambda>e. On_message (snd e) m) (called order (messageCallbacks s))"
  using message_queue.call_trace_emitted [where tr = events and w = s and order = order
      and ev = "\<lambda>f. On_message f m"]
  by (simp add: call_messages_def comp_def)

lemma call_special_events:
  assumes "call_special order m s = Inr t"
  obtains w where "make_ping_wrapper (Some m) = Inr w"
    and "events t = events s @
      (if msgId (header m) = message_type_code messageSimplePingResult
       then map (\<lambda>e. On_ping (snd e) w) (called order (pingCallbacks s))
       else if msgId (header m) = message_type_code messageDummy
       then map (\<lambda>e. On_dummy (snd e) (header m)) (called order (dummyCallbacks s)) else [])"
proof -
  obtain w where w: "make_ping_wrapper (Some m) = Inr w"
    using make_ping_wrapper_no_error by blast
  have "events t = events s @
      (if msgId (header m) = message_type_code messageSimplePingResult
       then map (\<lambda>e. On_ping (snd e) w) (called order (pingCallbacks s))
       else if msgId (header m) = message_type_code messageDummy
       then map (\<lambda>e. On_dummy (snd e) (header m)) (called order (dummyCallbacks s)) else [])"
    using assms w
      ping_queue.call_trace_emitted [where tr = events and w = s and order = order and ev = "\<lambda>f. On_ping f w"]
      dummy_queue.call_trace_emitted [where tr = events and w = s and order = order
        and ev = "\<lambda>f. On_dummy f (header m)"]
    by (auto simp: call_special_def comp_def split: if_splits)
  with w that show thesis by blast
qed

text \<open>The calls a message makes.\<close>

lemma handle_message_events:
  assumes "handle_message order m s = Inr t"
  shows "\<exists>w. make_ping_wrapper (Some m) = Inr w \<and> events t = events s
     @ (if config_changed (lastConfig s) (lastConfig t)
        then map (\<lambda>e. On_config (snd e) (lastConfig s) (lastConfig t)) (called order (configCallbacks s))
        else [])
     @ map (\<lambda>e. On_message (snd e) m) (called order (messageCallbacks s))
     @ (if msgId (header m) = message_type_code messageSimplePingResult
        then map (\<lambda>e. On_ping (snd e) w) (called order (pingCallbacks s))
        else if msgId (header m) = message_type_code messageDummy
        then map (\<lambda>e. On_dummy (snd e) (header m)) (called order (dummyCallbacks s)) else [])"
proof -
  from assms obtain c where c: "new_config m (lastConfig s) = Inr c"
    and sp: "call_special order m (call_messages order m (call_config order c s)) = Inr t"
    by (rule handle_message_Inr)
  have "lastConfig t = c" using handle_message_keeps(3) [OF assms] c by simp
  with sp show ?thesis
    by (elim call_special_events) (auto simp: call_messages_events call_config_events)
qed

text \<open>
  C11: a message calls the configuration callbacks first, if the configuration changed, with the
  old and the new one, then every message callback, then every ping or dummy callback; each
  queue runs its registered callbacks and then its single shots.
\<close>

theorem messages_call_in_order:
  assumes "handle_message order m s = Inr t"
  shows "\<exists>w. make_ping_wrapper (Some m) = Inr w \<and> events t = events s
     @ (if config_changed (lastConfig s) (lastConfig t)
        then map (\<lambda>e. On_config (snd e) (lastConfig s) (lastConfig t)) (called order (configCallbacks s))
        else [])
     @ map (\<lambda>e. On_message (snd e) m) (called order (messageCallbacks s))
     @ (if msgId (header m) = message_type_code messageSimplePingResult
        then map (\<lambda>e. On_ping (snd e) w) (called order (pingCallbacks s))
        else if msgId (header m) = message_type_code messageDummy
        then map (\<lambda>e. On_dummy (snd e) (header m)) (called order (dummyCallbacks s)) else [])"
  by (rule handle_message_events [OF assms])

lemma messages_call_in_order_witness:
  "\<exists>t. handle_message (\<lambda>d. d) sample_dummy sample_driver = Inr t
     \<and> events t = [On_config (User 4) default_ping_config (default_ping_config\<lparr>fm_pingRate := 5\<rparr>),
         On_message (User 1) sample_dummy, On_dummy (User 3) sample_dummy_header]"
proof -
  obtain t where t: "handle_message (\<lambda>d. d) sample_dummy sample_driver = Inr t"
    using sample_dummy_handled by blast
  have "lastConfig t = default_ping_config\<lparr>fm_pingRate := 5\<rparr>"
    using handle_message_keeps(3) [OF t] by (simp add: new_config_def)
  then show ?thesis
    using messages_call_in_order [OF t] t
    by (simp add: config_changed_def default_config_fields called_def one_callback_def)
      (simp add: sample_dummy_def frame_message_def)
qed

text \<open>
  The driver accepts a message of any type and content, except a ping result too short to
  hold a fire message, which it reads out of bounds.
\<close>

theorem only_short_pings_fail:
  "(\<exists>e. handle_message order m s = Inl e) \<longleftrightarrow>
     msgId (header m) = message_type_code messageSimplePingResult \<and> length (data m) < sizeof_fire"
proof -
  have "(\<exists>e. handle_message order m s = Inl e) \<longleftrightarrow> \<not> (\<exists>t. handle_message order m s = Inr t)"
    by (cases "handle_message order m s") auto
  also have "\<dots> \<longleftrightarrow> (\<exists>e. new_config m (lastConfig s) = Inl e)"
    by (cases "new_config m (lastConfig s)") (auto simp: handle_message_returns)
  finally show ?thesis by (auto simp: new_config_error readable_def)
qed

lemma new_config_rate:
  "new_config m prev = Inr c \<Longrightarrow> fm_pingRate c =
     (if msgId (header m) = message_type_code messageDummy then ping_rate_code pingRateStandby
      else fm_pingRate prev)"
  by (auto simp: new_config_def Let_def split: if_splits option.splits)

lemma handle_messages_rate:
  "handle_messages order ms s = Inr t \<Longrightarrow> fm_pingRate (lastConfig t) =
     (if \<exists>m \<in> set ms. msgId (header m) = message_type_code messageDummy
      then ping_rate_code pingRateStandby else fm_pingRate (lastConfig s))"
proof (induction ms arbitrary: s)
  case Nil
  then show ?case by simp
next
  case (Cons m ms)
  then obtain u where u: "handle_message order m s = Inr u" "handle_messages order ms u = Inr t"
    by (auto simp: bindR_Inr_iff)
  with Cons.IH [of u] new_config_rate [OF handle_message_keeps(3) [OF u(1)]] show ?case by auto
qed

lemma handle_messages_view:
  "handle_messages order ms s = Inr t \<Longrightarrow> driver_view t = driver_view s"
proof (induction ms arbitrary: s)
  case (Cons m ms)
  then obtain u where "handle_message order m s = Inr u" "handle_messages order ms u = Inr t"
    by (auto simp: bindR_Inr_iff)
  with Cons.IH handle_message_keeps(1) show ?case by metis
qed simp

text \<open>
  Whatever the sonar sends, the ping rate the driver remembers is the one it last sent, until
  a dummy message sets it to standby; a ping never brings it back.
\<close>

theorem ping_rate_follows_dummies:
  assumes "handle_messages order ms s = Inr t"
  shows "fm_pingRate (lastConfig t) =
     (if filter (\<lambda>m. msgId (header m) = message_type_code messageDummy) ms = []
      then fm_pingRate (lastConfig s) else ping_rate_code pingRateStandby)"
  using handle_messages_rate [OF assms] by (auto simp: filter_empty_conv)

lemma ping_rate_follows_dummies_witness:
  "\<exists>t. handle_messages (\<lambda>d. d) [sample_dummy] sample_driver = Inr t \<and> fm_pingRate (lastConfig t) = 5"
proof -
  obtain t where "handle_messages (\<lambda>d. d) [sample_dummy] sample_driver = Inr t"
    using sample_dummy_handled [of "\<lambda>d. d" sample_driver] by auto
  with ping_rate_follows_dummies [OF this] show ?thesis by auto
qed

section \<open>Sending\<close>

lemma send_ping_config_sent:
  assumes "send_ping_config outcome config s = (t, Inr True)"
  shows "socket s \<noteq> None \<and> connectionState s = Connected \<and> outcome = Sent sizeof_fire
    \<and> t = (s\<lparr>wire := wire s @ enc_fire (fire_message (sonarId s) config),
             lastConfig := (lastConfig s)\<lparr>fm_pingRate := fm_pingRate config\<rparr>\<rparr>)
           \<lparr>lastPingRate := if fm_pingRate config = ping_rate_code pingRateStandby
                            then lastPingRate s else fm_pingRate config\<rparr>"
  using assms
  by (auto simp: send_ping_config_def send_def connected_def sizeof_fire_def Let_def
      split: if_splits send_outcome.splits prod.splits)

text \<open>
  C17: when \<open>send_ping_config\<close> succeeds, the client was connected and what it put on the wire
  decodes to the requested configuration, with a valid fire header addressed to the sonar whose
  payload size fits, and the network speed 0xff.
\<close>

theorem sent_configuration_decodes:
  assumes "send_ping_config outcome config s = (t, Inr True)"
  shows "connected s \<and> (\<exists>f. dec_fire (drop (length (wire s)) (wire t)) = Some f
     \<and> header_valid (fm_head f) \<and> msgId (fm_head f) = message_type_code messageSimpleFire
     \<and> dstDeviceId (fm_head f) = sonarId s
     \<and> unat (payloadSize (fm_head f)) + sizeof_header = length (wire t) - length (wire s)
     \<and> f = config\<lparr>fm_head := fm_head f, fm_networkSpeed := 0xff\<rparr>)"
  using send_ping_config_sent [OF assms]
  by (simp add: connected_def fire_codec.dec_enc_alone fire_message_def header_valid_def
      OCULUS_CHECK_ID_def sizeof_fire_def sizeof_header_def)

lemma sent_configuration_decodes_witness:
  "\<exists>t f. send_ping_config (Sent sizeof_fire) default_ping_config sample_driver = (t, Inr True)
     \<and> dec_fire (drop (length (wire sample_driver)) (wire t)) = Some f \<and> dstDeviceId (fm_head f) = 7"
proof -
  obtain t where t: "send_ping_config (Sent sizeof_fire) default_ping_config sample_driver = (t, Inr True)"
    using send_succeeds [of sample_driver default_ping_config] by auto
  with sent_configuration_decodes [OF t] show ?thesis by auto
qed

lemma new_config_ping:
  assumes "new_config m prev = Inr c" and "msgId (header m) = message_type_code messageSimplePingResult"
  obtains f where "dec_fire (data m) = Some f" and "fm_head c = fm_head f"
proof (cases "dec_fire (data m)")
  case None
  with assms show thesis by (simp add: new_config_def)
next
  case (Some f)
  have "fm_head c = fm_head f"
    using arg_cong [OF assms(1), of "\<lambda>r. fm_head (case r of Inr c \<Rightarrow> c)"] assms(2) Some
    by (simp add: new_config_def Let_def split: if_splits)
  with Some that show thesis by blast
qed

text \<open>
  After a ping result with header version 2, every configuration the driver derives from
  its last one (standby, resume, reconnection) goes out with header version 2.
\<close>

theorem version_of_ping_is_sent_back:
  assumes "msgId (header m) = message_type_code messageSimplePingResult"
    and "dec_header (data m) = Some (header m)"
    and "handle_message order m s = Inr u" and "standby outcome u = (t, Inr True)"
  shows "\<exists>f. dec_fire (drop (length (wire u)) (wire t)) = Some f
     \<and> msgVersion (fm_head f) = msgVersion (header m)"
proof -
  have "new_config m (lastConfig s) = Inr (lastConfig u)"
    using handle_message_keeps(3) assms(3) by blast
  then obtain f where f: "dec_fire (data m) = Some f" and head: "fm_head (lastConfig u) = fm_head f"
    using assms(1) by (elim new_config_ping)
  have "fm_head f = header m"
    using f assms(2) by (auto simp: dec_fire_def split: if_splits)
  with head send_ping_config_sent [OF assms(4) [unfolded standby_def]] show ?thesis
    by (auto simp: fire_codec.dec_enc_alone fire_message_def)
qed

lemma version_of_ping_is_sent_back_witness:
  "\<exists>m u t f. msgVersion (header m) = 2 \<and> handle_message (\<lambda>d. d) m sample_driver = Inr u
     \<and> standby (Sent sizeof_fire) u = (t, Inr True)
     \<and> dec_fire (drop (length (wire u)) (wire t)) = Some f \<and> msgVersion (fm_head f) = 2"
proof -
  define h where "h = (fm_head sample_fire)\<lparr>msgVersion := 2\<rparr>"
  define m where "m = \<lparr>timestamp = 0, header = h, data = enc_fire (sample_fire\<lparr>fm_head := h\<rparr>)\<rparr>"
  have id: "msgId (header m) = message_type_code messageSimplePingResult" "msgVersion (header m) = 2"
    by (simp_all add: m_def h_def sample_fire_def)
  have head: "dec_header (data m) = Some (header m)"
    using fire_header.inner_of_outer [of "enc_fire (sample_fire\<lparr>fm_head := h\<rparr>)" "sample_fire\<lparr>fm_head := h\<rparr>"]
    by (simp add: m_def fire_codec.dec_enc_alone)
  have "readable m" by (simp add: readable_def m_def sizeof_fire_def)
  then obtain u where u: "handle_message (\<lambda>d. d) m sample_driver = Inr u"
    using handle_message_returns new_config_returns by blast
  then have "socket u \<noteq> None" "connectionState u = Connected"
    using handle_message_keeps(1) [OF u] by (auto simp: driver_view_def client_view_def)
  then obtain t where t: "standby (Sent sizeof_fire) u = (t, Inr True)"
    unfolding standby_def using send_succeeds by blast
  obtain f where "dec_fire (drop (length (wire u)) (wire t)) = Some f" "msgVersion (fm_head f) = 2"
    using version_of_ping_is_sent_back [OF id(1) head u t] id(2) by auto
  with id(2) u t show ?thesis by blast
qed

text \<open>
  The fire message of every ping result is read as version 1. After a version 2 ping the
  driver holds the range in percent as its range in meters.
\<close>

theorem version_2_range_taken_as_meters:
  assumes "msgId (header m) = message_type_code messageSimplePingResult"
    and "dec_ping2 (data m) = Some p" and "handle_message order m s = Inr t"
  shows "fm_range (lastConfig t) = fm2_rangePercent (pr2_fireMessage p)
     \<and> fm_head (lastConfig t) = fm2_head (pr2_fireMessage p)"
proof -
  have "new_config m (lastConfig s) = Inr (lastConfig t)"
    using handle_message_keeps(3) [OF assms(3)] .
  then show ?thesis
    using assms(1) fire_of_ping2 [OF assms(2)]
    by (cases "fm_masterMode (fire_view (pr2_fireMessage p)) = 2")
      (auto simp: new_config_def Let_def fire_view_def dest!: sym [of _ "lastConfig t"])
qed

lemma version_2_range_taken_as_meters_witness:
  "\<exists>m p t. dec_ping2 (data m) = Some p \<and> handle_message (\<lambda>d. d) m sample_driver = Inr t
     \<and> fm_range (lastConfig t) = fm2_rangePercent (pr2_fireMessage p)"
proof -
  define m where "m = \<lparr>timestamp = 0, header = fm_head sample_fire, data = replicate 202 1\<rparr>"
  have id: "msgId (header m) = message_type_code messageSimplePingResult"
    by (simp add: m_def sample_fire_def)
  obtain p where p: "dec_ping2 (data m) = Some p"
    using ping2_codec.dec_total [of "data m"] by (auto simp: m_def)
  have "readable m" by (simp add: readable_def m_def sizeof_fire_def)
  then obtain t where t: "handle_message (\<lambda>d. d) m sample_driver = Inr t"
    using handle_message_returns new_config_returns by blast
  from version_2_range_taken_as_meters [OF id p t] p t show ?thesis by blast
qed

text \<open>What the ping rates of the driver always satisfy.\<close>

definition rate_inv :: "'a SonarDriver_scheme \<Rightarrow> bool" where
  "rate_inv s \<longleftrightarrow> lastPingRate s \<noteq> ping_rate_code pingRateStandby
     \<and> (fm_pingRate (lastConfig s) = ping_rate_code pingRateStandby
        \<or> fm_pingRate (lastConfig s) = lastPingRate s)"

lemma handle_message_rate_inv:
  assumes "handle_message order m s = Inr t" and "rate_inv s"
  shows "rate_inv t"
  using assms(2) new_config_rate [OF handle_message_keeps(3) [OF assms(1)]]
    handle_message_keeps(1) [OF assms(1)]
  by (auto simp: rate_inv_def driver_view_def)

lemma send_ping_config_rates:
  assumes "send_ping_config outcome config s = (t, r)"
  shows "(r = Inr True \<and> fm_pingRate (lastConfig t) = fm_pingRate config
      \<and> lastPingRate t = (if fm_pingRate config = ping_rate_code pingRateStandby
                          then lastPingRate s else fm_pingRate config))
    \<or> (r \<noteq> Inr True \<and> lastConfig t = lastConfig s \<and> lastPingRate t = lastPingRate s)"
  using assms
  by (auto simp: send_ping_config_def send_def Let_def
      split: if_splits send_outcome.splits prod.splits)

lemma send_ping_config_rate_inv:
  "send_ping_config outcome config s = (t, r) \<Longrightarrow> rate_inv s \<Longrightarrow> rate_inv t"
  using send_ping_config_rates [of outcome config s t r]
  by (auto simp: rate_inv_def split: if_splits)

lemma construct_rate_inv: "SonarDriver_construct now = Some s \<Longrightarrow> rate_inv s"
  by (auto simp: SonarDriver_construct_def rate_inv_def default_config_fields
      SonarClient.defs)

text \<open>
  C15: \<open>resume\<close> undoes \<open>standby\<close>: whatever messages came in between, it sends the last
  configuration with the ping rate the driver had before.
\<close>

theorem resume_restores_the_rate:
  assumes "rate_inv s" and "fm_pingRate (lastConfig s) \<noteq> ping_rate_code pingRateStandby"
    and "standby o1 s = (s1, Inr True)" and "handle_messages order ms s1 = Inr s2"
    and "resume o2 s2 = (t, Inr True)"
  shows "fm_pingRate (lastConfig s1) = ping_rate_code pingRateStandby
     \<and> fm_pingRate (lastConfig t) = fm_pingRate (lastConfig s)
     \<and> dec_fire (drop (length (wire s2)) (wire t)) =
         Some (fire_message (sonarId s) ((lastConfig s2)\<lparr>fm_pingRate := fm_pingRate (lastConfig s)\<rparr>))"
proof -
  have s1: "fm_pingRate (lastConfig s1) = ping_rate_code pingRateStandby"
    "lastPingRate s1 = fm_pingRate (lastConfig s)" "sonarId s1 = sonarId s"
    using send_ping_config_sent [OF assms(3) [unfolded standby_def]] assms(1,2)
    by (auto simp: rate_inv_def)
  have s2: "lastPingRate s2 = lastPingRate s1" "sonarId s2 = sonarId s1"
    using handle_messages_view [OF assms(4)] by (simp_all add: driver_view_def)
  from s1 s2 send_ping_config_sent [OF assms(5) [unfolded resume_def]] show ?thesis
    using assms(2) by (auto simp: fire_codec.dec_enc_alone)
qed

lemma resume_restores_the_rate_witness:
  "\<exists>s1 s2 t. standby (Sent sizeof_fire) sample_driver = (s1, Inr True)
     \<and> handle_messages (\<lambda>d. d) [sample_dummy] s1 = Inr s2
     \<and> resume (Sent sizeof_fire) s2 = (t, Inr True) \<and> fm_pingRate (lastConfig t) = 0"
proof -
  obtain s1 where s1: "standby (Sent sizeof_fire) sample_driver = (s1, Inr True)"
    and c1: "socket s1 \<noteq> None" "connectionState s1 = Connected"
    unfolding standby_def using send_succeeds [of sample_driver] by fastforce
  obtain s2 where s2: "handle_messages (\<lambda>d. d) [sample_dummy] s1 = Inr s2"
    using sample_dummy_handled [of "\<lambda>d. d" s1] by auto
  have "socket s2 \<noteq> None" "connectionState s2 = Connected"
    using handle_messages_view [OF s2] c1 by (auto simp: driver_view_def client_view_def)
  then obtain t where t: "resume (Sent sizeof_fire) s2 = (t, Inr True)"
    unfolding resume_def using send_succeeds by blast
  have "rate_inv sample_driver" by (simp add: rate_inv_def default_config_fields)
  from resume_restores_the_rate [OF this _ s1 s2 t] s1 s2 t show ?thesis
    by (auto simp: default_config_fields)
qed

section \<open>The stream of the sonar\<close>

text \<open>
  C2: the reception loop cuts the stream of a sonar into its messages. From a stream of
  messages of any type, whose blocks of sixteen bytes in between are no header of the sonar,
  the driver handles exactly the messages, in order, each with its header and payload, and then
  waits for the next header; no byte of what follows is taken. Its configuration is the old
  one updated by each of the messages in turn.
\<close>

theorem stream_is_cut_into_messages:
  assumes "reads s = [Read_header k]" and "socket s = Some k"
    and "\<forall>c \<in> set cs. chunk_ok (sonarId s) c" and "\<forall>m \<in> set (chunk_messages now cs). readable m"
  shows "\<exists>s'. pump (handle_message order) now (chunk_reads cs) (concat (map chunk_bytes cs) @ rest) s
       = Inr (rest, s')
     \<and> handled s' = handled s @ chunk_messages now cs \<and> reads s' = [Read_header k]
     \<and> socket s' = Some k
     \<and> lastConfig s' = fold follow_config (chunk_messages now cs) (lastConfig s)"
  using receiver.pump_chunks [OF assms] by blast

lemma stream_is_cut_into_messages_witness:
  "\<exists>s'. pump (handle_message (\<lambda>d. d)) 0 3
       (concat (map chunk_bytes [Noise zero_header, Frame sample_dummy_header []]) @ [1, 2, 3]) sample_driver
     = Inr ([1, 2, 3], s') \<and> handled s' = [sample_dummy]"
proof -
  let ?cs = "[Noise zero_header, Frame sample_dummy_header []]"
  have "\<forall>c \<in> set ?cs. chunk_ok (sonarId sample_driver) c"
    by (simp add: sample_dummy_header_def zero_header_def OCULUS_CHECK_ID_def)
  moreover have "\<forall>m \<in> set (chunk_messages 0 ?cs). readable m"
    by (simp add: readable_def frame_message_def sample_dummy_header_def)
  ultimately show ?thesis
    using stream_is_cut_into_messages [of sample_driver 0 ?cs 0 "\<lambda>d. d" "[1, 2, 3]"]
    by (auto simp: numeral_3_eq_3 sample_dummy_def simp del: pump.simps chunk_bytes.simps)
qed



end
