(* ===== verification/Driver_Requests.thy ===== *)
theory Driver_Requests
  imports Driver_Behaviour
begin

text \<open>
  The waiting half of the driver: \<open>current_ping_config\<close> and the loop of
  \<open>request_ping_config\<close>. When they return, and what they return.
\<close>

section \<open>The setter of a waiting thread\<close>

lemma run_setter_live:
  assumes "frames s k \<noteq> None"
  shows "frames (run_entries (run_message_callback m) d s) k =
     (if Config_setter k \<in> snd ` set d then Some ((lastConfig s)\<lparr>fm_head := header m\<rparr>)
      else frames s k)"
  using assms
proof (induction d arbitrary: s)
  case Nil
  then show ?case by (simp add: run_entries_def)
next
  case (Cons e d)
  let ?s = "run_message_callback m (snd e) s"
  have f: "frames ?s k = (if snd e = Config_setter k then Some ((lastConfig s)\<lparr>fm_head := header m\<rparr>)
      else frames s k)"
    using Cons.prems by (auto simp: run_message_callback_def emit_def Let_def
        split: driver_callback.split option.split)
  with Cons.prems have "frames ?s k \<noteq> None" by simp
  from Cons.IH [OF this] f show ?case by (auto simp: run_entries_def)
qed

lemma run_setter_dead:
  assumes "frames s k = None"
  shows "frames (run_entries (run_message_callback m) d s) k = None
     \<and> set (dead_writes s) \<subseteq> set (dead_writes (run_entries (run_message_callback m) d s))
     \<and> (Config_setter k \<in> snd ` set d
        \<longrightarrow> k \<in> set (dead_writes (run_entries (run_message_callback m) d s)))"
  using assms
proof (induction d arbitrary: s)
  case Nil
  then show ?case by (simp add: run_entries_def)
next
  case (Cons e d)
  let ?s = "run_message_callback m (snd e) s"
  have "frames ?s k = None" "set (dead_writes s) \<subseteq> set (dead_writes ?s)"
    "snd e = Config_setter k \<longrightarrow> k \<in> set (dead_writes ?s)"
    using Cons.prems by (auto simp: run_message_callback_def emit_def Let_def
        split: driver_callback.split option.split)
  with Cons.IH [of ?s] show ?case by (auto simp: run_entries_def)
qed

lemma call_messages_frames:
  "frames (call_messages order m s) =
     frames (run_entries (run_message_callback m) (called order (messageCallbacks s)) s)"
  "dead_writes (call_messages order m s) =
     dead_writes (run_entries (run_message_callback m) (called order (messageCallbacks s)) s)"
  by (simp_all add: call_messages_def message_queue.call_steady)

lemma called_set:
  assumes "\<And>d. mset (order d) = mset d"
  shows "set (called order q) = set (callbacks q) \<union> set (single_shots q)"
  using mset_eq_setD [OF assms] by (simp add: called_def)

lemma handle_message_setter:
  assumes "\<And>d. mset (order d) = mset d" and "handle_message order m s = Inr t"
    and "Config_setter k \<in> snd ` set (single_shots (messageCallbacks s))"
  shows "frames s k \<noteq> None \<Longrightarrow> frames t k = Some ((lastConfig t)\<lparr>fm_head := header m\<rparr>)"
    and "frames s k = None \<Longrightarrow> k \<in> set (dead_writes t)"
proof -
  from assms(2) obtain c where c: "new_config m (lastConfig s) = Inr c"
    and sp: "call_special order m (call_messages order m (call_config order c s)) = Inr t"
    by (rule handle_message_Inr)
  note keep = call_special_keeps [OF sp]
  have called: "Config_setter k \<in> snd ` set (called order (messageCallbacks (call_config order c s)))"
    using assms(1,3) by (auto simp: called_set)
  show "frames s k \<noteq> None \<Longrightarrow> frames t k = Some ((lastConfig t)\<lparr>fm_head := header m\<rparr>)"
    using called run_setter_live [of "call_config order c s" k m]
    by (simp add: keep call_messages_frames)
  show "frames s k = None \<Longrightarrow> k \<in> set (dead_writes t)"
    using called run_setter_dead [of "call_config order c s" k m]
    by (simp add: keep call_messages_frames)
qed

section \<open>\<open>current_ping_config\<close>\<close>

definition shots_room :: "'a SonarDriver_scheme \<Rightarrow> bool" where
  "shots_room s \<longleftrightarrow> length (single_shots (messageCallbacks s)) < 2 ^ 32"

lemma register_returns:
  assumes "shots_room s"
  shows "\<exists>q i. register_single_shot (messageCallbacks s) f = Some (q, i)"
  by (rule add_entry_Some [OF assms [unfolded shots_room_def], of f])
    (simp add: register_single_shot_def)

text \<open>The state in which the thread waits.\<close>

definition waiting_state where
  "waiting_state q uninit s =
     s\<lparr>messageCallbacks := q, frames := (frames s)(frames_made s \<mapsto> uninit),
       frames_made := Suc (frames_made s)\<rparr>"

lemma current_ping_config_eq:
  assumes "register_single_shot (messageCallbacks s) (Config_setter (frames_made s)) = Some (q, i)"
  shows "current_ping_config order uninit (Some m) s =
      (case handle_message order m (waiting_state q uninit s) of
         Inl e \<Rightarrow> Some (waiting_state q uninit s, Inl e)
       | Inr u \<Rightarrow> Some (u\<lparr>frames := (frames u)(frames_made s := None)\<rparr>,
           Inr (the (frames u (frames_made s)))))"
  using assms by (simp add: current_ping_config_def Let_def waiting_state_def split: sum.split)

lemma current_ping_config_answered:
  assumes "current_ping_config order uninit (Some m) s = Some (t, Inr c)"
  obtains q i u where "register_single_shot (messageCallbacks s) (Config_setter (frames_made s)) = Some (q, i)"
    and "handle_message order m (waiting_state q uninit s) = Inr u"
    and "t = u\<lparr>frames := (frames u)(frames_made s := None)\<rparr>" and "c = the (frames u (frames_made s))"
proof (cases "register_single_shot (messageCallbacks s) (Config_setter (frames_made s))")
  case None
  with assms show thesis by (simp add: current_ping_config_def)
next
  case (Some p)
  then obtain q i where reg: "register_single_shot (messageCallbacks s)
      (Config_setter (frames_made s)) = Some (q, i)" by (cases p) simp
  note eq = current_ping_config_eq [OF reg, of order uninit m]
  show thesis
  proof (cases "handle_message order m (waiting_state q uninit s)")
    case (Inl e)
    with assms eq show thesis by simp
  next
    case (Inr u)
    with assms eq reg that show thesis by simp
  qed
qed

lemma answer_config:
  assumes "\<And>d. mset (order d) = mset d"
    and "current_ping_config order uninit (Some m) s = Some (t, Inr c)"
  shows "c = (lastConfig t)\<lparr>fm_head := header m\<rparr> \<and> new_config m (lastConfig s) = Inr (lastConfig t)"
  using assms(2)
proof (rule current_ping_config_answered)
  fix q i u
  assume reg: "register_single_shot (messageCallbacks s) (Config_setter (frames_made s)) = Some (q, i)"
    and u: "handle_message order m (waiting_state q uninit s) = Inr u"
    and t: "t = u\<lparr>frames := (frames u)(frames_made s := None)\<rparr>" and c: "c = the (frames u (frames_made s))"
  have "Config_setter (frames_made s) \<in> snd ` set (single_shots (messageCallbacks (waiting_state q uninit s)))"
    using register_single_shot_SomeD [OF reg] by (auto simp: waiting_state_def)
  from handle_message_setter(1) [OF assms(1) u this] handle_message_keeps(3) [OF u]
  show ?thesis by (simp add: t c waiting_state_def)
qed

lemma sample_wait:
  assumes "shots_room s"
  obtains t c where "current_ping_config order uninit (Some sample_dummy) s = Some (t, Inr c)"
proof -
  obtain q i where reg: "register_single_shot (messageCallbacks s) (Config_setter (frames_made s)) = Some (q, i)"
    using register_returns [OF assms] by blast
  obtain u where "handle_message order sample_dummy (waiting_state q uninit s) = Inr u"
    using sample_dummy_handled by blast
  with current_ping_config_eq [OF reg, of order uninit sample_dummy] that show thesis by simp
qed

lemma sample_driver_room: "shots_room sample_driver"
  by (simp add: shots_room_def one_callback_def)

text \<open>
  When \<open>current_ping_config\<close> returns, it returns the configuration after the message it
  waited for, with the header of that message, never the indeterminate value it started with.
\<close>

theorem current_config_is_the_answer:
  assumes "\<And>d. mset (order d) = mset d"
    and "current_ping_config order uninit (Some m) s = Some (t, Inr c)"
  shows "c = (lastConfig t)\<lparr>fm_head := header m\<rparr> \<and> new_config m (lastConfig s) = Inr (lastConfig t)"
  using answer_config [OF assms] .

lemma current_config_is_the_answer_witness:
  "\<exists>t c. current_ping_config (\<lambda>d. d) sample_fire (Some sample_dummy) sample_driver = Some (t, Inr c)
     \<and> c = default_ping_config\<lparr>fm_head := sample_dummy_header, fm_pingRate := 5\<rparr>"
proof -
  obtain t c where cur: "current_ping_config (\<lambda>d. d) sample_fire (Some sample_dummy) sample_driver = Some (t, Inr c)"
    by (rule sample_wait [OF sample_driver_room])
  from current_config_is_the_answer [OF _ cur]
  have "c = (lastConfig t)\<lparr>fm_head := header sample_dummy\<rparr>"
    "new_config sample_dummy default_ping_config = Inr (lastConfig t)" by simp_all
  moreover have "new_config sample_dummy default_ping_config = Inr (default_ping_config\<lparr>fm_pingRate := 5\<rparr>)"
    by (simp add: new_config_def)
  moreover have "header sample_dummy = sample_dummy_header"
    by (simp add: sample_dummy_def frame_message_def)
  ultimately have "c = default_ping_config\<lparr>fm_pingRate := 5, fm_head := sample_dummy_header\<rparr>" by simp
  with cur show ?thesis by auto
qed

text \<open>
  After a wait that timed out the callback stays registered; the next message the driver
  handles runs it, and it writes to the local variable of a function that has returned.
\<close>

theorem timed_out_wait_writes_later:
  assumes "\<And>d. mset (order d) = mset d"
    and "current_ping_config order uninit None s = Some (t, r)"
    and "handle_message order m t = Inr u"
  shows "r = Inl Timeout_reached \<and> frames_made s \<in> set (dead_writes u)"
proof -
  from assms(2) obtain q i
    where reg: "register_single_shot (messageCallbacks s) (Config_setter (frames_made s)) = Some (q, i)"
      and t: "t = (waiting_state q uninit s)\<lparr>frames := (frames s)(frames_made s := None)\<rparr>"
      and r: "r = Inl Timeout_reached"
    by (auto simp: current_ping_config_def Let_def waiting_state_def split: option.splits)
  have "Config_setter (frames_made s) \<in> snd ` set (single_shots (messageCallbacks t))"
    using register_single_shot_SomeD [OF reg] by (auto simp: t waiting_state_def)
  from handle_message_setter(2) [OF assms(1,3) this] r show ?thesis by (simp add: t)
qed

lemma timed_out_wait_writes_later_witness:
  "\<exists>t u. current_ping_config (\<lambda>d. d) sample_fire None sample_driver = Some (t, Inl Timeout_reached)
     \<and> handle_message (\<lambda>d. d) sample_dummy t = Inr u \<and> 0 \<in> set (dead_writes u)"
proof -
  obtain t r where cur: "current_ping_config (\<lambda>d. d) sample_fire None sample_driver = Some (t, r)"
    using register_returns [OF sample_driver_room, of "Config_setter (frames_made sample_driver)"]
    by (auto simp: current_ping_config_def Let_def)
  obtain u where u: "handle_message (\<lambda>d. d) sample_dummy t = Inr u" using sample_dummy_handled by blast
  from timed_out_wait_writes_later [OF _ cur u] cur u show ?thesis by auto
qed

lemma handle_messages_room:
  "handle_messages order ms s = Inr t \<Longrightarrow> shots_room s \<Longrightarrow> shots_room t"
proof (induction ms arbitrary: s)
  case (Cons m ms)
  then obtain u where u: "handle_message order m s = Inr u" "handle_messages order ms u = Inr t"
    by (auto simp: bindR_Inr_iff)
  have "shots_room u" using handle_message_keeps(2) [OF u(1)] by (simp add: shots_room_def)
  with Cons.IH u(2) show ?case by blast
qed simp

lemma send_ping_config_room:
  "send_ping_config outcome config s = (t, r) \<Longrightarrow> shots_room t = shots_room s"
  by (auto simp: send_ping_config_def send_def shots_room_def Let_def
      split: if_splits send_outcome.splits prod.splits)

section \<open>\<open>request_ping_config\<close>\<close>

lemma request_first_break:
  assumes "request_iteration order uninit (forced_request request) (env 0) s = Some (t, Break c)"
  shows "request_ping_config order uninit request env s = Some (t, Inr c)"
proof -
  have "request_loop order uninit (forced_request request) env 0 0 s = Some (t, Inr (Some c))"
    using assms by (subst request_loop.simps) simp
  then show ?thesis by (simp add: request_ping_config_def)
qed

lemma request_iteration_break:
  "request_iteration order uninit request a s = Some (t, Break feedback)
   \<Longrightarrow> check_config_feedback request feedback"
  by (auto simp: request_iteration_def split: prod.splits sum.splits option.splits if_splits)

lemma request_loop_break:
  "request_loop order uninit request env i cnt s = Some r
   \<Longrightarrow> snd r = Inr (Some feedback) \<longrightarrow> check_config_feedback request feedback"
proof (rule request_loop.raw_induct [where P = "\<lambda>order uninit request env i cnt s r.
    snd r = Inr (Some feedback) \<longrightarrow> check_config_feedback request feedback"], goal_cases)
  case (1 loop order uninit request env i cnt s r)
  from 1(3) obtain t n where it: "request_iteration order uninit request (env i) s = Some (t, n)"
    by (cases "request_iteration order uninit request (env i) s") auto
  with 1(2,3) request_iteration_break [of order uninit request "env i" s t feedback] show ?case
    by (cases n) (auto split: if_splits)
qed simp

text \<open>
  C13: a configuration that \<open>request_ping_config\<close> returns was either confirmed by the feedback of
  the sonar, gains included, or is the request itself with a message id no sonar uses.
\<close>

theorem request_is_confirmed_or_marked:
  assumes "request_ping_config order uninit request env s = Some (t, Inr config)"
  shows "check_config_feedback (forced_request request) config
     \<or> config = (forced_request request)
         \<lparr>fm_head := (fm_head request)\<lparr>msgId := 0\<rparr>\<rparr>"
  using assms request_loop_break [of order uninit "forced_request request" env 0 0 s]
  by (fastforce simp: request_ping_config_def Let_def forced_request_def
      split: option.splits sum.splits prod.splits)

lemma request_is_confirmed_or_marked_witness:
  "\<exists>t config. request_ping_config (\<lambda>d. d) sample_fire (default_ping_config\<lparr>fm_pingRate := 5\<rparr>)
       (\<lambda>_. \<lparr>at_send = Sent sizeof_fire, at_before = [], at_answer = Some sample_dummy\<rparr>) sample_driver
       = Some (t, Inr config)
     \<and> (check_config_feedback (forced_request (default_ping_config\<lparr>fm_pingRate := 5\<rparr>)) config
        \<or> msgId (fm_head config) = 0)"
proof -
  let ?r = "default_ping_config\<lparr>fm_pingRate := 5\<rparr>"
  let ?env = "\<lambda>_ :: nat. \<lparr>at_send = Sent sizeof_fire, at_before = [], at_answer = Some sample_dummy\<rparr>"
  obtain u where send: "send_ping_config (Sent sizeof_fire) (forced_request ?r) sample_driver = (u, Inr True)"
    using send_succeeds [of sample_driver "forced_request ?r"] by auto
  have "shots_room u" using sample_driver_room send_ping_config_room [OF send] by simp
  then obtain t c where cur: "current_ping_config (\<lambda>d. d) sample_fire (Some sample_dummy) u = Some (t, Inr c)"
    by (rule sample_wait)
  have "c = (lastConfig t)\<lparr>fm_head := header sample_dummy\<rparr>" using answer_config [OF _ cur] by simp
  then have "check_config_feedback (forced_request ?r) c"
    by (simp add: check_config_feedback_def forced_request_def)
  with send cur have "request_iteration (\<lambda>d. d) sample_fire (forced_request ?r) (?env 0) sample_driver
      = Some (t, Break c)"
    by (simp add: request_iteration_def)
  note ret = request_first_break [of "\<lambda>d. d" sample_fire ?r ?env, OF this]
  from request_is_confirmed_or_marked [OF ret] ret show ?thesis by auto
qed

lemma current_ping_config_returns:
  assumes "shots_room s"
  obtains t r where "current_ping_config order uninit (Some m) s = Some (t, r)"
    and "r \<noteq> Inl Timeout_reached" and "\<And>c. r = Inr c \<Longrightarrow> shots_room t"
proof -
  obtain q i where reg: "register_single_shot (messageCallbacks s) (Config_setter (frames_made s)) = Some (q, i)"
    using register_returns [OF assms] by blast
  show thesis
  proof (cases "handle_message order m (waiting_state q uninit s)")
    case (Inl e)
    then have "e \<noteq> Timeout_reached"
      by (auto simp: handle_message_steps bindR_Inl_iff new_config_error call_special_def
          dest: call_special_returns [THEN exE] split: if_splits)
        (metis Inl_Inr_False make_ping_wrapper_no_error)
    with Inl reg that show thesis
      by (fastforce simp: current_ping_config_def Let_def waiting_state_def)
  next
    case (Inr u)
    with handle_message_keeps(2) [OF Inr] reg that show thesis
      by (fastforce simp: current_ping_config_def Let_def waiting_state_def shots_room_def)
  qed
qed

lemma request_iteration_answered:
  assumes "shots_room s" and "at_answer a = Some m"
  obtains t n where "request_iteration order uninit request a s = Some (t, n)"
    and "\<And>k. n = Next k \<Longrightarrow> k = 1 \<and> shots_room t"
proof -
  obtain s1 r where send: "send_ping_config (at_send a) request s = (s1, r)" by fastforce
  with assms(1) have room: "shots_room s1" by (simp add: send_ping_config_room)
  show thesis
  proof (cases r)
    case (Inl e)
    with send that show thesis by (simp add: request_iteration_def)
  next
    case (Inr sent)
    show thesis
    proof (cases "\<not> sent")
      case True
      with send Inr room that show thesis by (simp add: request_iteration_def)
    next
      case False
      show thesis
      proof (cases "handle_messages order (at_before a) s1")
        case (Inl e)
        with send Inr False that show thesis by (simp add: request_iteration_def)
      next
        case hm: (Inr s2)
        then have "shots_room s2" using room by (rule handle_messages_room)
        then obtain t r where "current_ping_config order uninit (Some m) s2 = Some (t, r)"
          "r \<noteq> Inl Timeout_reached" "\<And>c. r = Inr c \<Longrightarrow> shots_room t"
          by (rule current_ping_config_returns) blast
        with send Inr False hm assms(2) that show thesis
          by (intro that [of t "case r of Inl e \<Rightarrow> Throw e | Inr c \<Rightarrow>
                if check_config_feedback request c then Break c else Next 1"])
            (auto simp: request_iteration_def split: sum.splits if_splits)
      qed
    qed
  qed
qed

lemma request_loop_returns:
  assumes "cnt < maxCount" and "shots_room s" and "\<And>i. at_answer (env i) \<noteq> None"
  shows "\<exists>r. request_loop order uninit request env i cnt s = Some r"
  using assms(1,2)
proof (induction "maxCount - cnt" arbitrary: cnt i s rule: less_induct)
  case less
  obtain m where "at_answer (env i) = Some m" using assms(3) by blast
  then obtain t n where it: "request_iteration order uninit request (env i) s = Some (t, n)"
    and room: "\<And>k. n = Next k \<Longrightarrow> k = 1 \<and> shots_room t"
    using less.prems(2) by (rule_tac request_iteration_answered) blast+
  show ?case
  proof (cases n)
    case (Next k)
    with room have k: "k = 1" "shots_room t" by blast+
    show ?thesis
    proof (cases "cnt + 1 < maxCount")
      case True
      with less.hyps [of "cnt + 1" t "Suc i"] k it Next show ?thesis
        by (subst request_loop.simps) simp
    next
      case False
      with k it Next show ?thesis by (subst request_loop.simps) simp
    qed
  qed (use it in \<open>subst request_loop.simps, simp\<close>)+
qed

text \<open>
  C14: \<open>request_ping_config\<close> returns, after at most a hundred attempts, if every wait sees a
  message, whatever the messages and the outcomes of the sends.
\<close>

theorem request_returns:
  assumes "shots_room s" and "\<And>i. at_answer (env i) \<noteq> None"
  shows "\<exists>t r. request_ping_config order uninit request env s = Some (t, r)"
proof -
  obtain t r where "request_loop order uninit (forced_request request) env 0 0 s = Some (t, r)"
    using request_loop_returns [of 0 s env order uninit "forced_request request" 0] assms
    by (auto simp: maxCount_def)
  then show ?thesis
    by (auto simp: request_ping_config_def Let_def split: sum.split option.split)
qed

lemma request_returns_witness:
  "\<exists>t r. request_ping_config (\<lambda>d. d) sample_fire default_ping_config
     (\<lambda>_. \<lparr>at_send = Sent 5, at_before = [sample_dummy], at_answer = Some sample_dummy\<rparr>) sample_driver
     = Some (t, r)"
  by (rule request_returns [OF sample_driver_room]) simp

lemma silent_iteration:
  assumes "socket s \<noteq> None" and "connectionState s = Connected"
    and "a = \<lparr>at_send = Sent sizeof_fire, at_before = [], at_answer = None\<rparr>"
    and "request_iteration order uninit request a s = Some (t, n)"
  shows "n = Next 0 \<and> socket t \<noteq> None \<and> connectionState t = Connected"
  using assms
  by (auto simp: request_iteration_def send_ping_config_def send_def connected_def
      current_ping_config_def Let_def split: prod.splits option.splits if_splits)

lemma silent_loop:
  "request_loop order uninit request env i cnt s = Some r
   \<Longrightarrow> \<not> (socket s \<noteq> None \<and> connectionState s = Connected \<and> cnt < maxCount
   \<and> (\<forall>i. env i = \<lparr>at_send = Sent sizeof_fire, at_before = [], at_answer = None\<rparr>))"
proof (rule request_loop.raw_induct [where P = "\<lambda>order uninit request env i cnt s r.
    \<not> (socket s \<noteq> None \<and> connectionState s = Connected \<and> cnt < maxCount
    \<and> (\<forall>i. env i = \<lparr>at_send = Sent sizeof_fire, at_before = [], at_answer = None\<rparr>))"],
    goal_cases)
  case (1 loop order uninit request env i cnt s r)
  show ?case
  proof
    assume a: "socket s \<noteq> None \<and> connectionState s = Connected \<and> cnt < maxCount
      \<and> (\<forall>i. env i = \<lparr>at_send = Sent sizeof_fire, at_before = [], at_answer = None\<rparr>)"
    from 1(3) obtain t n where it: "request_iteration order uninit request (env i) s = Some (t, n)"
      by (cases "request_iteration order uninit request (env i) s") auto
    with a silent_iteration [of s "env i" order uninit request t n]
    have n: "n = Next 0" "socket t \<noteq> None" "connectionState t = Connected" by blast+
    with 1(3) it a have "loop order uninit request env (Suc i) cnt t = Some r" by simp
    from 1(2) [OF this] n a show False by blast
  qed
qed simp

text \<open>
  C30: when the sonar takes the configurations but sends nothing back, every wait times out and
  \<open>request_ping_config\<close> never returns: the bound of a hundred attempts does not count timeouts.
\<close>

theorem request_hangs_on_silence:
  assumes "socket s \<noteq> None" and "connectionState s = Connected"
    and "\<And>i. env i = \<lparr>at_send = Sent sizeof_fire, at_before = [], at_answer = None\<rparr>"
  shows "request_ping_config order uninit request env s = None"
  using assms silent_loop [of order uninit "forced_request request" env 0 0 s]
  by (cases "request_loop order uninit (forced_request request) env 0 0 s")
    (auto simp: request_ping_config_def Let_def maxCount_def)

lemma request_hangs_on_silence_witness:
  "request_ping_config (\<lambda>d. d) sample_fire default_ping_config
     (\<lambda>_. \<lparr>at_send = Sent sizeof_fire, at_before = [], at_answer = None\<rparr>) sample_driver = None"
  by (rule request_hangs_on_silence) simp_all

section \<open>A sonar that does as it is told\<close>

text \<open>The values the comparison with the feedback can confirm.\<close>

definition finite_double :: "double \<Rightarrow> bool" where
  "finite_double x \<longleftrightarrow> (\<exists>s m e. dval x = FFin s m e)"

lemma close_to_self: "finite_double x \<Longrightarrow> close_to x x"
  by (auto simp: finite_double_def close_to_def d_abs_sub_self) (simp add: fp_eval)

definition config_finite :: "OculusSimpleFireMessage \<Rightarrow> bool" where
  "config_finite c \<longleftrightarrow> finite_double (fm_range c) \<and> finite_double (fm_gainPercent c)
     \<and> finite_double (fm_speedOfSound c) \<and> finite_double (fm_salinity c)"

lemma check_config_feedback_echo:
  assumes "config_finite c" and "fm_pingRate c \<noteq> ping_rate_code pingRateStandby"
    and "msgId h = message_type_code messageSimplePingResult"
  shows "check_config_feedback c (c\<lparr>fm_head := h, fm_networkSpeed := n\<rparr>)"
  using assms
  by (auto simp: check_config_feedback_def config_finite_def close_to_self fp_eq_refl finite_double_def)

text \<open>
  A sonar that answers a ping with the requested values (the ping rate field of its answer
  may be anything) confirms the request in the first attempt, outside master mode 2.
\<close>

theorem echo_is_confirmed:
  assumes "\<And>d. mset (order d) = mset d" and "shots_room s"
    and "socket s \<noteq> None" and "connectionState s = Connected"
    and "config_finite request" and "fm_pingRate request \<noteq> ping_rate_code pingRateStandby"
    and "fm_masterMode request \<noteq> 2"
    and "env 0 = \<lparr>at_send = Sent sizeof_fire, at_before = [], at_answer = Some m\<rparr>"
    and "msgId (header m) = message_type_code messageSimplePingResult"
    and "dec_fire (data m) = Some ((forced_request request)\<lparr>fm_head := header m, fm_pingRate := rate\<rparr>)"
  shows "\<exists>t. request_ping_config order uninit request env s =
     Some (t, Inr ((forced_request request)\<lparr>fm_head := header m\<rparr>))
     \<and> lastConfig t = (forced_request request)\<lparr>fm_head := header m\<rparr>"
proof -
  let ?c = "(forced_request request)\<lparr>fm_head := header m\<rparr>"
  obtain u where send: "send_ping_config (Sent sizeof_fire) (forced_request request) s = (u, Inr True)"
    and rate: "fm_pingRate (lastConfig u) = fm_pingRate request"
    using assms(3,4)
    by (simp add: send_ping_config_def send_def connected_def sizeof_fire_def Let_def
        forced_request_def split: if_splits)
  have new: "new_config m (lastConfig u) = Inr ?c"
    using assms(7,9,10) rate by (simp add: new_config_def Let_def forced_request_def)
  obtain q i where reg: "register_single_shot (messageCallbacks u) (Config_setter (frames_made u)) = Some (q, i)"
    using register_returns assms(2) send_ping_config_room [OF send] by blast
  have "new_config m (lastConfig (waiting_state q uninit u)) = Inr ?c"
    using new by (simp add: waiting_state_def)
  then obtain v where "handle_message order m (waiting_state q uninit u) = Inr v"
    using handle_message_returns by blast
  with current_ping_config_eq [OF reg, of order uninit m] obtain t c
    where cur: "current_ping_config order uninit (Some m) u = Some (t, Inr c)" by auto
  note answer = answer_config [OF assms(1) cur]
  have last: "lastConfig t = ?c" using answer new by (metis Inr_inject)
  with answer have c: "c = ?c \<and> lastConfig t = ?c" by simp
  moreover have "check_config_feedback (forced_request request) ?c"
    using check_config_feedback_echo [of "forced_request request" "header m" "fm_networkSpeed request"]
      assms(5,6,9) by (simp add: config_finite_def forced_request_def)
  ultimately have "request_iteration order uninit (forced_request request) (env 0) s = Some (t, Break ?c)"
    using send cur c assms(8) by (simp add: request_iteration_def)
  then have "request_ping_config order uninit request env s = Some (t, Inr ?c)"
    by (rule request_first_break)
  with c show ?thesis by blast
qed

lemma echo_is_confirmed_witness:
  "\<exists>m t. request_ping_config (\<lambda>d. d) sample_fire (default_ping_config\<lparr>fm_masterMode := 1\<rparr>)
     (\<lambda>_. \<lparr>at_send = Sent sizeof_fire, at_before = [], at_answer = Some m\<rparr>) sample_driver =
     Some (t, Inr (default_ping_config\<lparr>fm_masterMode := 1, fm_head := header m\<rparr>))"
proof -
  let ?r = "default_ping_config\<lparr>fm_masterMode := 1\<rparr>"
  define f where "f = (forced_request ?r)\<lparr>fm_head := fm_head sample_fire, fm_pingRate := 3\<rparr>"
  define m where "m = \<lparr>timestamp = 0, header = fm_head sample_fire, data = enc_fire f\<rparr>"
  have forced: "forced_request ?r = ?r" by (simp add: forced_request_def default_ping_config_def)
  have finite: "config_finite ?r"
    by (simp add: config_finite_def finite_double_def default_ping_config_def fp_eval)
      (rule exI [of _ False], simp)
  have id: "msgId (header m) = message_type_code messageSimplePingResult"
    by (simp add: m_def sample_fire_def)
  have dec: "dec_fire (data m) = Some ((forced_request ?r)\<lparr>fm_head := header m, fm_pingRate := 3\<rparr>)"
    by (simp add: m_def f_def fire_codec.dec_enc_alone)
  let ?env = "\<lambda>_ :: nat. \<lparr>at_send = Sent sizeof_fire, at_before = [], at_answer = Some m\<rparr>"
  have "\<exists>t. request_ping_config (\<lambda>d. d) sample_fire ?r ?env sample_driver =
      Some (t, Inr ((forced_request ?r)\<lparr>fm_head := header m\<rparr>))
      \<and> lastConfig t = (forced_request ?r)\<lparr>fm_head := header m\<rparr>"
    by (rule echo_is_confirmed [OF _ sample_driver_room _ _ finite _ _ _ id dec])
      (simp_all add: default_config_fields)
  then show ?thesis unfolding forced by (intro exI [of _ m]) auto
qed

end
