(* ===== verification/Driver_Machine.thy ===== *)
theory Driver_Machine
  imports Driver_Requests
begin

text \<open>
  The driver as a state machine: the io service completes operations, user threads call the
  methods of \<open>SonarDriver\<close>. Invariants of the reachable states, by rule induction over the
  contract \<open>client_methods\<close> that the driver's virtual methods meet.
\<close>

section \<open>Steps\<close>

text \<open>
  A thread in \<open>current_ping_config\<close> takes two steps, the registration and the return, by a
  message or by a timeout; what happens in between is other steps.
\<close>

definition begin_wait :: "OculusSimpleFireMessage \<Rightarrow> 'a SonarDriver_scheme \<Rightarrow> 'a SonarDriver_scheme option" where
  "begin_wait uninit s =
     map_option (\<lambda>(q, i). waiting_state q uninit s)
       (register_single_shot (messageCallbacks s) (Config_setter (frames_made s)))"

definition end_wait :: "nat \<Rightarrow> 'a SonarDriver_scheme \<Rightarrow> 'a SonarDriver_scheme" where
  "end_wait k s = s\<lparr>frames := (frames s)(k := None)\<rparr>"

inductive driver_step :: "SonarDriver \<Rightarrow> SonarDriver \<Rightarrow> bool" where
  driver_io: "(\<And>d. mset (order d) = mset d)
     \<Longrightarrow> io_step (handle_message order) (on_connect outcome) s t \<Longrightarrow> driver_step s t"
| driver_send: "send_ping_config outcome config s = (t, r) \<Longrightarrow> driver_step s t"
| driver_standby: "standby outcome s = (t, r) \<Longrightarrow> driver_step s t"
| driver_resume: "resume outcome s = (t, r) \<Longrightarrow> driver_step s t"
| driver_add: "add_message_callback (User n) s = Some (t, i)
     \<or> add_ping_callback (User n) s = Some (t, i) \<or> add_dummy_callback (User n) s = Some (t, i)
     \<or> add_config_callback (User n) s = Some (t, i) \<Longrightarrow> driver_step s t"
| driver_remove: "remove_message_callback i s = (t, b) \<or> remove_ping_callback i s = (t, b)
     \<or> remove_dummy_callback i s = (t, b) \<Longrightarrow> driver_step s t"
| driver_on_next: "on_next_message (User n) s = Some t \<or> on_next_ping (User n) s = Some t
     \<or> on_next_dummy (User n) s = Some t \<or> wait_next_message n s = Some t \<Longrightarrow> driver_step s t"
| driver_begin_wait: "begin_wait uninit s = Some t \<Longrightarrow> driver_step s t"
| driver_end_wait: "driver_step s (end_wait k s)"

inductive_cases driver_step_cases: "driver_step s t"

inductive driver_reachable :: "SonarDriver \<Rightarrow> bool" where
  driver_start: "SonarDriver_construct now = Some s \<Longrightarrow> driver_reachable s"
| driver_next: "driver_reachable s \<Longrightarrow> driver_step s t \<Longrightarrow> driver_reachable t"

section \<open>Invariants\<close>

text \<open>Every step that is not one of the io service leaves the client as it is.\<close>

lemma send_ping_config_view:
  "send_ping_config outcome config s = (t, r) \<Longrightarrow> client_view t = client_view s
   \<and> sl_clock (statusListener t) = sl_clock (statusListener s)"
  by (auto simp: send_ping_config_def send_def client_view_def listener_queue_def Let_def
      split: if_splits send_outcome.splits prod.splits)

lemma wait_views:
  "begin_wait uninit s = Some t \<Longrightarrow> client_view t = client_view s"
  "client_view (end_wait k s) = client_view s"
  by (auto simp: begin_wait_def end_wait_def waiting_state_def client_view_def listener_queue_def)

lemma queue_method_views:
  "add_message_callback f s = Some (t, i) \<Longrightarrow> driver_view t = driver_view s \<and> lastConfig t = lastConfig s"
  "add_ping_callback f s = Some (t, i) \<Longrightarrow> driver_view t = driver_view s \<and> lastConfig t = lastConfig s"
  "add_dummy_callback f s = Some (t, i) \<Longrightarrow> driver_view t = driver_view s \<and> lastConfig t = lastConfig s"
  "add_config_callback f s = Some (t, i) \<Longrightarrow> driver_view t = driver_view s \<and> lastConfig t = lastConfig s"
  "remove_message_callback i s = (t, b) \<Longrightarrow> driver_view t = driver_view s \<and> lastConfig t = lastConfig s"
  "remove_ping_callback i s = (t, b) \<Longrightarrow> driver_view t = driver_view s \<and> lastConfig t = lastConfig s"
  "remove_dummy_callback i s = (t, b) \<Longrightarrow> driver_view t = driver_view s \<and> lastConfig t = lastConfig s"
  by (auto simp: add_message_callback_def add_ping_callback_def add_dummy_callback_def
      add_config_callback_def remove_message_callback_def remove_ping_callback_def
      remove_dummy_callback_def split: prod.splits)

lemma on_next_views:
  "on_next_message f s = Some t \<Longrightarrow> driver_view t = driver_view s \<and> lastConfig t = lastConfig s"
  "on_next_ping f s = Some t \<Longrightarrow> driver_view t = driver_view s \<and> lastConfig t = lastConfig s"
  "on_next_dummy f s = Some t \<Longrightarrow> driver_view t = driver_view s \<and> lastConfig t = lastConfig s"
  "wait_next_message n s = Some t \<Longrightarrow> driver_view t = driver_view s \<and> lastConfig t = lastConfig s"
  by (auto simp: on_next_message_def on_next_ping_def on_next_dummy_def wait_next_message_def)

lemma driver_view_client: "driver_view t = driver_view s \<Longrightarrow> client_view t = client_view s"
  by (simp add: driver_view_def)

lemma driver_step_view:
  assumes "driver_step s t"
  shows "(\<exists>order outcome. io_step (handle_message order) (on_connect outcome) s t
      \<and> (\<forall>d. mset (order d) = mset d)) \<or> client_view t = client_view s"
  using assms
proof cases
  case (driver_io order outcome)
  then show ?thesis by blast
next
  case driver_send
  then show ?thesis using send_ping_config_view by blast
next
  case driver_standby
  then show ?thesis unfolding standby_def using send_ping_config_view by blast
next
  case driver_resume
  then show ?thesis unfolding resume_def using send_ping_config_view by blast
next
  case driver_add
  then have "driver_view t = driver_view s \<and> lastConfig t = lastConfig s"
    by (elim disjE) (rule queue_method_views, assumption)+
  then show ?thesis using driver_view_client by blast
next
  case driver_remove
  then have "driver_view t = driver_view s \<and> lastConfig t = lastConfig s"
    by (elim disjE) (rule queue_method_views, assumption)+
  then show ?thesis using driver_view_client by blast
next
  case driver_on_next
  then have "driver_view t = driver_view s \<and> lastConfig t = lastConfig s"
    by (elim disjE) (rule on_next_views, assumption)+
  then show ?thesis using driver_view_client by blast
qed (auto simp: wait_views)

lemma driver_step_inv: "driver_step s t \<Longrightarrow> client_inv s \<Longrightarrow> client_inv t"
  using driver_step_view [of s t] virtual.io_step_inv client_view_inv by metis

lemma driver_start_inv: "SonarDriver_construct now = Some s \<Longrightarrow> client_inv s"
proof -
  assume "SonarDriver_construct now = Some s"
  then obtain c where c: "SonarClient_construct now = Some c"
    and parts: "socket s = socket c" "connectionState s = connectionState c"
      "statusListener s = statusListener c" "statusCallbackId s = statusCallbackId c"
      "pending s = pending c"
    by (auto simp: SonarDriver_construct_def SonarClient.defs)
  from construct_inv [OF c] parts show ?thesis
    by (simp add: client_inv_defs)
qed

lemma driver_reachable_inv: "driver_reachable s \<Longrightarrow> client_inv s"
  by (induction rule: driver_reachable.induct) (auto intro: driver_start_inv driver_step_inv)

text \<open>The driver just made, for the examples.\<close>

definition fresh_driver :: SonarDriver where
  "fresh_driver = the (SonarDriver_construct 0)"

lemma fresh_driver_constructed: "SonarDriver_construct 0 = Some fresh_driver"
  by (simp add: fresh_driver_def SonarDriver_construct_def SonarClient_construct_def client_init_def
      Let_def reset_connection_def StatusListener_add_callback_def close_connection_def listener_queue_def empty_queue_def
      add_callback_def add_entry_def free_id_start put_listener_queue_def)

lemma fresh_driver_state: "connectionState fresh_driver = Attempt"
  by (simp add: fresh_driver_def SonarDriver_construct_def SonarClient_construct_def client_init_def
      Let_def reset_connection_def StatusListener_add_callback_def close_connection_def listener_queue_def empty_queue_def
      add_callback_def add_entry_def free_id_start put_listener_queue_def SonarClient.defs)

lemma fresh_driver_reachable: "driver_reachable fresh_driver"
  using driver_start [OF fresh_driver_constructed] .

section \<open>The connection\<close>

text \<open>
  C8: in every state the driver can reach, the watchdog has exactly one wait under way and the
  status listener exactly one receive, so neither loop ever stops or doubles.
\<close>

theorem watchdog_and_listener_run:
  assumes "driver_reachable s"
  shows "count_list (pending s) Timer_wait = 1 \<and> count_list (pending s) Status_receive = 1"
  using driver_reachable_inv [OF assms] by (simp add: client_inv_def waits_def)

lemma watchdog_and_listener_run_witness:
  "count_list (pending fresh_driver) Timer_wait = 1 \<and> count_list (pending fresh_driver) Status_receive = 1"
  by (rule watchdog_and_listener_run [OF fresh_driver_reachable])



text \<open>
  The connection state moves only along the edges of its diagram, and leaves \<open>Connected\<close> or
  \<open>Lost\<close> only if the watchdog's clocks say so: a lost connection goes back to an attempt,
  never straight to connected.
\<close>

theorem connection_state_diagram:
  assumes "driver_reachable s" and "driver_step s t"
  shows "\<exists>now. transition_ok (longer_than 5 now (sl_clock (statusListener s)))
     (longer_than 10 now (clock s)) (connectionState s) (connectionState t)"
proof -
  from driver_step_view [OF assms(2)] have "state_change s t"
  proof
    assume "client_view t = client_view s"
    then show ?thesis by (intro state_change_same) (simp add: client_view_def)
  qed (use virtual.io_step_change driver_reachable_inv [OF assms(1)] in blast)
  then show ?thesis by (simp add: state_change_def)
qed

lemma connection_state_diagram_witness:
  "connectionState (end_wait 0 fresh_driver) \<in> {Attempt, Connected}"
  using connection_state_diagram [OF fresh_driver_reachable driver_end_wait [of fresh_driver 0]]
  by (cases "connectionState (end_wait 0 fresh_driver)") (simp_all add: fresh_driver_state)

text \<open>
  As long as the watchdog finds that messages still arrive, a driver whose connection was
  declared lost stays lost, and sends nothing, even when the status messages are back.
\<close>

theorem lost_while_receiving:
  assumes "driver_reachable s" and "connectionState s = Lost"
    and "\<not> longer_than 10 now (clock s)"
    and "checker_callback now outcome (finish_op Timer_wait s) = Some t"
  shows "connectionState t = Lost
     \<and> (\<forall>o' config. send_ping_config o' config t = (t, Inr False))"
proof -
  have "connectionState t = Lost"
    using assms(2-4) by (auto simp: checker_callback_def Let_def start_op_def finish_op_def
        split: if_splits)
  then show ?thesis
    by (simp add: send_ping_config_def send_def connected_def sizeof_fire_def)
qed

section \<open>The ping rate\<close>

lemma driver_view_rate:
  "driver_view t = driver_view s \<Longrightarrow> lastConfig t = lastConfig s \<Longrightarrow> rate_inv t = rate_inv s"
  by (simp add: driver_view_def rate_inv_def)

text \<open>The handlers of the client change the configuration only through the virtual methods.\<close>

definition rate_view :: "'a SonarDriver_scheme \<Rightarrow> OculusSimpleFireMessage \<times> u8" where
  "rate_view s = (lastConfig s, lastPingRate s)"

lemma rate_view_inv: "rate_view t = rate_view s \<Longrightarrow> rate_inv t = rate_inv s"
  by (simp add: rate_view_def rate_inv_def)

lemma client_ops_rate [simp]:
  "rate_view (start_op op s) = rate_view s" "rate_view (finish_op op s) = rate_view s"
  "rate_view (put_listener_queue ql s) = rate_view s"
  "rate_view (close_connection out s) = rate_view s" "rate_view (initiate_receive s) = rate_view s"
  "rate_view (get_one_message s) = rate_view s" "rate_view (on_first_status st s) = rate_view s"
  by (simp_all add: rate_view_def start_op_def finish_op_def put_listener_queue_def
      close_connection_def initiate_receive_def get_one_message_def on_first_status_def Let_def
      split: option.split shutdown_outcome.split)

lemma client_updates_rate [simp]:
  "rate_view (s\<lparr>connectionState := c\<rparr>) = rate_view s" "rate_view (s\<lparr>message := m\<rparr>) = rate_view s"
  "rate_view (s\<lparr>statusListener := l\<rparr>) = rate_view s" "rate_view (s\<lparr>statusCallbackId := i\<rparr>) = rate_view s"
  "rate_view (s\<lparr>clock := t, handled := ms\<rparr>) = rate_view s"
  "rate_view (s\<lparr>clock := t, connectionState := c\<rparr>) = rate_view s"
  "rate_view (s\<lparr>user_status := u\<rparr>) = rate_view s"
  by (simp_all add: rate_view_def)

lemma checker_rate: "checker_callback now out s = Some t \<Longrightarrow> rate_view t = rate_view s"
  by (auto simp: checker_callback_def reset_connection_def StatusListener_add_callback_def Let_def
      split: if_splits option.splits prod.splits)

lemma status_rate: "rate_view (status_message_callback order now err dg s) = rate_view s"
proof -
  have "rate_view (run_status_callback st f s) = rate_view s" for st f and s :: "'a SonarDriver_scheme"
    by (simp add: run_status_callback_def split: status_callback.split)
  then show ?thesis
    by (simp add: status_message_callback_def Let_def call_queue_keep [of rate_view] split: option.split)
qed

lemma header_rate: "header_received_callback now bs s = Inr t \<Longrightarrow> rate_view t = rate_view s"
  by (auto simp: header_received_callback_def Let_def split: if_splits option.splits)

lemma data_rate_inv:
  assumes "data_received_callback (handle_message order) now bs s = Inr t" and "rate_inv s"
  shows "rate_inv t"
proof -
  let ?s = "s\<lparr>message := store_payload bs (message s)\<rparr>"
  let ?r = "?s\<lparr>clock := now, handled := handled ?s @ [message ?s]\<rparr>"
  have r: "rate_inv ?r" using assms(2) by (simp add: rate_inv_def)
  have recv: "rate_inv (initiate_receive u) = rate_inv u" for u :: "'a SonarDriver_scheme"
    by (rule rate_view_inv) simp
  have m: "rate_inv ?s" using assms(2) by (simp add: rate_inv_def)
  show ?thesis
  proof (cases "length bs = unat (payloadSize (header (message ?s)))")
    case True
    with assms(1) obtain u where "handle_message order (message ?s) ?r = Inr u" "t = initiate_receive u"
      by (auto simp: data_received_callback_def Let_def bindR_Inr_iff)
    with r handle_message_rate_inv recv show ?thesis by blast
  next
    case False
    then have "t = initiate_receive ?s"
      using assms(1) by (simp add: data_received_callback_def Let_def)
    with m recv show ?thesis by simp
  qed
qed

lemma connect_rate_inv:
  assumes "connect_callback (on_connect outcome) now err s = Inr t" and "rate_inv s"
  shows "rate_inv t"
proof -
  let ?u = "initiate_receive (s\<lparr>clock := now, connectionState := Connected\<rparr>)"
  have "rate_view ?u = rate_view s" by (simp add: rate_view_def initiate_receive_def start_op_def
        split: option.split)
  with assms(2) rate_view_inv have "rate_inv ?u" by blast
  moreover obtain r where "send_ping_config outcome (lastConfig ?u) ?u = (t, r)"
    using assms(1) by (auto simp: connect_callback_def on_connect_def split: if_splits prod.splits sum.splits)
  ultimately show ?thesis using send_ping_config_rate_inv by blast
qed

lemma io_step_rate_inv:
  assumes "io_step (handle_message order) (on_connect outcome) s t" and "rate_inv s"
  shows "rate_inv t"
  using assms(1)
proof cases
  case io_timer
  then show ?thesis using checker_rate rate_view_inv assms(2) by (metis client_ops_rate(2))
next
  case io_status
  then show ?thesis using status_rate rate_view_inv assms(2) by (metis client_ops_rate(2))
next
  case (io_connect k now err)
  moreover have "rate_inv (finish_op (Async_connect k) s)"
    using rate_view_inv assms(2) by (metis client_ops_rate(2))
  ultimately show ?thesis using connect_rate_inv by blast
next
  case io_header
  then show ?thesis using header_rate rate_view_inv assms(2) by (metis client_ops_rate(2))
next
  case (io_payload k n bs now)
  moreover have "rate_inv (finish_op (Read_payload k n) s)"
    using rate_view_inv assms(2) by (metis client_ops_rate(2))
  ultimately show ?thesis using data_rate_inv by blast
next
  case user_send
  then have "rate_view t = rate_view s"
    by (auto simp: send_def rate_view_def split: if_splits send_outcome.splits)
  then show ?thesis using rate_view_inv assms(2) by blast
qed (use assms(2) rate_view_inv client_ops_rate(3) listener_ops_put in metis)+

lemma driver_step_rate_inv:
  assumes "driver_step s t" and "rate_inv s"
  shows "rate_inv t"
  using assms(1)
proof cases
  case driver_io
  then show ?thesis using io_step_rate_inv assms(2) by blast
next
  case driver_send
  then show ?thesis using send_ping_config_rate_inv assms(2) by blast
next
  case driver_standby
  then show ?thesis unfolding standby_def using send_ping_config_rate_inv assms(2) by blast
next
  case driver_resume
  then show ?thesis unfolding resume_def using send_ping_config_rate_inv assms(2) by blast
next
  case driver_add
  then have "driver_view t = driver_view s \<and> lastConfig t = lastConfig s"
    by (elim disjE) (rule queue_method_views, assumption)+
  then show ?thesis using driver_view_rate assms(2) by blast
next
  case driver_remove
  then have "driver_view t = driver_view s \<and> lastConfig t = lastConfig s"
    by (elim disjE) (rule queue_method_views, assumption)+
  then show ?thesis using driver_view_rate assms(2) by blast
next
  case driver_on_next
  then have "driver_view t = driver_view s \<and> lastConfig t = lastConfig s"
    by (elim disjE) (rule on_next_views, assumption)+
  then show ?thesis using driver_view_rate assms(2) by blast
next
  case driver_begin_wait
  then have "rate_view t = rate_view s"
    by (auto simp: begin_wait_def waiting_state_def rate_view_def)
  then show ?thesis using assms(2) rate_view_inv by blast
next
  case driver_end_wait
  then show ?thesis using assms(2) by (simp add: end_wait_def rate_inv_def)
qed

text \<open>
  In every reachable state the rate to resume is no standby, and it is the current rate
  unless the sonar is in standby.
\<close>

theorem resume_rate_is_the_last_active_rate:
  assumes "driver_reachable s"
  shows "lastPingRate s \<noteq> ping_rate_code pingRateStandby
     \<and> (fm_pingRate (lastConfig s) \<noteq> ping_rate_code pingRateStandby
        \<longrightarrow> lastPingRate s = fm_pingRate (lastConfig s))"
proof -
  have "rate_inv s" using assms
    by (induction rule: driver_reachable.induct) (auto intro: construct_rate_inv driver_step_rate_inv)
  then show ?thesis by (auto simp: rate_inv_def)
qed

lemma resume_rate_is_the_last_active_rate_witness:
  "lastPingRate fresh_driver \<noteq> ping_rate_code pingRateStandby"
  using resume_rate_is_the_last_active_rate [OF fresh_driver_reachable] by blast

end
