(* ===== verification/Driver_Traces.thy ===== *)
theory Driver_Traces
  imports Driver_Machine
begin

text \<open>
  A run of the driver that the invariants of \<open>Driver_Machine\<close> do not exclude: after a reset of
  a broken connection, two reception loops read the same socket.
\<close>

section \<open>What single steps do\<close>

text \<open>The part of the state a run of the connection is about.\<close>

definition link :: "'a SonarClient_scheme \<Rightarrow>
    nat option \<times> nat \<times> ConnectionState \<times> async_op list \<times> status_callback callback_dict
    \<times> callback_id \<times> int \<times> int" where
  "link s = (socket s, sockets_made s, connectionState s, pending s, callbacks (listener_queue s),
     statusCallbackId s, clock s, sl_clock (statusListener s))"

definition quiet :: "'a SonarClient_scheme \<Rightarrow> bool" where
  "quiet s \<longleftrightarrow> single_shots (listener_queue s) = []"

lemma status_step:
  fixes st :: OculusStatusMsg
  assumes "link s = (so, n, c, ps, cs, i, ck, sl)" and "quiet s" and "Status_receive \<in> set ps"
    and "cs = [] \<or> cs = [(i, On_first_status)]"
  shows "\<exists>t. driver_step s t \<and> quiet t
     \<and> link t = (if cs = [] then (so, n, c, Status_receive # remove1 Status_receive ps, [], i, ck, now)
        else (Some n, Suc n, c, Status_receive # Async_connect n # remove1 Status_receive ps, [], i, ck, now))"
proof -
  let ?t = "status_message_callback (\<lambda>d. d) now False (enc_status st) (finish_op Status_receive s)"
  have "io_step (handle_message (\<lambda>d. d)) (on_connect (Sent 0)) s ?t"
    using assms(1,3) by (intro io_status) (auto simp: link_def)
  then have "driver_step s ?t" by (intro driver_io [where order = "\<lambda>d. d"]) simp
  moreover have "quiet ?t \<and> link ?t = (if cs = []
      then (so, n, c, Status_receive # remove1 Status_receive ps, [], i, ck, now)
      else (Some n, Suc n, c, Status_receive # Async_connect n # remove1 Status_receive ps, [], i, ck, now))"
    using assms by (auto simp: status_message_callback_def status_codec.dec_enc_alone sizeof_status_def
        status_codec.enc_length link_def quiet_def Let_def call_queue_def run_entries_def run_status_callback_def
        on_first_status_def get_one_message_def start_op_def finish_op_def listener_queue_def
        put_listener_queue_def remove_callback_def)
  ultimately show ?thesis by blast
qed

lemma connect_step:
  assumes "link s = (Some k, n, c, ps, cs, i, ck, sl)" and "quiet s" and "Async_connect k \<in> set ps"
  shows "\<exists>t. driver_step s t \<and> quiet t
     \<and> link t = (Some k, n, Connected, Read_header k # remove1 (Async_connect k) ps, cs, i, now, sl)"
proof -
  let ?u = "initiate_receive ((finish_op (Async_connect k) s)\<lparr>clock := now, connectionState := Connected\<rparr>)"
  obtain t r where t: "send_ping_config (Sent 0) (lastConfig ?u) ?u = (t, r)" by fastforce
  have r: "r = Inr False" "link t = link ?u" "quiet t = quiet ?u"
    using t assms(1) by (auto simp: send_ping_config_def send_def sizeof_fire_def link_def
        quiet_def listener_queue_def split: if_splits)
  have "connect_callback (on_connect (Sent 0)) now False (finish_op (Async_connect k) s) = Inr t"
    using t r by (simp add: connect_callback_def on_connect_def)
  then have "io_step (handle_message (\<lambda>d. d)) (on_connect (Sent 0)) s t"
    using assms(1,3) by (intro io_connect) (auto simp: link_def)
  then have "driver_step s t" by (intro driver_io [where order = "\<lambda>d. d"]) simp
  moreover have "link ?u = (Some k, n, Connected, Read_header k # remove1 (Async_connect k) ps, cs, i, now, sl)"
    "quiet ?u"
    using assms by (simp_all add: link_def quiet_def initiate_receive_def start_op_def finish_op_def
        listener_queue_def)
  ultimately show ?thesis using r by auto
qed

lemma reset_step:
  assumes "link s = (so, n, Connected, ps, [], i, ck, sl)" and "quiet s" and "Timer_wait \<in> set ps"
    and "\<not> longer_than 5 now sl" and "longer_than 10 now ck"
  shows "\<exists>t. driver_step s t \<and> quiet t \<and> link t =
     (so, n, Attempt, Timer_wait # remove1 Timer_wait ps, [(0, On_first_status)], 0, ck, sl)"
proof -
  let ?s = "start_op Timer_wait (finish_op Timer_wait s)"
  let ?t = "(put_listener_queue ((listener_queue s)\<lparr>callbacks := [(0, On_first_status)]\<rparr>)
      (?s\<lparr>connectionState := Attempt\<rparr>))\<lparr>statusCallbackId := 0\<rparr>"
  have "reset_connection Shutdown_error ?s = Some ?t"
    using assms(1)
    by (auto simp: reset_connection_def StatusListener_add_callback_def close_connection_def Let_def add_callback_def add_entry_def
        link_def free_id_start listener_queue_def start_op_def finish_op_def split: option.split)
  then have "checker_callback now Shutdown_error (finish_op Timer_wait s) = Some ?t"
    using assms(1,4,5)
    by (simp add: checker_callback_def Let_def link_def, simp add: start_op_def finish_op_def)
  then have "io_step (handle_message (\<lambda>d. d)) (on_connect (Sent 0)) s ?t"
    using assms(1,3) by (intro io_timer) (auto simp: link_def)
  then have "driver_step s ?t" by (intro driver_io [where order = "\<lambda>d. d"]) simp
  moreover have "quiet ?t \<and> link ?t =
     (so, n, Attempt, Timer_wait # remove1 Timer_wait ps, [(0, On_first_status)], 0, ck, sl)"
    using assms(1,2)
    by (auto simp: link_def quiet_def put_listener_queue_def start_op_def finish_op_def listener_queue_def)
  ultimately show ?thesis by blast
qed

lemma aborted_read_step:
  assumes "link s = (Some k, n, c, ps, cs, i, ck, sl)" and "quiet s" and "Read_header j \<in> set ps"
  shows "\<exists>t. driver_step s t \<and> quiet t
     \<and> link t = (Some k, n, c, Read_header k # remove1 (Read_header j) ps, cs, i, ck, sl)"
proof -
  let ?t = "initiate_receive ((finish_op (Read_header j) s)
      \<lparr>message := store_header [] (message (finish_op (Read_header j) s))\<rparr>)"
  have "header_received_callback now [] (finish_op (Read_header j) s) = Inr ?t" for now
    by (simp add: header_received_callback_def Let_def sizeof_header_def)
  then have "io_step (handle_message (\<lambda>d. d)) (on_connect (Sent 0)) s ?t"
    using assms(1,3) by (intro io_header) (auto simp: link_def)
  then have "driver_step s ?t" by (intro driver_io [where order = "\<lambda>d. d"]) simp
  moreover have "quiet ?t \<and> link ?t = (Some k, n, c, Read_header k # remove1 (Read_header j) ps, cs, i, ck, sl)"
    using assms(1,2) by (simp add: link_def quiet_def initiate_receive_def start_op_def finish_op_def
        listener_queue_def)
  ultimately show ?thesis by blast
qed

lemma lost_step:
  assumes "link s = (so, n, Connected, ps, cs, i, ck, sl)" and "quiet s" and "Timer_wait \<in> set ps"
    and "longer_than 5 now sl"
  shows "\<exists>t. driver_step s t \<and> quiet t \<and> link t = (so, n, Lost, Timer_wait # remove1 Timer_wait ps, cs, i, ck, sl)"
proof -
  let ?t = "(start_op Timer_wait (finish_op Timer_wait s))\<lparr>connectionState := Lost\<rparr>"
  have "checker_callback now Shutdown_error (finish_op Timer_wait s) = Some ?t"
    using assms(1,4) by (simp add: checker_callback_def Let_def link_def, simp add: start_op_def finish_op_def)
  then have "io_step (handle_message (\<lambda>d. d)) (on_connect (Sent 0)) s ?t"
    using assms(1,3) by (intro io_timer) (auto simp: link_def)
  then have "driver_step s ?t" by (intro driver_io [where order = "\<lambda>d. d"]) simp
  moreover have "quiet ?t \<and> link ?t = (so, n, Lost, Timer_wait # remove1 Timer_wait ps, cs, i, ck, sl)"
    using assms(1,2) by (auto simp: link_def quiet_def start_op_def finish_op_def listener_queue_def)
  ultimately show ?thesis by blast
qed

lemma fresh_driver_link:
  "quiet fresh_driver
   \<and> link fresh_driver = (None, 0, Attempt, [Timer_wait, Status_receive], [(0, On_first_status)], 0, 0, 0)"
  by (simp add: fresh_driver_def SonarDriver_construct_def SonarClient_construct_def client_init_def
      Let_def reset_connection_def StatusListener_add_callback_def close_connection_def listener_queue_def empty_queue_def
      add_callback_def add_entry_def free_id_start put_listener_queue_def link_def quiet_def
      SonarClient.defs)

lemma connected_reachable:
  "\<exists>s. driver_reachable s \<and> quiet s
     \<and> link s = (Some 0, 1, Connected, [Read_header 0, Status_receive, Timer_wait], [], 0, 0, 0)"
proof -
  note s0 = fresh_driver_link [THEN conjunct1] fresh_driver_link [THEN conjunct2]
  obtain s1 where s1: "driver_reachable s1" "quiet s1"
    "link s1 = (Some 0, 1, Attempt, [Status_receive, Async_connect 0, Timer_wait], [], 0, 0, 0)"
    using status_step [OF s0(2,1), of 0] driver_next [OF fresh_driver_reachable] by auto
  show ?thesis using connect_step [OF s1(3,2), of 0] driver_next [OF s1(1)] by auto
qed

section \<open>The run\<close>

lemma eleven_seconds: "longer_than 10 11000000000 0" "\<not> longer_than 5 11000000000 11000000000"
  by (simp_all add: longer_than_def clock_now_def fp_eval)

text \<open>
  Two reception loops can read one socket. When the watchdog resets a connection whose
  socket does not shut down cleanly, the read of the old socket stays under way; the new
  socket of the next attempt aborts it, its handler starts a read on the new socket, and the
  connection starts another.
\<close>

theorem reset_can_double_the_reception:
  "\<exists>s. driver_reachable s \<and> connectionState s = Connected \<and> socket s = Some 1
     \<and> count_list (pending s) (Read_header 1) = 2"
proof -
  obtain s2 where s2: "driver_reachable s2" "quiet s2"
    "link s2 = (Some 0, 1, Connected, [Read_header 0, Status_receive, Timer_wait], [], 0, 0, 0)"
    using connected_reachable by blast
  obtain s3 where s3: "driver_reachable s3" "quiet s3"
    "link s3 = (Some 0, 1, Connected, [Status_receive, Read_header 0, Timer_wait], [], 0, 0, 11000000000)"
    using status_step [OF s2(3,2), of 11000000000] driver_next [OF s2(1)] by auto
  obtain s4 where s4: "driver_reachable s4" "quiet s4"
    "link s4 = (Some 0, 1, Attempt, [Timer_wait, Status_receive, Read_header 0], [(0, On_first_status)],
       0, 0, 11000000000)"
    using reset_step [OF s3(3,2) _ eleven_seconds(2,1)] driver_next [OF s3(1)] by auto
  obtain s5 where s5: "driver_reachable s5" "quiet s5"
    "link s5 = (Some 1, 2, Attempt, [Status_receive, Async_connect 1, Timer_wait, Read_header 0], [],
       0, 0, 11000000000)"
    using status_step [OF s4(3,2), of 11000000000] driver_next [OF s4(1)] by (auto simp: numeral_2_eq_2)
  obtain s6 where s6: "driver_reachable s6" "quiet s6"
    "link s6 = (Some 1, 2, Attempt, [Read_header 1, Status_receive, Async_connect 1, Timer_wait], [],
       0, 0, 11000000000)"
    using aborted_read_step [OF s5(3,2), of 0] driver_next [OF s5(1)] by auto
  obtain s7 where "driver_reachable s7"
    "link s7 = (Some 1, 2, Connected, [Read_header 1, Read_header 1, Status_receive, Timer_wait], [],
       0, 11000000000, 11000000000)"
    using connect_step [OF s6(3,2), of 11000000000] driver_next [OF s6(1)] by auto
  then show ?thesis by (intro exI [of _ s7]) (simp add: link_def)
qed

section \<open>A lost connection\<close>

lemma six_seconds: "\<not> longer_than 10 6000000000 0" "longer_than 5 6000000000 0"
  by (simp_all add: longer_than_def clock_now_def fp_eval)

lemma lost_while_receiving_witness:
  "\<exists>s t. driver_reachable s
     \<and> checker_callback 6000000000 Shutdown_closed (finish_op Timer_wait s) = Some t
     \<and> connectionState t = Lost \<and> send_ping_config (Sent sizeof_fire) default_ping_config t = (t, Inr False)"
proof -
  obtain s where s: "driver_reachable s" "quiet s"
    "link s = (Some 0, 1, Connected, [Read_header 0, Status_receive, Timer_wait], [], 0, 0, 0)"
    using connected_reachable by blast
  obtain u where u: "driver_reachable u" and link: "link u =
      (Some 0, 1, Lost, [Timer_wait, Read_header 0, Status_receive], [], 0, 0, 0)"
    using lost_step [OF s(3,2) _ six_seconds(2)] driver_next [OF s(1)] by auto
  have lost: "connectionState u = Lost" and clock: "\<not> longer_than 10 6000000000 (clock u)"
    using link six_seconds(1) by (simp_all add: link_def)
  have "\<exists>t. checker_callback 6000000000 Shutdown_closed (finish_op Timer_wait u) = Some t"
    using link six_seconds
    by (simp add: checker_callback_def Let_def link_def) (simp add: start_op_def finish_op_def)
  then obtain t where t: "checker_callback 6000000000 Shutdown_closed (finish_op Timer_wait u) = Some t"
    by blast
  from lost_while_receiving [OF u lost clock t] u t show ?thesis by blast
qed

end
