(* ===== verification/Driver_Reconnect.thy ===== *)
theory Driver_Reconnect
  imports Driver_Traces
begin

text \<open>
  How a connection comes back: the watchdog resets it, a status datagram announces the sonar,
  the connection is made and the driver sends its configuration. Each of the three handlers
  leaves what the next one needs, whatever else the driver was doing.
\<close>

section \<open>The first status\<close>

lemma run_user_statuses_eq:
  assumes "On_first_status \<notin> snd ` set d"
  shows "\<exists>us. run_entries (run_status_callback msg) d s = s\<lparr>user_status := us\<rparr>"
  using assms
proof (induction d arbitrary: s)
  case Nil
  then show ?case by (intro exI [of _ "user_status s"]) (simp add: run_entries_def)
next
  case (Cons e d)
  then obtain n where "snd e = User_status n" by (cases "snd e") (auto simp: image_iff)
  then have "run_entries (run_status_callback msg) (e # d) s =
      run_entries (run_status_callback msg) d (s\<lparr>user_status := user_status s @ [(n, msg)]\<rparr>)"
    by (simp add: run_entries_def run_status_callback_def)
  moreover have "On_first_status \<notin> snd ` set d" using Cons.prems by simp
  from Cons.IH [OF this, of "s\<lparr>user_status := user_status s @ [(n, msg)]\<rparr>"] obtain us where
    "run_entries (run_status_callback msg) d (s\<lparr>user_status := user_status s @ [(n, msg)]\<rparr>) =
      s\<lparr>user_status := us\<rparr>" by auto
  ultimately show ?case by metis
qed

text \<open>Among the callbacks of a status, the client's own one runs once.\<close>

lemma run_first_status:
  assumes "own_entries s = [(i, On_first_status)]" and "mset d = mset (callbacks (listener_queue s))"
  shows "\<exists>us vs. run_entries (run_status_callback msg) d s =
     (on_first_status msg (s\<lparr>user_status := us\<rparr>))\<lparr>user_status := vs\<rparr>"
proof -
  have one: "length (filter (\<lambda>e. snd e = On_first_status) d) = 1"
    using own_entries_mset [OF assms(2)] assms(1) by (metis length_Cons list.size(3) One_nat_def size_mset)
  then obtain e where e: "e \<in> set d" "snd e = On_first_status"
    by (metis (mono_tags, lifting) filter_False list.size(3) zero_neq_one)
  then obtain d1 d2 where d: "d = d1 @ e # d2" by (meson split_list)
  with one e have rest: "On_first_status \<notin> snd ` set d1" "On_first_status \<notin> snd ` set d2"
    by (auto simp: filter_empty_conv)
  have "run_entries (run_status_callback msg) d s = run_entries (run_status_callback msg) d2
      (on_first_status msg (run_entries (run_status_callback msg) d1 s))"
    using e(2) by (simp add: d run_entries_def run_status_callback_def)
  then show ?thesis
    using run_user_statuses_eq [OF rest(1), of msg s] run_user_statuses_eq [OF rest(2)] by metis
qed

text \<open>What the handlers after it depend on.\<close>

definition contact :: "'a SonarDriver_scheme \<Rightarrow>
    nat option \<times> u16 \<times> u32 \<times> ConnectionState \<times> byte list \<times> OculusSimpleFireMessage" where
  "contact s = (socket s, sonarId s, remote_ip s, connectionState s, wire s, lastConfig s)"

lemma status_datagram:
  "length (enc_status msg) = sizeof_status" "dec_status (enc_status msg) = Some msg"
  by (simp_all add: status_codec.dec_enc_alone sizeof_status_def status_codec.enc_length)

lemma first_status_contact:
  assumes "client_inv s" and "connectionState s = Attempt" and "own_entries s \<noteq> []"
    and "\<And>d. mset (order d) = mset d"
    and datagram: "length datagram = sizeof_status" "dec_status datagram = Some msg"
    and t: "t = status_message_callback order now False datagram (finish_op Status_receive s)"
  shows "contact t = (Some (sockets_made s), srcDeviceId (st_hdr msg), st_ipAddr msg, Attempt, wire s, lastConfig s)
     \<and> Async_connect (sockets_made s) \<in> set (pending t)"
proof -
  let ?c = "(finish_op Status_receive s)
      \<lparr>statusListener := (statusListener (finish_op Status_receive s))\<lparr>sl_clock := now\<rparr>\<rparr>"
  let ?run = "run_entries (run_status_callback msg)"
  let ?u = "?run (order (callbacks (listener_queue ?c))) ?c"
  have v: "client_view ?c = client_view (finish_op Status_receive s)"
    by (simp add: client_view_def listener_queue_def)
  have inv: "listener_inv ?c" "attempt_inv ?c"
    using assms(1) client_view_parts [OF v] by (auto simp: client_inv_def attempt_finish)
  have "own_entries ?c = own_entries s" by (simp add: own_entries_def finish_op_def listener_queue_def)
  moreover have "own_entries s = [(statusCallbackId s, On_first_status)]"
    using assms(1-3) by (auto simp: client_inv_def attempt_inv_def)
  ultimately obtain us vs where u: "?u = (on_first_status msg (?c\<lparr>user_status := us\<rparr>))\<lparr>user_status := vs\<rparr>"
    using run_first_status [of ?c "statusCallbackId s" "order (callbacks (listener_queue ?c))" msg] assms(4)
    by auto
  have "listener_inv ?u" using run_status_callbacks_parts [OF inv assms(4) refl] by blast
  then have "On_first_status \<notin> snd ` set (order (single_shots (listener_queue ?u)))"
    using assms(4) mset_eq_setD unfolding listener_inv_def by metis
  then obtain ws where w: "?run (order (single_shots (listener_queue ?u))) ?u = ?u\<lparr>user_status := ws\<rparr>"
    using run_user_statuses_eq by blast
  have "t = get_one_message (put_listener_queue
      ((listener_queue (?u\<lparr>user_status := ws\<rparr>))\<lparr>single_shots := [], sshots_called := True\<rparr>) (?u\<lparr>user_status := ws\<rparr>))"
    unfolding t status_message_callback_def
    by (simp add: datagram call_queue_def w Let_def)
  then show ?thesis
    using assms(2)
    by (simp add: u contact_def get_one_message_def start_op_def put_listener_queue_def on_first_status_def Let_def)
      (simp add: finish_op_def)
qed

section \<open>The watchdog and the connection\<close>

lemma checker_starts_attempt:
  assumes "client_inv s" and "connectionState s = Connected \<or> connectionState s = Lost"
    and "\<not> longer_than 5 now (sl_clock (statusListener s))" and "longer_than 10 now (clock s)"
    and "checker_callback now outcome (finish_op Timer_wait s) = Some a"
  shows "connectionState a = Attempt \<and> own_entries a \<noteq> []
     \<and> sockets_made a = sockets_made s \<and> wire a = wire s \<and> lastConfig a = lastConfig s"
proof -
  let ?s = "start_op Timer_wait (finish_op Timer_wait s)"
  let ?c = "close_connection outcome (?s\<lparr>connectionState := Attempt\<rparr>)"
  have "sl_clock (statusListener ?s) = sl_clock (statusListener s)" "clock ?s = clock s"
    by (simp_all add: start_op_def finish_op_def)
  then have reset: "reset_connection outcome ?s = Some a"
    using assms(2-5) by (auto simp: checker_callback_def Let_def)
  then have "own_entries a \<noteq> []" by (rule reset_registers)
  moreover from reset obtain q i where "a = (put_listener_queue q ?c)\<lparr>statusCallbackId := i\<rparr>"
    by (auto simp: reset_connection_def Let_def StatusListener_add_callback_def
        split: option.splits prod.splits)
  ultimately show ?thesis
    by (simp add: put_listener_queue_def close_connection_def start_op_def finish_op_def
        split: shutdown_outcome.split)
qed

lemma checker_registers:
  assumes "\<not> longer_than 5 now (sl_clock (statusListener s))" and "longer_than 10 now (clock s)"
    and "callbacks (listener_queue s) = []"
  shows "\<exists>a. checker_callback now outcome (finish_op Timer_wait s) = Some a"
proof -
  let ?s = "start_op Timer_wait (finish_op Timer_wait s)"
  have "sl_clock (statusListener ?s) = sl_clock (statusListener s)" "clock ?s = clock s"
    by (simp_all add: start_op_def finish_op_def)
  moreover have "listener_queue (close_connection outcome (?s\<lparr>connectionState := Attempt\<rparr>)) = listener_queue s"
    by (simp add: close_connection_fields) (simp add: listener_queue_def start_op_def finish_op_def)
  then have "\<exists>a. reset_connection outcome ?s = Some a"
    using assms(3) by (auto simp: reset_connection_def Let_def StatusListener_add_callback_def
        add_callback_def add_entry_def free_id_start)
  ultimately show ?thesis using assms(1,2) by (auto simp: checker_callback_def Let_def)
qed

lemma connect_sends_config:
  assumes "contact s = (Some k, sonar, ip, c, sent, config)" and "Async_connect k \<in> set (pending s)"
  shows "\<exists>t. connect_callback (on_connect (Sent sizeof_fire)) now False (finish_op (Async_connect k) s) = Inr t
     \<and> socket t = Some k \<and> sonarId t = sonar \<and> remote_ip t = ip \<and> connectionState t = Connected
     \<and> wire t = sent @ enc_fire (fire_message sonar config) \<and> Read_header k \<in> set (pending t)"
proof -
  have "length (enc_fire f) = sizeof_fire" for f by (simp add: sizeof_fire_def)
  with assms(1) show ?thesis
    by (simp add: contact_def connect_callback_def on_connect_def send_ping_config_def send_def
        connected_def initiate_receive_def start_op_def finish_op_def Let_def)
qed

section \<open>Property\<close>

text \<open>
  C9: a connection that broke comes back. From any reachable state in which the driver is
  connected or lost, once status datagrams arrive again and no message has come for ten
  seconds, the watchdog starts an attempt, however the old socket closes; the next status leads
  to a connection to the address it announces, under a new socket and the id of the sender; when
  it is made, the driver sends the configuration it holds and waits for the first header.
\<close>

theorem broken_connection_comes_back:
  assumes "driver_reachable s" and "connectionState s = Connected \<or> connectionState s = Lost"
    and "\<not> longer_than 5 now (sl_clock (statusListener s))" and "longer_than 10 now (clock s)"
    and "checker_callback now outcome (finish_op Timer_wait s) = Some a"
    and "\<And>d. mset (order d) = mset d"
    and "b = status_message_callback order now' False (enc_status msg) (finish_op Status_receive a)"
  shows "\<exists>t. connect_callback (on_connect (Sent sizeof_fire)) now'' False
         (finish_op (Async_connect (sockets_made s)) b) = Inr t
     \<and> driver_step s a \<and> driver_step a b \<and> driver_step b t
     \<and> connectionState t = Connected \<and> socket t = Some (sockets_made s)
     \<and> remote_ip t = st_ipAddr msg \<and> sonarId t = srcDeviceId (st_hdr msg)
     \<and> wire t = wire s @ enc_fire (fire_message (sonarId t) (lastConfig s))
     \<and> Read_header (sockets_made s) \<in> set (pending t)"
proof -
  note inv = driver_reachable_inv [OF assms(1)]
  have "Timer_wait \<in> set (pending s)"
    using inv by (auto simp: client_inv_def waits_def intro: ccontr dest: count_notin)
  then have sa: "driver_step s a"
    using assms(5) by (intro driver_io [where order = "\<lambda>d. d"] io_timer) simp_all
  then have inv_a: "client_inv a" using driver_reachable_inv driver_next assms(1) by blast
  have "Status_receive \<in> set (pending a)"
    using inv_a by (auto simp: client_inv_def waits_def intro: ccontr dest: count_notin)
  then have ab: "driver_step a b"
    unfolding assms(7) by (intro driver_io [where order = "\<lambda>d. d"] io_status assms(6)) simp_all
  from checker_starts_attempt [OF inv assms(2-5)] first_status_contact [OF inv_a _ _ assms(6) status_datagram assms(7)]
  have b: "contact b = (Some (sockets_made s), srcDeviceId (st_hdr msg), st_ipAddr msg, Attempt, wire s, lastConfig s)"
    "Async_connect (sockets_made s) \<in> set (pending b)" by auto
  from connect_sends_config [OF b, of now''] obtain t where t:
    "connect_callback (on_connect (Sent sizeof_fire)) now'' False
       (finish_op (Async_connect (sockets_made s)) b) = Inr t"
    "socket t = Some (sockets_made s)" "sonarId t = srcDeviceId (st_hdr msg)" "remote_ip t = st_ipAddr msg"
    "connectionState t = Connected"
    "wire t = wire s @ enc_fire (fire_message (srcDeviceId (st_hdr msg)) (lastConfig s))"
    "Read_header (sockets_made s) \<in> set (pending t)" by blast
  have "driver_step b t"
    using t(1) b(2) by (intro driver_io [where order = "\<lambda>d. d"] io_connect) simp_all
  with t sa ab show ?thesis by simp
qed

lemma broken_connection_comes_back_witness:
  "\<exists>s a b t. driver_reachable s \<and> connectionState s = Connected
     \<and> checker_callback 11000000000 Shutdown_error (finish_op Timer_wait s) = Some a
     \<and> driver_step a b \<and> driver_step b t \<and> socket t = Some 1 \<and> connectionState t = Connected"
proof -
  obtain s0 where s0: "driver_reachable s0" "quiet s0"
    "link s0 = (Some 0, 1, Connected, [Read_header 0, Status_receive, Timer_wait], [], 0, 0, 0)"
    using connected_reachable by blast
  obtain s where s: "driver_reachable s" "quiet s"
    "link s = (Some 0, 1, Connected, [Status_receive, Read_header 0, Timer_wait], [], 0, 0, 11000000000)"
    using status_step [OF s0(3,2), of 11000000000] driver_next [OF s0(1)] by auto
  then have clocks: "connectionState s = Connected" "\<not> longer_than 5 11000000000 (sl_clock (statusListener s))"
    "longer_than 10 11000000000 (clock s)" "sockets_made s = 1"
    using eleven_seconds by (simp_all add: link_def)
  have "callbacks (listener_queue s) = []" using s(3) by (simp add: link_def)
  then obtain a where a: "checker_callback 11000000000 Shutdown_error (finish_op Timer_wait s) = Some a"
    using checker_registers [OF clocks(2,3), of Shutdown_error] by blast
  let ?msg = "the (dec_status (replicate sizeof_status 0))"
  let ?b = "status_message_callback (\<lambda>d. d) 12000000000 False (enc_status ?msg) (finish_op Status_receive a)"
  obtain t where "driver_step a ?b" "driver_step ?b t" "connectionState t = Connected" "socket t = Some 1"
    using broken_connection_comes_back [OF s(1) _ clocks(2,3) a _ refl, where order = "\<lambda>d. d"
        and now' = 12000000000 and now'' = 13000000000 and msg = ?msg] clocks(1,4) by auto
  with s(1) clocks(1) a show ?thesis by blast
qed

end
