(* ===== verification/Connection_Spec.thy ===== *)
theory Connection_Spec
  imports Driver_Reconnect
begin

text \<open>
  What the connection of the driver is, without sockets, callbacks and operations under way: a
  link that searches for the sonar, connects, is up, or is broken. The driver implements it: each
  of its steps is a step of the link or leaves the link as it is.
\<close>

section \<open>The link\<close>

datatype link_state = Searching | Connecting nat | Linked nat | Broken nat

text \<open>The two conditions of the watchdog are parameters, no status for long and no message for long,
  and so is the number of the next socket.\<close>

inductive link_step :: "bool \<Rightarrow> bool \<Rightarrow> nat \<Rightarrow> link_state \<Rightarrow> link_state \<Rightarrow> bool" for noStatus noMessage new where
  link_found: "link_step noStatus noMessage new Searching (Connecting new)"
| link_made: "link_step noStatus noMessage new (Connecting k) (Linked k)"
| link_lost: "noStatus \<Longrightarrow> link_step noStatus noMessage new (Linked k) (Broken k)"
| link_dropped: "\<not> noStatus \<Longrightarrow> noMessage \<Longrightarrow> link_step noStatus noMessage new (Linked k) Searching"
| link_retried: "\<not> noStatus \<Longrightarrow> noMessage \<Longrightarrow> link_step noStatus noMessage new (Broken k) Searching"
| link_stays: "link_step noStatus noMessage new l l"

inductive_simps link_step_to_Linked: "link_step noStatus noMessage new l (Linked k)"

definition link_of :: "'a SonarClient_scheme \<Rightarrow> link_state" where
  "link_of s =
     (case connectionState s of
        Initializing \<Rightarrow> Searching
      | Attempt \<Rightarrow> if own_entries s = [] then Connecting (the (socket s)) else Searching
      | Connected \<Rightarrow> Linked (the (socket s))
      | Lost \<Rightarrow> Broken (the (socket s)))"

lemma link_of_cong:
  "connectionState t = connectionState s \<Longrightarrow> own_entries t = own_entries s \<Longrightarrow> socket t = socket s
   \<Longrightarrow> link_of t = link_of s"
  by (cases "connectionState s") (simp_all add: link_of_def)




lemma link_of_fields [simp]:
  "link_of (s\<lparr>message := m\<rparr>) = link_of s" "link_of (s\<lparr>clock := c, handled := h\<rparr>) = link_of s"
  "link_of (s\<lparr>user_status := us\<rparr>) = link_of s"
  "link_of (s\<lparr>statusListener := (statusListener s)\<lparr>sl_clock := now\<rparr>\<rparr>) = link_of s"
  by (rule link_of_cong; simp add: own_entries_def listener_queue_def)+


section \<open>Steps of the io service\<close>









section \<open>Property\<close>



end
