(* ===== verification/Stream_Alignment.thy ===== *)
theory Stream_Alignment
  imports Driver_Behaviour
begin

text \<open>
  What the reception loop does with a stream that it reads from the wrong byte. The loop takes
  sixteen bytes at a time and drops them when they are no header, so it never moves its reading
  frame by less than that.
\<close>

section \<open>Blocks that are no header\<close>

lemma get_le_drop: "get_le i (drop k bs) = get_le (k + i) bs"
  by (simp add: get_le_def slice_def add.commute)

lemma cut_stream_noise:
  assumes "\<And>i. 16 * i + 16 \<le> length bs \<Longrightarrow> get_le (16 * i) bs \<noteq> OCULUS_CHECK_ID"
  shows "cut_stream sonar now bs = ([], drop (16 * (length bs div 16)) bs)"
  using assms
proof (induction "length bs" arbitrary: bs rule: less_induct)
  case less
  show ?case
  proof (cases "length bs < 16")
    case True
    then show ?thesis by (subst cut_stream.simps) (simp add: dec_header_def)
  next
    case False
    then have len: "length bs div 16 = Suc ((length bs - 16) div 16)"
      by (simp add: le_div_geq not_less)
    have "get_le (16 * i) (drop 16 bs) \<noteq> OCULUS_CHECK_ID" if "16 * i + 16 \<le> length (drop 16 bs)" for i
      using less.prems [of "Suc i"] that False by (simp add: get_le_drop)
    with less.hyps [of "drop 16 bs"] False have
      "cut_stream sonar now (drop 16 bs) = ([], drop (16 * ((length bs - 16) div 16)) (drop 16 bs))" by simp
    moreover have "get_le 0 bs \<noteq> OCULUS_CHECK_ID" using less.prems [of 0] False by simp
    ultimately show ?thesis
      using False len by (subst cut_stream.simps) (simp add: dec_header_def sizeof_header_def ac_simps)
  qed
qed

section \<open>A stream of headers\<close>

lemma length_headers: "length (concat (map enc_header hs)) = 16 * length hs"
  by (induction hs) simp_all

lemma nth_headers:
  "i < length hs \<Longrightarrow> j < 16 \<Longrightarrow> concat (map enc_header hs) ! (16 * i + j) = enc_header (hs ! i) ! j"
proof (induction hs arbitrary: i)
  case (Cons h hs)
  then show ?case by (cases i) (simp_all add: nth_append)
qed simp

text \<open>The bytes of \<open>OCULUS_CHECK_ID\<close> at the start of a header.\<close>

lemma check_id_put: "put_le OCULUS_CHECK_ID = [0x53, 0x4f]"
proof -
  have "le_bytes 2 n = [word_of_nat n, word_of_nat (n div 256)]" for n by (simp add: numeral_2_eq_2)
  then have "put_le OCULUS_CHECK_ID = [word_of_nat (unat OCULUS_CHECK_ID), word_of_nat (unat OCULUS_CHECK_ID div 256)]"
    by (simp add: put_le_def)
  then show ?thesis by (simp add: OCULUS_CHECK_ID_def)
qed

lemma check_id_bytes:
  assumes "oculusId h = OCULUS_CHECK_ID"
  shows "enc_header h ! 0 = 0x53" "enc_header h ! 1 = 0x4f"
proof -
  obtain r where "enc_header h = [0x53, 0x4f] @ r"
    unfolding enc_header_def assms check_id_put by blast
  then show "enc_header h ! 0 = 0x53" "enc_header h ! 1 = 0x4f" by simp_all
qed

text \<open>A 16-bit integer is the check id only if its bytes are, in their order.\<close>

lemma check_id_at:
  assumes "i + 2 \<le> length bs" and "get_le i bs = OCULUS_CHECK_ID"
  shows "bs ! i = 0x53 \<and> bs ! Suc i = 0x4f"
proof -
  have "slice i 2 bs = [0x53, 0x4f]"
    using put_get_le_sizes(2) [OF assms(1)] assms(2) by (simp add: check_id_put)
  then have "slice i 2 bs ! 0 = 0x53" "slice i 2 bs ! 1 = 0x4f" by simp_all
  then show ?thesis using assms(1) by (simp add: slice_def)
qed

text \<open>One byte too many, or one too few.\<close>

lemma shifted_headers:
  assumes "\<forall>h \<in> set hs. oculusId h = OCULUS_CHECK_ID"
  shows "fst (cut_stream sonar now (x # concat (map enc_header hs))) = []"
    and "fst (cut_stream sonar now (drop 1 (concat (map enc_header hs)))) = []"
proof -
  let ?bs = "concat (map enc_header hs)"
  have at: "?bs ! (16 * i) = 0x53 \<and> ?bs ! (16 * i + 1) = 0x4f" if "i < length hs" for i
    using nth_headers [OF that, of 0] nth_headers [OF that, of 1] assms check_id_bytes [of "hs ! i"] that by simp
  have "get_le (16 * i) (x # ?bs) \<noteq> OCULUS_CHECK_ID" if "16 * i + 16 \<le> length (x # ?bs)" for i
    using check_id_at [of "16 * i" "x # ?bs"] that at [of i] by (auto simp: length_headers)
  from cut_stream_noise [OF this] show "fst (cut_stream sonar now (x # ?bs)) = []" by simp
  have "get_le (16 * i) (drop 1 ?bs) \<noteq> OCULUS_CHECK_ID" if "16 * i + 16 \<le> length (drop 1 ?bs)" for i
    using check_id_at [of "16 * i" "drop 1 ?bs"] that at [of i] by (auto simp: length_headers)
  from cut_stream_noise [OF this] show "fst (cut_stream sonar now (drop 1 ?bs)) = []" by simp
qed

section \<open>Property\<close>

text \<open>
  C37: the reception loop does not find its place again. A sonar in standby sends nothing but dummy
  messages, which are headers. Read from the first byte, every one of them is handled; read with
  one byte too many in front, or with the first byte lost, none ever is, however many follow, and
  the driver goes on reading.
\<close>

theorem misaligned_stream_is_lost:
  assumes "reads s = [Read_header k]" and "socket s = Some k"
    and "\<forall>h \<in> set hs. oculusId h = OCULUS_CHECK_ID \<and> srcDeviceId h = sonarId s
      \<and> msgId h = message_type_code messageDummy \<and> payloadSize h = 0"
    and "bs = concat (map enc_header hs)"
  shows "(\<exists>t. pump (handle_message order) now (length hs + length hs) bs s = Inr ([], t)
       \<and> handled t = handled s @ map (\<lambda>h. frame_message now h []) hs)
     \<and> (\<exists>rest t. pump (handle_message order) now (Suc (length bs)) (x # bs) s = Inr (rest, t) \<and> handled t = handled s)
     \<and> (\<exists>rest t. pump (handle_message order) now (length bs - 1) (drop 1 bs) s = Inr (rest, t) \<and> handled t = handled s)"
proof -
  let ?cs = "map (\<lambda>h. Frame h []) hs"
  have frames: "concat (map chunk_bytes ?cs) = bs" "chunk_messages now ?cs = map (\<lambda>h. frame_message now h []) hs"
    "chunk_reads ?cs = length hs + length hs"
    unfolding assms(4) by (induction hs) simp_all
  have "\<forall>c \<in> set ?cs. chunk_ok (sonarId s) c" using assms(3) by simp
  moreover have "\<forall>m \<in> set (chunk_messages now ?cs). readable m"
    using assms(3) by (auto simp: frames readable_def frame_message_def)
  ultimately have "\<exists>t. pump (handle_message order) now (length hs + length hs) (bs @ []) s = Inr ([], t)
      \<and> handled t = handled s @ map (\<lambda>h. frame_message now h []) hs"
    using receiver.pump_chunks [OF assms(1,2), of ?cs now order "[]"] unfolding frames by blast
  moreover have "\<exists>rest t. pump (handle_message order) now (length cs) cs s = Inr (rest, t) \<and> handled t = handled s"
    if "fst (cut_stream (sonarId s) now cs) = []" for cs
    using receiver.pump_cut [OF assms(1,2) order_refl, of now cs order] that by auto
  moreover have "fst (cut_stream (sonarId s) now (x # bs)) = []" "fst (cut_stream (sonarId s) now (drop 1 bs)) = []"
    using shifted_headers [of hs] assms(3) unfolding assms(4) by blast+
  ultimately show ?thesis by (metis append_Nil2 length_Cons length_drop)
qed

lemma misaligned_stream_is_lost_witness:
  "\<exists>rest t. pump (handle_message (\<lambda>d. d)) 0 17 (0 # enc_header sample_dummy_header) sample_driver = Inr (rest, t)
     \<and> handled t = []"
  using misaligned_stream_is_lost [of sample_driver 0 "[sample_dummy_header]" _ "\<lambda>d. d" 0 0]
  by (auto simp: sample_dummy_header_def zero_header_def)

end
