(* ===== verification/Async_Service.thy ===== *)
theory Async_Service
  imports Oculus_Prelude
begin

text \<open>
  The thread that runs the io service (\<open>src/AsyncService.cpp\<close>). The service is its \<open>stopped\<close>
  flag; the thread is a \<open>std::thread\<close> object that owns no thread, one inside
  \<open>io_service::run\<close>, or one whose \<open>run\<close> has returned and that is still to be joined. The last
  section is the object under calls of its methods and returns of \<open>run\<close>.
\<close>

section \<open>State and operations\<close>

datatype thread = No_thread | Running | Finished

definition joinable :: "thread \<Rightarrow> bool" where
  "joinable t \<longleftrightarrow> t \<noteq> No_thread"

record AsyncService =
  service_stopped :: bool
  thread_of :: thread
  isRunning :: bool

definition new_service :: AsyncService where
  "new_service = \<lparr>service_stopped = False, thread_of = No_thread, isRunning = False\<rparr>"

definition is_running :: "AsyncService \<Rightarrow> bool" where
  "is_running s \<longleftrightarrow> isRunning s"

text \<open>
  \<open>failure\<close> is the text of the \<open>std::system_error\<close> (a \<open>std::runtime_error\<close>) that making or
  joining the thread throws, if it does. Assigning a thread to one that is joinable
  terminates the program.
\<close>

definition start :: "string option \<Rightarrow> AsyncService \<Rightarrow> AsyncService \<times> unit result" where
  "start failure s =
     (if is_running s then (s, Inr ())
      else
        let s = (if service_stopped s then s\<lparr>service_stopped := False\<rparr> else s)
        in case failure of
             Some e \<Rightarrow> (s, Inl (Runtime_error e))
           | None \<Rightarrow>
               if joinable (thread_of s) then (s, Inl Terminates)
               else
                 let s = s\<lparr>thread_of := Running\<rparr>
                 in if \<not> joinable (thread_of s)
                    then (s, Inl (Runtime_error ''Failed to start AsyncService''))
                    else (s\<lparr>isRunning := True\<rparr>, Inr ()))"

definition stop :: "string option \<Rightarrow> AsyncService \<Rightarrow> AsyncService \<times> unit result" where
  "stop failure s =
     (if \<not> is_running s then (s, Inr ())
      else
        let s = s\<lparr>service_stopped := True\<rparr>
        in case failure of
             Some e \<Rightarrow> (s, Inl (Runtime_error e))
           | None \<Rightarrow>
               let s = s\<lparr>thread_of := No_thread\<rparr>
               in if joinable (thread_of s)
                  then (s, Inl (Runtime_error ''Failed to stop AsyncService''))
                  else (s\<lparr>isRunning := False\<rparr>, Inr ()))"

text \<open>\<open>run\<close> returns when the service is stopped, or when no work is left, which stops it.\<close>

definition run_returns :: "AsyncService \<Rightarrow> AsyncService" where
  "run_returns s = s\<lparr>service_stopped := True, thread_of := Finished\<rparr>"

section \<open>The object over time\<close>

inductive service_step :: "AsyncService \<Rightarrow> AsyncService \<Rightarrow> bool" where
  service_start: "start failure s = (t, r) \<Longrightarrow> service_step s t"
| service_stop: "stop failure s = (t, r) \<Longrightarrow> service_step s t"
| service_run_returns: "thread_of s = Running \<Longrightarrow> service_step s (run_returns s)"

inductive service_reachable :: "AsyncService \<Rightarrow> bool" where
  service_new: "service_reachable new_service"
| service_next: "service_reachable s \<Longrightarrow> service_step s t \<Longrightarrow> service_reachable t"

definition service_inv :: "AsyncService \<Rightarrow> bool" where
  "service_inv s \<longleftrightarrow> isRunning s = joinable (thread_of s)
     \<and> (thread_of s = Finished \<longrightarrow> service_stopped s)"

lemma start_inv: "start failure s = (t, r) \<Longrightarrow> service_inv s \<Longrightarrow> service_inv t"
  by (auto simp: start_def is_running_def service_inv_def joinable_def Let_def
      split: if_splits option.splits)

lemma stop_inv: "stop failure s = (t, r) \<Longrightarrow> service_inv s \<Longrightarrow> service_inv t"
  by (auto simp: stop_def is_running_def service_inv_def joinable_def Let_def
      split: if_splits option.splits)

lemma service_reachable_inv: "service_reachable s \<Longrightarrow> service_inv s"
proof (induction rule: service_reachable.induct)
  case service_new
  then show ?case by (simp add: new_service_def service_inv_def joinable_def)
next
  case (service_next s t)
  from service_next(2,3) show ?case
  proof cases
    case service_run_returns
    then show ?thesis using service_next(3) by (simp add: run_returns_def service_inv_def joinable_def)
  qed (rule start_inv stop_inv, assumption+)+
qed

text \<open>
  C27: whatever the order of starts, stops, failures of either and returns of \<open>run\<close>, the flag
  \<open>isRunning_\<close> says that a thread is to be joined, so no call replaces a joinable thread;
  stopping without failure and starting again leads to a thread inside \<open>run\<close> of a service that
  is not stopped. The flag does not say that \<open>run\<close> is still running.
\<close>

theorem service_can_be_restarted:
  assumes "service_reachable s"
  shows "(\<exists>t u. stop None s = (t, Inr ()) \<and> start None t = (u, Inr ())
      \<and> \<not> is_running t \<and> is_running u \<and> thread_of u = Running \<and> \<not> service_stopped u)
     \<and> snd (start failure s) \<noteq> Inl Terminates
     \<and> is_running s = joinable (thread_of s)
     \<and> (thread_of s = Finished \<longrightarrow> start failure s = (s, Inr ()))"
  using service_reachable_inv [OF assms]
  by (cases "isRunning s"; cases failure)
    (auto simp: service_inv_def start_def stop_def is_running_def joinable_def Let_def)

lemma service_can_be_restarted_witness:
  "service_reachable (run_returns (fst (start None new_service)))
   \<and> start None (run_returns (fst (start None new_service))) =
       (run_returns (fst (start None new_service)), Inr ())"
proof
  let ?s = "fst (start None new_service)"
  have "service_reachable ?s"
    by (rule service_next [OF service_new service_start]) (rule prod.collapse [symmetric])
  then show r: "service_reachable (run_returns ?s)"
    by (rule service_next)
      (rule service_run_returns, simp add: start_def is_running_def new_service_def joinable_def)
  show "start None (run_returns ?s) = (run_returns ?s, Inr ())"
    using service_can_be_restarted [OF r, of None] by (simp add: run_returns_def)
qed

end
