(* ===== verification/Python_Handle.thy ===== *)
theory Python_Handle
  imports Driver_Behaviour Log_Replay Async_Service
begin

text \<open>
  The handle of the Python package (\<open>python/src/oculus_python.cpp\<close>): a driver, the thread of
  its io service and a recorder, composed. Recording is a message callback of the driver that
  writes to the recorder; here the recorder follows the calls of \<open>Recorder_writer\<close> among the
  driver's events. The lemmas take the bytes of a connection through the reception, the
  callbacks and the recorder to the file, and back through the file reader.
\<close>

section \<open>State\<close>

record PythonHandle = SonarDriver +
  service :: AsyncService
  recorder :: Recorder
  recorderCallbackId :: int

definition PythonHandle_construct :: "int \<Rightarrow> PythonHandle option" where
  "PythonHandle_construct now =
     map_option (\<lambda>d. SonarDriver.extend d
       \<lparr>service = new_service, recorder = new_recorder, recorderCallbackId = - 1\<rparr>)
       (SonarDriver_construct now)"

section \<open>Operations\<close>

definition recorder_callback :: "Message \<Rightarrow> Recorder \<Rightarrow> Recorder" where
  "recorder_callback m r = fst (Recorder_write m r)"

text \<open>What a callback of the driver does to the recorder, and the calls between two states.\<close>

fun write_recorded :: "driver_event \<Rightarrow> Recorder \<Rightarrow> Recorder" where
  "write_recorded (On_message Recorder_writer m) r = recorder_callback m r"
| "write_recorded _ r = r"

definition record_events :: "PythonHandle \<Rightarrow> PythonHandle \<Rightarrow> PythonHandle" where
  "record_events h t =
     t\<lparr>recorder := fold write_recorded (drop (length (events h)) (events t)) (recorder t)\<rparr>"

definition handle_recorded :: "driver_order \<Rightarrow> Message \<Rightarrow> PythonHandle \<Rightarrow> PythonHandle result" where
  "handle_recorded order m h = bindR (handle_message order m h) (\<lambda>t. Inr (record_events h t))"

definition handle_start :: "string option \<Rightarrow> PythonHandle \<Rightarrow> PythonHandle \<times> unit result" where
  "handle_start failure h = (let (s, r) = start failure (service h) in (h\<lparr>service := s\<rparr>, r))"

definition handle_stop :: "string option \<Rightarrow> PythonHandle \<Rightarrow> PythonHandle \<times> unit result" where
  "handle_stop failure h = (let (s, r) = stop failure (service h) in (h\<lparr>service := s\<rparr>, r))"

definition send_config ::
    "send_outcome \<Rightarrow> OculusSimpleFireMessage \<Rightarrow> PythonHandle \<Rightarrow> PythonHandle \<times> bool result" where
  "send_config outcome config h = send_ping_config outcome config h"

definition current_config :: "PythonHandle \<Rightarrow> OculusSimpleFireMessage" where
  "current_config h = last_ping_config h"

definition request_config ::
    "driver_order \<Rightarrow> OculusSimpleFireMessage \<Rightarrow> OculusSimpleFireMessage \<Rightarrow> (nat \<Rightarrow> attempt)
     \<Rightarrow> PythonHandle \<Rightarrow> (PythonHandle \<times> OculusSimpleFireMessage result) option" where
  "request_config order uninit request env h =
     map_option (\<lambda>(t, r). (record_events h t, r)) (request_ping_config order uninit request env h)"

text \<open>The callbacks of Python; the handle does not give their ids out.\<close>

definition handle_add_message_callback :: "nat \<Rightarrow> PythonHandle \<Rightarrow> PythonHandle option" where
  "handle_add_message_callback n h = map_option fst (add_message_callback (User n) h)"

definition handle_add_ping_callback :: "nat \<Rightarrow> PythonHandle \<Rightarrow> PythonHandle option" where
  "handle_add_ping_callback n h = map_option fst (add_ping_callback (User n) h)"

definition handle_add_status_callback :: "nat \<Rightarrow> PythonHandle \<Rightarrow> PythonHandle option" where
  "handle_add_status_callback n h = map_option fst (add_status_callback n h)"

definition handle_add_config_callback :: "nat \<Rightarrow> PythonHandle \<Rightarrow> PythonHandle option" where
  "handle_add_config_callback n h = map_option fst (add_config_callback (User n) h)"

text \<open>
  \<open>recorder_start\<close>; the id of the callback is stored as a signed integer. \<open>None\<close>: no id is
  free. \<open>recorder_stop\<close> takes ids above zero for registered callbacks.
\<close>

definition recorder_start ::
    "string \<Rightarrow> bool \<Rightarrow> bool \<Rightarrow> int \<Rightarrow> PythonHandle \<Rightarrow> (PythonHandle \<times> unit result) option" where
  "recorder_start filename force can_open now_ms h =
     (if rc_open (recorder h) then Some (h, Inr ())
      else case Recorder_open filename force can_open now_ms (recorder h) of
        (r, Inl e) \<Rightarrow> Some (h\<lparr>recorder := r\<rparr>, Inl e)
      | (r, Inr _) \<Rightarrow>
          (case add_message_callback Recorder_writer (h\<lparr>recorder := r\<rparr>) of
             None \<Rightarrow> None
           | Some (h, i) \<Rightarrow> Some (h\<lparr>recorderCallbackId := sint i\<rparr>, Inr ())))"

definition recorder_stop :: "PythonHandle \<Rightarrow> PythonHandle" where
  "recorder_stop h =
     (let h = h\<lparr>recorder := Recorder_close (recorder h)\<rparr>
      in if 0 < recorderCallbackId h
         then fst (remove_message_callback (word_of_int (recorderCallbackId h)) h) else h)"

definition is_recording :: "PythonHandle \<Rightarrow> bool" where
  "is_recording h \<longleftrightarrow> rc_open (recorder h)"

section \<open>What one message records\<close>

definition writers :: "driver_callback callback_dict \<Rightarrow> nat" where
  "writers d = count_list (map snd d) Recorder_writer"

lemma writers_simps [simp]:
  "writers [] = 0" "writers (d @ d') = writers d + writers d'"
  "writers ((i, f) # d) = (if f = Recorder_writer then Suc (writers d) else writers d)"
  by (simp_all add: writers_def)

lemma writers_perm: "mset d = mset d' \<Longrightarrow> writers d = writers d'"
  by (simp add: writers_def flip: count_mset)

text \<open>The part of the state that recording depends on, and what a message does to it.\<close>

definition recorder_view :: "PythonHandle \<Rightarrow> Recorder \<times> driver_callback callback_queue" where
  "recorder_view h = (recorder h, messageCallbacks h)"

fun note_recorded :: "driver_order \<Rightarrow> Message \<Rightarrow> Recorder \<times> driver_callback callback_queue
    \<Rightarrow> Recorder \<times> driver_callback callback_queue" where
  "note_recorded order m (r, q) =
     ((recorder_callback m ^^ writers (called order q)) r,
      q\<lparr>single_shots := [], sshots_called := True\<rparr>)"

lemma fold_write_messages:
  "fold write_recorded (map (\<lambda>e. On_message (snd e) m) d) r = (recorder_callback m ^^ writers d) r"
proof (induction d arbitrary: r)
  case (Cons e d)
  then show ?case
    by (cases e; cases "snd e") (simp_all add: funpow_swap1)
qed simp

lemma fold_write_others [simp]:
  "fold write_recorded (map (\<lambda>e. On_config (snd e) c c') d) r = r"
  "fold write_recorded (map (\<lambda>e. On_ping (snd e) w) d) r = r"
  "fold write_recorded (map (\<lambda>e. On_dummy (snd e) h) d) r = r"
  by (induction d arbitrary: r) simp_all

lemma handle_message_recorder: "handle_message order m h = Inr t \<Longrightarrow> recorder t = recorder h"
  by (auto simp: handle_message_def bindR_Inr_iff Let_def call_queue_keep [of recorder]
      put_queue_defs emit_def run_message_callback_def
      split: if_splits driver_callback.split option.split)

lemma record_events_keeps [simp]:
  "SonarDriver.truncate (record_events h t) = SonarDriver.truncate t"
  "messageCallbacks (record_events h t) = messageCallbacks t"
  "socket (record_events h t) = socket t" "sonarId (record_events h t) = sonarId t"
  "pending (record_events h t) = pending t" "handled (record_events h t) = handled t"
  by (simp_all add: record_events_def SonarDriver.defs)

lemma handle_recorded_view:
  assumes "handle_recorded order m h = Inr t"
  shows "recorder_view t = note_recorded order m (recorder_view h)"
proof -
  obtain u where u: "handle_message order m h = Inr u" and t: "t = record_events h u"
    using assms by (auto simp: handle_recorded_def bindR_Inr_iff)
  have "recorder t = (recorder_callback m ^^ writers (called order (messageCallbacks h))) (recorder h)"
    using handle_message_events [OF u] handle_message_recorder [OF u]
    by (auto simp: t record_events_def fold_write_messages)
  then show ?thesis
    using handle_message_keeps(2) [OF u] by (simp add: recorder_view_def t)
qed

interpretation recording: message_handler "handle_recorded order" readable recorder_view
  "note_recorded order" for order
proof
  fix m and h :: PythonHandle
  assume "readable m"
  then obtain u where "handle_message order m h = Inr u" "socket u = socket h" "sonarId u = sonarId h"
    "pending u = pending h" "handled u = handled h" "message u = message h"
    using receiver.handles [of m order h] by blast
  then show "\<exists>t. handle_recorded order m h = Inr t \<and> socket t = socket h \<and> sonarId t = sonarId h
      \<and> pending t = pending h \<and> handled t = handled h \<and> message t = message h"
    by (simp add: handle_recorded_def record_events_def)
qed (simp_all add: handle_recorded_view, simp_all add: recorder_view_def)

section \<open>What a stream records\<close>

lemma record_all_append: "record_all (ms @ ms') r = record_all ms' (record_all ms r)"
  by (simp add: record_all_def)

lemma record_all_simps [simp]:
  "record_all [] r = r" "record_all (m # ms) r = record_all ms (recorder_callback m r)"
  by (simp_all add: record_all_def recorder_callback_def)

lemma recorder_callback_times: "(recorder_callback m ^^ k) r = record_all (replicate k m) r"
  by (induction k arbitrary: r) (simp_all add: funpow_Suc_right del: funpow.simps(2))

lemma concat_replicate:
  "concat (map (replicate (Suc 0)) ms) = ms"
  "length (concat (map (replicate 2) ms)) = 2 * length ms"
  "map f (concat (map (replicate 2) ms)) = concat (map (\<lambda>m. [f m, f m]) ms)"
  by (induction ms) (simp_all add: numeral_2_eq_2)

lemma writers_called:
  assumes "\<And>d. mset (order d) = mset d"
  shows "writers (called order q) = writers (callbacks q) + writers (single_shots q)"
  using writers_perm [OF assms, of "callbacks q"] writers_perm [OF assms, of "single_shots q"]
  by (simp add: called_def)

text \<open>Every message of a stream is recorded once for each registered writer.\<close>

lemma fold_note_recorded:
  assumes "\<And>d. mset (order d) = mset d" and "writers (single_shots q) = 0"
  shows "fst (fold (note_recorded order) ms (r, q)) =
     record_all (concat (map (replicate (writers (callbacks q))) ms)) r"
  using assms(2)
proof (induction ms arbitrary: r q)
  case Nil
  then show ?case by simp
next
  case (Cons m ms)
  let ?q = "q\<lparr>single_shots := [], sshots_called := True\<rparr>"
  let ?r = "record_all (replicate (writers (callbacks q)) m) r"
  have "note_recorded order m (r, q) = (?r, ?q)"
    using writers_called [OF assms(1), of q] Cons.prems by (simp add: recorder_callback_times)
  then have "fst (fold (note_recorded order) (m # ms) (r, q)) =
      fst (fold (note_recorded order) ms (?r, ?q))" by (simp only: fold_simps)
  also have "\<dots> = record_all (concat (map (replicate (writers (callbacks q))) ms)) ?r"
    using Cons.IH [of ?q ?r] by simp
  finally show ?case by (simp add: record_all_append)
qed

lemma pump_records:
  assumes "reads h = [Read_header k]" and "socket h = Some k"
    and "\<forall>c \<in> set cs. chunk_ok (sonarId h) c" and "\<forall>m \<in> set (chunk_messages now cs). readable m"
    and "\<And>d. mset (order d) = mset d" and "writers (single_shots (messageCallbacks h)) = 0"
  shows "\<exists>h'. pump (handle_recorded order) now (chunk_reads cs) (concat (map chunk_bytes cs) @ rest) h
       = Inr (rest, h')
     \<and> recorder h' = record_all (concat (map (replicate (writers (callbacks (messageCallbacks h))))
         (chunk_messages now cs))) (recorder h)"
proof -
  obtain h' where p: "pump (handle_recorded order) now (chunk_reads cs) (concat (map chunk_bytes cs) @ rest) h
       = Inr (rest, h')"
    and v: "recorder_view h' = fold (note_recorded order) (chunk_messages now cs) (recorder_view h)"
    using recording.pump_chunks [OF assms(1-4), of order rest] by blast
  have "recorder h' = fst (recorder_view h')" by (simp add: recorder_view_def)
  also have "\<dots> = record_all (concat (map (replicate (writers (callbacks (messageCallbacks h))))
         (chunk_messages now cs))) (recorder h)"
    unfolding v unfolding recorder_view_def by (rule fold_note_recorded [OF assms(5,6)])
  finally show ?thesis using p by blast
qed

text \<open>The messages of a stream can be recorded if their sizes fit an item.\<close>

fun chunk_fits :: "chunk \<Rightarrow> bool" where
  "chunk_fits (Frame h p) = (length p + sizeof_header < 2 ^ 32)"
| "chunk_fits (Noise h) = True"

lemma frame_recordable:
  assumes "unat (payloadSize h) = length p" and "length p + sizeof_header < 2 ^ 32"
  shows "recordable (frame_message now h p)"
  using assms by (simp add: recordable_def message_wf_def frame_message_def sizeof_header_def
      header_codec.dec_enc)

lemma chunks_recordable:
  assumes "\<forall>c \<in> set cs. chunk_ok sonar c \<and> chunk_fits c"
  shows "\<forall>m \<in> set (chunk_messages now cs). recordable m"
  using assms
proof (induction cs)
  case (Cons c cs)
  then show ?case by (cases c) (auto intro: frame_recordable)
qed simp

section \<open>Starting and stopping\<close>

lemma recorder_start_fresh:
  assumes "recorder_start filename force True now_ms h = Some (h', Inr ())"
    and "\<not> rc_open (recorder h)"
  obtains i q where "add_callback (messageCallbacks h) Recorder_writer = Some (q, i)"
    and "h' = h\<lparr>recorder := opened_recorder now_ms, messageCallbacks := q, recorderCallbackId := sint i\<rparr>"
  using assms
  by (auto simp: recorder_start_def Recorder_open_closed add_message_callback_def
      put_messageCallbacks_def split: option.splits prod.splits)

lemma added_writers:
  "add_callback q Recorder_writer = Some (q', i)
   \<Longrightarrow> writers (callbacks q') = Suc (writers (callbacks q)) \<and> single_shots q' = single_shots q"
  using add_callback_SomeD [of q Recorder_writer q' i] by simp

text \<open>
  C3: what the sonar sends while recording is what the log file replays. A recording is started
  on a handle that records nothing yet; the bytes of a connection arrive; the file, opened
  by a reader, gives exactly the messages of the sonar, in order, each with its header, its
  bytes and the time it arrived, and then the end of the file.
\<close>

theorem recorded_stream_is_replayed:
  assumes "recorder_start filename force True now_ms h0 = Some (h, Inr ())"
    and "\<not> rc_open (recorder h0)"
    and "writers (callbacks (messageCallbacks h0)) = 0"
    and "writers (single_shots (messageCallbacks h0)) = 0"
    and "reads h0 = [Read_header k]" and "socket h0 = Some k"
    and "\<forall>c \<in> set cs. chunk_ok (sonarId h0) c \<and> chunk_fits c"
    and "\<forall>m \<in> set (chunk_messages now cs). readable m"
    and "\<And>d. mset (order d) = mset d"
  shows "\<exists>h' r. pump (handle_recorded order) now (chunk_reads cs) (concat (map chunk_bytes cs) @ rest) h
       = Inr (rest, h')
     \<and> FileReader_open filename (Some (rc_file (recorder h'))) (new_FileReader hdr) = (r, Inr ())
     \<and> snd (read_messages (Suc (length (chunk_messages now cs))) r) =
         map (\<lambda>m. Inr (Some m)) (chunk_messages now cs) @ [Inr None]"
proof -
  obtain i q where add: "add_callback (messageCallbacks h0) Recorder_writer = Some (q, i)"
    and h: "h = h0\<lparr>recorder := opened_recorder now_ms, messageCallbacks := q, recorderCallbackId := sint i\<rparr>"
    using recorder_start_fresh [OF assms(1,2)] by blast
  have "reads h = reads h0" by (simp add: h reads_def)
  then have start: "reads h = [Read_header k]" "socket h = Some k" "sonarId h = sonarId h0"
    "writers (single_shots (messageCallbacks h)) = 0" "writers (callbacks (messageCallbacks h)) = 1"
    using assms(3-6) added_writers [OF add] by (simp_all add: h)
  have ok: "\<forall>c \<in> set cs. chunk_ok (sonarId h) c" using assms(7) start(3) by simp
  obtain h' where p: "pump (handle_recorded order) now (chunk_reads cs) (concat (map chunk_bytes cs) @ rest) h
       = Inr (rest, h')"
    and r: "recorder h' = record_all (chunk_messages now cs) (opened_recorder now_ms)"
    using pump_records [OF start(1,2) ok assms(8,9) start(4), of rest] start(5)
    by (auto simp: h concat_replicate)
  show ?thesis
    using p r opened_recorder_replays [OF chunks_recordable [OF assms(7)], of filename now now_ms hdr] by simp
qed

text \<open>
  C40: a recording that was started before any other callback was registered is never
  unregistered, so the next one records every message twice. Its id is zero, which
  \<open>recorder_stop\<close> takes for no callback; after the next start two callbacks write to the
  same file.
\<close>

theorem restarted_recording_doubles:
  assumes "recorder_start f1 o1 True t1 h0 = Some (h1, Inr ())"
    and "\<not> rc_open (recorder h0)"
    and "callbacks (messageCallbacks h0) = []" and "single_shots (messageCallbacks h0) = []"
    and "recorder_start f2 o2 True t2 (recorder_stop h1) = Some (h2, Inr ())"
    and "reads h0 = [Read_header k]" and "socket h0 = Some k"
    and "\<forall>c \<in> set cs. chunk_ok (sonarId h0) c \<and> chunk_fits c"
    and "\<forall>m \<in> set (chunk_messages now cs). readable m"
    and "\<And>d. mset (order d) = mset d"
  shows "\<exists>h' r. pump (handle_recorded order) now (chunk_reads cs) (concat (map chunk_bytes cs) @ rest) h2
       = Inr (rest, h')
     \<and> FileReader_open f2 (Some (rc_file (recorder h'))) (new_FileReader hdr) = (r, Inr ())
     \<and> snd (read_messages (Suc (2 * length (chunk_messages now cs))) r) =
         concat (map (\<lambda>m. [Inr (Some m), Inr (Some m)]) (chunk_messages now cs)) @ [Inr None]"
proof -
  let ?ms = "concat (map (replicate 2) (chunk_messages now cs))"
  obtain i q where add: "add_callback (messageCallbacks h0) Recorder_writer = Some (q, i)"
    and h1: "h1 = h0\<lparr>recorder := opened_recorder t1, messageCallbacks := q, recorderCallbackId := sint i\<rparr>"
    using recorder_start_fresh [OF assms(1,2)] by blast
  have i: "i = 0" using add assms(3) by (auto simp: add_callback_def add_entry_def free_id_start)
  have stopped: "recorder_stop h1 = h1\<lparr>recorder := Recorder_close (opened_recorder t1)\<rparr>"
    by (simp add: recorder_stop_def h1 i)
  obtain j q2 where add2: "add_callback q Recorder_writer = Some (q2, j)"
    and h2: "h2 = h1\<lparr>recorder := opened_recorder t2, messageCallbacks := q2, recorderCallbackId := sint j\<rparr>"
    using assms(5) unfolding stopped by (rule recorder_start_fresh) (auto simp: Recorder_close_def h1)
  have "reads h2 = reads h0" by (simp add: h1 h2 reads_def)
  then have start: "reads h2 = [Read_header k]" "socket h2 = Some k" "sonarId h2 = sonarId h0"
    "writers (single_shots (messageCallbacks h2)) = 0" "writers (callbacks (messageCallbacks h2)) = 2"
    using assms(3,4,6,7) added_writers [OF add] added_writers [OF add2] by (simp_all add: h1 h2)
  have ok: "\<forall>c \<in> set cs. chunk_ok (sonarId h2) c" using assms(8) start(3) by simp
  obtain h' where p: "pump (handle_recorded order) now (chunk_reads cs) (concat (map chunk_bytes cs) @ rest) h2
       = Inr (rest, h')"
    and r: "recorder h' = record_all ?ms (opened_recorder t2)"
    using pump_records [OF start(1,2) ok assms(9,10) start(4), of rest] start(5) by (auto simp: h2)
  have "\<forall>m \<in> set ?ms. recordable m"
    using chunks_recordable [OF assms(8), of now] by auto
  then show ?thesis
    using p r opened_recorder_replays [of ?ms f2 t2 hdr] by (simp add: concat_replicate)
qed

text \<open>A handle over the driver of the samples, one with no message callback, and a stream.\<close>

definition sample_handle :: PythonHandle where
  "sample_handle = SonarDriver.extend sample_driver
     \<lparr>service = new_service, recorder = new_recorder, recorderCallbackId = - 1\<rparr>"

definition quiet_handle :: PythonHandle where
  "quiet_handle = sample_handle\<lparr>messageCallbacks := empty_queue\<rparr>"

definition sample_stream :: "chunk list" where
  "sample_stream = [Noise zero_header, Frame sample_dummy_header []]"

lemma sample_handle_state [simp]:
  "recorder sample_handle = new_recorder" "messageCallbacks sample_handle = one_callback 1"
  "reads sample_handle = [Read_header 0]" "socket sample_handle = Some 0" "sonarId sample_handle = 7"
  "recorder quiet_handle = new_recorder" "messageCallbacks quiet_handle = empty_queue"
  "reads quiet_handle = [Read_header 0]" "socket quiet_handle = Some 0" "sonarId quiet_handle = 7"
  by (simp_all add: sample_handle_def quiet_handle_def sample_driver_def SonarDriver.defs reads_def)

lemma sample_stream_facts:
  "\<forall>c \<in> set sample_stream. chunk_ok 7 c \<and> chunk_fits c"
  "chunk_messages 0 sample_stream = [sample_dummy]"
  "\<forall>m \<in> set (chunk_messages 0 sample_stream). readable m"
  by (simp_all add: sample_stream_def sample_dummy_def sample_dummy_header_def zero_header_def
      OCULUS_CHECK_ID_def sizeof_header_def readable_def frame_message_def)

lemma recorder_starts:
  assumes "\<not> rc_open (recorder h)" and "length (callbacks (messageCallbacks h)) < 2 ^ 32"
  shows "\<exists>h'. recorder_start filename force True now_ms h = Some (h', Inr ())"
proof -
  obtain j where "add_entry (callbacks (messageCallbacks h)) Recorder_writer =
      Some (callbacks (messageCallbacks h) @ [(j, Recorder_writer)], j)"
    using add_entry_Some [OF assms(2)] by blast
  with assms(1) show ?thesis
    by (simp add: recorder_start_def Recorder_open_closed add_message_callback_def add_callback_def)
qed

lemma recorded_stream_is_replayed_witness:
  "\<exists>h h' r. recorder_start ''log'' False True 0 sample_handle = Some (h, Inr ())
     \<and> pump (handle_recorded (\<lambda>d. d)) 0 (chunk_reads sample_stream)
         (concat (map chunk_bytes sample_stream) @ [1, 2]) h = Inr ([1, 2], h')
     \<and> FileReader_open ''log'' (Some (rc_file (recorder h'))) (new_FileReader sample_log_header) = (r, Inr ())
     \<and> snd (read_messages 2 r) = [Inr (Some sample_dummy), Inr None]"
proof -
  obtain h where h: "recorder_start ''log'' False True 0 sample_handle = Some (h, Inr ())"
    using recorder_starts [of sample_handle "''log''" False 0] by (auto simp: new_recorder_def one_callback_def)
  show ?thesis
    using recorded_stream_is_replayed [OF h _ _ _ _ _ _ sample_stream_facts(3), of 0 "\<lambda>d. d" "[1, 2]"
        sample_log_header] h sample_stream_facts
    by (simp add: new_recorder_def one_callback_def numeral_2_eq_2 del: pump.simps read_messages.simps)
qed

lemma restarted_recording_doubles_witness:
  "\<exists>h1 h2 h' r. recorder_start ''a'' False True 0 quiet_handle = Some (h1, Inr ())
     \<and> recorder_start ''b'' False True 0 (recorder_stop h1) = Some (h2, Inr ())
     \<and> pump (handle_recorded (\<lambda>d. d)) 0 (chunk_reads sample_stream)
         (concat (map chunk_bytes sample_stream) @ []) h2 = Inr ([], h')
     \<and> FileReader_open ''b'' (Some (rc_file (recorder h'))) (new_FileReader sample_log_header) = (r, Inr ())
     \<and> snd (read_messages 3 r) = [Inr (Some sample_dummy), Inr (Some sample_dummy), Inr None]"
proof -
  obtain h1 where h1: "recorder_start ''a'' False True 0 quiet_handle = Some (h1, Inr ())"
    using recorder_starts [of quiet_handle "''a''" False 0] by (auto simp: new_recorder_def empty_queue_def)
  have "h1 = quiet_handle\<lparr>recorder := opened_recorder 0,
      messageCallbacks := \<lparr>callbacks = [(0, Recorder_writer)], single_shots = [], sshots_called = False\<rparr>,
      recorderCallbackId := 0\<rparr>"
    using h1 by (rule recorder_start_fresh)
      (auto simp: new_recorder_def empty_queue_def add_callback_def add_entry_def free_id_start)
  then have "\<not> rc_open (recorder (recorder_stop h1))"
    "length (callbacks (messageCallbacks (recorder_stop h1))) < 2 ^ 32"
    by (simp_all add: recorder_stop_def Recorder_close_def)
  then obtain h2 where h2: "recorder_start ''b'' False True 0 (recorder_stop h1) = Some (h2, Inr ())"
    using recorder_starts by blast
  show ?thesis
    using restarted_recording_doubles [OF h1 _ _ _ h2 _ _ _ sample_stream_facts(3), of 0 "\<lambda>d. d" "[]"
        sample_log_header] h1 h2 sample_stream_facts
    by (simp add: new_recorder_def empty_queue_def numeral_3_eq_3 del: pump.simps read_messages.simps)
qed

end
