(* ===== verification/Python_Machine.thy ===== *)
theory Python_Machine
  imports Python_Handle Driver_Machine
begin

text \<open>
  The handle of the Python package over time: a script calls the methods of \<open>OculusSonar\<close>, and while
  the service's thread is inside \<open>run\<close> the io service completes operations of the driver, whose
  messages go through the recorder. The invariant joins those of the driver, of the service and of the
  recording.
\<close>

section \<open>Steps\<close>

text \<open>
  The methods that \<open>PYBIND11_MODULE\<close> gives the class, and what happens between them. A
  \<open>request_config\<close> is its sends and waits.
\<close>

inductive handle_step :: "PythonHandle \<Rightarrow> PythonHandle \<Rightarrow> bool" where
  step_io: "thread_of (service h) = Running \<Longrightarrow> (\<And>d. mset (order d) = mset d)
     \<Longrightarrow> io_step (handle_recorded order) (on_connect outcome) h t \<Longrightarrow> handle_step h t"
| step_run_returns: "thread_of (service h) = Running \<Longrightarrow> handle_step h (h\<lparr>service := run_returns (service h)\<rparr>)"
| step_start: "handle_start failure h = (t, r) \<Longrightarrow> handle_step h t"
| step_stop: "handle_stop failure h = (t, r) \<Longrightarrow> handle_step h t"
| step_send_config: "send_config outcome config h = (t, r') \<Longrightarrow> handle_step h t"
| step_begin_wait: "begin_wait uninit h = Some t \<Longrightarrow> handle_step h t"
| step_end_wait: "handle_step h (end_wait k h)"
| step_add: "handle_add_message_callback n h = Some t \<or> handle_add_ping_callback n h = Some t
     \<or> handle_add_status_callback n h = Some t \<or> handle_add_config_callback n h = Some t \<Longrightarrow> handle_step h t"
| step_recorder_start: "recorder_start filename force can_open now_ms h = Some (t, r'') \<Longrightarrow> handle_step h t"
| step_recorder_stop: "handle_step h (recorder_stop h)"

inductive handle_reachable :: "PythonHandle \<Rightarrow> bool" where
  handle_new: "PythonHandle_construct now = Some h \<Longrightarrow> handle_reachable h"
| handle_next: "handle_reachable h \<Longrightarrow> handle_step h t \<Longrightarrow> handle_reachable t"

section \<open>The invariant\<close>

text \<open>
  A recorder that is open has its writer registered under the id the handle knows. A writer that is
  left over from an earlier recording has an id that is not positive.
\<close>

definition recording_inv :: "bool \<Rightarrow> int \<Rightarrow> driver_callback callback_dict \<Rightarrow> bool" where
  "recording_inv is_open current d \<longleftrightarrow>
     (\<forall>(i, f) \<in> set d. f = Recorder_writer \<longrightarrow> sint i \<le> 0 \<or> is_open \<and> sint i = current)
     \<and> (is_open \<longrightarrow> (\<exists>i. (i, Recorder_writer) \<in> set d \<and> sint i = current))
     \<and> distinct (map fst d)"

definition handle_parts ::
    "PythonHandle \<Rightarrow> bool \<times> int \<times> driver_callback callback_dict \<times> AsyncService" where
  "handle_parts h =
     (rc_open (recorder h), recorderCallbackId h, callbacks (messageCallbacks h), service h)"

fun parts_inv :: "bool \<times> int \<times> driver_callback callback_dict \<times> AsyncService \<Rightarrow> bool" where
  "parts_inv (is_open, current, d, srv) \<longleftrightarrow> recording_inv is_open current d \<and> service_inv srv"

definition handle_inv :: "PythonHandle \<Rightarrow> bool" where
  "handle_inv h \<longleftrightarrow> client_inv h \<and> parts_inv (handle_parts h)"

text \<open>Two parts of the state, each with what leaves it alone.\<close>

lemma handle_invI:
  "client_view t = client_view h \<Longrightarrow> handle_parts t = handle_parts h \<Longrightarrow> handle_inv h \<Longrightarrow> handle_inv t"
  using client_view_inv [of t h] by (simp add: handle_inv_def)

section \<open>The io service\<close>

lemma recorder_callback_open [simp]: "rc_open (recorder_callback m r) = rc_open r"
  by (simp add: recorder_callback_def Recorder_write_def Recorder_write_item_def ofstream_write_def Let_def)

lemma write_recorded_open: "rc_open (fold write_recorded es r) = rc_open r"
proof (induction es arbitrary: r)
  case (Cons e es)
  then show ?case by (cases "(e, r)" rule: write_recorded.cases) simp_all
qed simp

lemma client_ops_parts [simp]:
  "handle_parts (start_op op h) = handle_parts h" "handle_parts (finish_op op h) = handle_parts h"
  "handle_parts (put_listener_queue q h) = handle_parts h"
  "handle_parts (initiate_receive h) = handle_parts h"
  "handle_parts (h\<lparr>message := m\<rparr>) = handle_parts h"
  "handle_parts (h\<lparr>connectionState := c\<rparr>) = handle_parts h"
  "handle_parts (h\<lparr>clock := now\<rparr>) = handle_parts h"
  "handle_parts (h\<lparr>clock := now, handled := ms\<rparr>) = handle_parts h"
  by (simp_all add: handle_parts_def start_op_def finish_op_def put_listener_queue_def initiate_receive_def
      split: option.split)

lemma reset_parts: "reset_connection outcome h = Some t \<Longrightarrow> handle_parts t = handle_parts h"
  by (auto simp: reset_connection_def StatusListener_add_callback_def close_connection_def Let_def
      handle_parts_def put_listener_queue_def split: option.splits prod.splits if_splits shutdown_outcome.splits)

lemma send_config_parts: "send_ping_config outcome config h = (t, r) \<Longrightarrow> handle_parts t = handle_parts h"
  by (auto simp: send_ping_config_def send_def Let_def handle_parts_def
      split: prod.splits sum.splits if_splits send_outcome.splits)

lemma on_connect_parts: "on_connect outcome h = Inr t \<Longrightarrow> handle_parts t = handle_parts h"
  using send_config_parts by (auto simp: on_connect_def split: prod.splits sum.splits)

lemma status_parts: "handle_parts (status_message_callback order now err datagram h) = handle_parts h"
proof -
  have run: "handle_parts (run_status_callback msg f w) = handle_parts w" for msg f and w :: PythonHandle
    by (simp add: run_status_callback_def on_first_status_def Let_def split: status_callback.split)
      (simp add: handle_parts_def put_listener_queue_def)
  show ?thesis
    by (simp add: status_message_callback_def get_one_message_def Let_def call_queue_keep [of handle_parts] run
        split: option.split) (simp add: handle_parts_def)
qed

lemma handle_recorded_parts:
  assumes "handle_recorded order m h = Inr t"
  shows "handle_parts t = handle_parts h"
proof -
  obtain u where u: "handle_message order m h = Inr u" "t = record_events h u"
    using assms by (auto simp: handle_recorded_def bindR_Inr_iff)
  have "recorderCallbackId u = recorderCallbackId h \<and> service u = service h"
    using u(1) by (auto simp: handle_message_def bindR_Inr_iff Let_def call_queue_keep [of recorderCallbackId]
        call_queue_keep [of service] put_queue_defs emit_def run_message_callback_def
        split: if_splits driver_callback.split option.split)
  then show ?thesis
    using u(2) handle_message_keeps(2) [OF u(1)] handle_message_recorder [OF u(1)]
    by (simp add: handle_parts_def record_events_def write_recorded_open)
qed

interpretation python: client_methods "handle_recorded order" "on_connect outcome :: PythonHandle \<Rightarrow> PythonHandle result"
  for order outcome
proof
  fix m and h t :: PythonHandle
  assume "handle_recorded order m h = Inr t"
  then obtain u where u: "handle_message order m h = Inr u" "t = record_events h u"
    by (auto simp: handle_recorded_def bindR_Inr_iff)
  have "client_view t = client_view u" by (simp add: u(2) record_events_def client_view_def listener_queue_def)
  then show "client_view t = client_view h" using virtual.handle_view [OF u(1)] by simp
qed (rule virtual.connect_view)

lemma io_parts:
  assumes "io_step (handle_recorded order) (on_connect outcome) h t"
  shows "handle_parts t = handle_parts h"
  using assms
proof cases
  case io_timer
  then show ?thesis by (auto simp: checker_callback_def Let_def dest: reset_parts split: if_splits)
next
  case io_status
  then show ?thesis by (simp add: status_parts)
next
  case (io_connect k now err)
  let ?u = "initiate_receive ((finish_op (Async_connect k) h)\<lparr>clock := now, connectionState := Connected\<rparr>)"
  have "on_connect outcome ?u = Inr t" using io_connect(2) by (simp add: connect_callback_def split: if_splits)
  from on_connect_parts [OF this] show ?thesis by simp
next
  case io_header
  then show ?thesis
    by (auto simp: header_received_callback_def Let_def split: if_splits option.splits)
next
  case io_payload
  then show ?thesis
    by (auto simp: data_received_callback_def Let_def bindR_Inr_iff dest!: handle_recorded_parts split: if_splits)
next
  case user_send
  then show ?thesis by (auto simp: send_def handle_parts_def split: if_splits send_outcome.splits)
qed (auto dest: listener_ops_put)

section \<open>The methods\<close>

lemma recording_add:
  "recording_inv o' c d \<Longrightarrow> i \<notin> set (map fst d) \<Longrightarrow> f \<noteq> Recorder_writer \<Longrightarrow> recording_inv o' c (d @ [(i, f)])"
  by (auto simp: recording_inv_def)

lemma recording_start:
  "recording_inv False c d \<Longrightarrow> i \<notin> set (map fst d) \<Longrightarrow> recording_inv True (sint i) (d @ [(i, Recorder_writer)])"
  by (auto simp: recording_inv_def)

lemma recording_stop:
  assumes "recording_inv o' c d"
  shows "recording_inv False c (if 0 < c then filter (\<lambda>e. fst e \<noteq> word_of_int c) d else d)"
proof -
  have "sint i \<le> 0 \<or> \<not> 0 < c \<or> i = word_of_int c \<or> sint i \<noteq> c" for i :: callback_id
    by auto
  then show ?thesis using assms by (fastforce simp: recording_inv_def distinct_filter_key)
qed

lemma service_methods_inv:
  "handle_start failure h = (t, r) \<Longrightarrow> handle_inv h \<Longrightarrow> handle_inv t"
  "handle_stop failure h = (t, r) \<Longrightarrow> handle_inv h \<Longrightarrow> handle_inv t"
proof -
  have srv: "handle_inv (h\<lparr>service := srv\<rparr>)" if "handle_inv h" "service_inv srv" for srv
  proof -
    have "client_view (h\<lparr>service := srv\<rparr>) = client_view h" by (simp add: client_view_def listener_queue_def)
    with that show ?thesis using client_view_inv by (fastforce simp: handle_inv_def handle_parts_def)
  qed
  show "handle_inv t" if t: "handle_start failure h = (t, r)" and "handle_inv h"
  proof -
    obtain srv where "start failure (service h) = (srv, r)" "t = h\<lparr>service := srv\<rparr>"
      using t by (auto simp: handle_start_def split: prod.splits)
    with srv that(2) start_inv show ?thesis by (auto simp: handle_inv_def handle_parts_def)
  qed
  show "handle_inv t" if t: "handle_stop failure h = (t, r)" and "handle_inv h"
  proof -
    obtain srv where "stop failure (service h) = (srv, r)" "t = h\<lparr>service := srv\<rparr>"
      using t by (auto simp: handle_stop_def split: prod.splits)
    with srv that(2) stop_inv show ?thesis by (auto simp: handle_inv_def handle_parts_def)
  qed
qed

text \<open>The message queue is no part of the client.\<close>

lemma queue_parts:
  "handle_inv h \<Longrightarrow> recording_inv (rc_open r) c d \<Longrightarrow> callbacks q = d
   \<Longrightarrow> handle_inv (h\<lparr>recorder := r, messageCallbacks := q, recorderCallbackId := c\<rparr>)"
  using client_view_inv [of "h\<lparr>recorder := r, messageCallbacks := q, recorderCallbackId := c\<rparr>" h]
  by (simp add: handle_inv_def handle_parts_def client_view_def listener_queue_def)

lemma add_methods_inv:
  assumes "handle_add_message_callback n h = Some t \<or> handle_add_ping_callback n h = Some t
     \<or> handle_add_status_callback n h = Some t \<or> handle_add_config_callback n h = Some t"
    and "handle_inv h"
  shows "handle_inv t"
  using assms(1)
proof (elim disjE)
  assume "handle_add_message_callback n h = Some t"
  then obtain q i where q: "add_callback (messageCallbacks h) (User n) = Some (q, i)" "t = h\<lparr>messageCallbacks := q\<rparr>"
    by (auto simp: handle_add_message_callback_def add_message_callback_def put_messageCallbacks_def)
  have "recording_inv (rc_open (recorder h)) (recorderCallbackId h) (callbacks q)"
    using add_callback_SomeD [OF q(1)] assms(2) recording_add by (auto simp: handle_inv_def handle_parts_def)
  from queue_parts [OF assms(2) this refl] show ?thesis by (simp add: q(2))
next
  assume "handle_add_status_callback n h = Some t"
  then obtain i where i: "StatusListener_add_callback (User_status n) h = Some (t, i)"
    by (auto simp: handle_add_status_callback_def add_status_callback_def)
  then have "io_step (handle_recorded (\<lambda>d. d)) (on_connect (Sent 0)) h t" by (rule user_add_status)
  with io_parts python.io_step_inv assms(2) show ?thesis by (auto simp: handle_inv_def)
next
  assume "handle_add_ping_callback n h = Some t"
  then show ?thesis using assms(2)
    by (intro handle_invI [of t h]) (auto simp: handle_add_ping_callback_def add_ping_callback_def put_pingCallbacks_def
      client_view_def listener_queue_def handle_parts_def)
next
  assume "handle_add_config_callback n h = Some t"
  then show ?thesis using assms(2)
    by (intro handle_invI [of t h]) (auto simp: handle_add_config_callback_def add_config_callback_def put_configCallbacks_def
      client_view_def listener_queue_def handle_parts_def)
qed

lemma Recorder_open_open:
  "Recorder_open filename force can_open now_ms r = (r', Inr u) \<Longrightarrow> rc_open r'"
  "Recorder_open filename force can_open now_ms r = (r', Inl e) \<Longrightarrow> \<not> rc_open r'"
  by (auto simp: Recorder_open_def ofstream_write_def Let_def split: if_splits)

lemma recorder_start_inv:
  assumes "recorder_start filename force can_open now_ms h = Some (t, r)" and "handle_inv h"
  shows "handle_inv t"
proof (cases "rc_open (recorder h)")
  case True
  with assms show ?thesis by (simp add: recorder_start_def)
next
  case False
  then have inv: "recording_inv False (recorderCallbackId h) (callbacks (messageCallbacks h))"
    using assms(2) by (simp add: handle_inv_def handle_parts_def)
  obtain r' res where open': "Recorder_open filename force can_open now_ms (recorder h) = (r', res)" by force
  show ?thesis
  proof (cases res)
    case (Inl e)
    with assms(1) False open' have t: "t = h\<lparr>recorder := r'\<rparr>" by (simp add: recorder_start_def)
    have "\<not> rc_open r'" using Recorder_open_open(2) open' Inl by blast
    with queue_parts [OF assms(2), of r' "recorderCallbackId h" _ "messageCallbacks h"] inv t show ?thesis by simp
  next
    case (Inr u)
    with assms(1) False open' obtain q i where q: "add_callback (messageCallbacks h) Recorder_writer = Some (q, i)"
      "t = h\<lparr>recorder := r', messageCallbacks := q, recorderCallbackId := sint i\<rparr>"
      by (auto simp: recorder_start_def add_message_callback_def put_messageCallbacks_def split: option.splits)
    have "rc_open r'" using Recorder_open_open(1) open' Inr by blast
    moreover have "recording_inv True (sint i) (callbacks q)"
      using add_callback_SomeD [OF q(1)] recording_start [OF inv] by auto
    ultimately show ?thesis using queue_parts [OF assms(2), of r' "sint i" _ q] q(2) by simp
  qed
qed

lemma recorder_stop_eq:
  "recorder_stop h = h\<lparr>recorder := Recorder_close (recorder h), messageCallbacks := (if 0 < recorderCallbackId h
        then fst (remove_callback (messageCallbacks h) (word_of_int (recorderCallbackId h)))
        else messageCallbacks h), recorderCallbackId := recorderCallbackId h\<rparr>"
  by (simp add: recorder_stop_def remove_message_callback_def put_messageCallbacks_def Let_def split: prod.split)

lemma recorder_stop_inv: "handle_inv h \<Longrightarrow> handle_inv (recorder_stop h)"
proof -
  assume inv: "handle_inv h"
  then have "recording_inv (rc_open (recorder h)) (recorderCallbackId h) (callbacks (messageCallbacks h))"
    by (simp add: handle_inv_def handle_parts_def)
  from recording_stop [OF this] show ?thesis
    unfolding recorder_stop_eq
    by (intro queue_parts [OF inv _ refl]) (auto simp: Recorder_close_def remove_callback_def)
qed

lemma handle_step_inv:
  assumes "handle_step h t" and "handle_inv h"
  shows "handle_inv t"
  using assms(1)
proof cases
  case (step_io order outcome)
  then have "client_inv t" using python.io_step_inv assms(2) by (auto simp: handle_inv_def)
  with io_parts [OF step_io(3)] assms(2) show ?thesis by (simp add: handle_inv_def)
next
  case step_run_returns
  have "client_view t = client_view h" using step_run_returns by (simp add: client_view_def listener_queue_def)
  then have "client_inv t" using client_view_inv assms(2) by (auto simp: handle_inv_def)
  moreover have "service_inv (run_returns (service h))"
    using assms(2) step_run_returns(2) by (simp add: handle_inv_def handle_parts_def service_inv_def run_returns_def joinable_def)
  ultimately show ?thesis using assms(2) step_run_returns(1) by (simp add: handle_inv_def handle_parts_def)
next
  case step_start
  then show ?thesis using service_methods_inv(1) assms(2) by blast
next
  case step_stop
  then show ?thesis using service_methods_inv(2) assms(2) by blast
next
  case (step_send_config outcome config r')
  then have "send_ping_config outcome config h = (t, r')" by (simp add: send_config_def)
  then have "client_view t = client_view h" using send_ping_config_view by blast
  moreover have "handle_parts t = handle_parts h"
    using send_config_parts step_send_config by (simp add: send_config_def)
  ultimately show ?thesis using assms(2) by (rule handle_invI)
next
  case (step_begin_wait uninit)
  have "handle_parts t = handle_parts h"
    using step_begin_wait by (auto simp: begin_wait_def waiting_state_def handle_parts_def dest!: register_single_shot_SomeD)
  from handle_invI [OF wait_views(1) [OF step_begin_wait] this assms(2)] show ?thesis .
next
  case (step_end_wait k)
  have "handle_parts t = handle_parts h" using step_end_wait by (simp add: end_wait_def handle_parts_def)
  moreover have "client_view t = client_view h" using step_end_wait wait_views(2) by simp
  ultimately show ?thesis using assms(2) handle_invI by blast
next
  case step_add
  then show ?thesis using add_methods_inv assms(2) by blast
next
  case step_recorder_start
  then show ?thesis using recorder_start_inv assms(2) by blast
next
  case step_recorder_stop
  then show ?thesis using recorder_stop_inv assms(2) by blast
qed

lemma handle_new_inv:
  assumes "PythonHandle_construct now = Some h"
  shows "handle_inv h"
proof -
  obtain d where d: "SonarDriver_construct now = Some d" "h = SonarDriver.extend d
      \<lparr>service = new_service, recorder = new_recorder, recorderCallbackId = - 1\<rparr>"
    using assms by (auto simp: PythonHandle_construct_def)
  have "client_inv d" using d(1) by (rule driver_start_inv)
  moreover have "socket h = socket d" "connectionState h = connectionState d" "statusListener h = statusListener d"
    "statusCallbackId h = statusCallbackId d" "pending h = pending d" by (simp_all add: d(2) SonarDriver.defs)
  ultimately have "client_inv h" by (simp add: client_inv_defs)
  moreover have "messageCallbacks h = messageCallbacks d" by (simp add: d(2) SonarDriver.defs)
  moreover have "callbacks (messageCallbacks d) = []"
    using d(1) by (auto simp: SonarDriver_construct_def SonarClient.defs empty_queue_def)
  ultimately show ?thesis
    by (simp add: handle_inv_def handle_parts_def recording_inv_def d(2) SonarDriver.defs new_recorder_def
        service_inv_def new_service_def joinable_def)
qed

lemma handle_reachable_inv: "handle_reachable h \<Longrightarrow> handle_inv h"
  by (induction rule: handle_reachable.induct) (auto intro: handle_new_inv handle_step_inv)

section \<open>Properties\<close>

text \<open>
  C19: whatever a script calls and whatever the sonar sends, a handle stays consistent. The watchdog and
  the status listener each have one operation under way; the service's flag says whether there is a thread
  to join; a handle that is recording has its writer among the message callbacks, under the id it
  knows, and every other writer is one that \<open>recorder_stop\<close> took for unregistered, with an id that is not
  positive.
\<close>

theorem python_handle_stays_consistent:
  assumes "handle_reachable h"
  shows "count_list (pending h) Timer_wait = 1 \<and> count_list (pending h) Status_receive = 1
     \<and> is_running (service h) = joinable (thread_of (service h))
     \<and> (is_recording h \<longrightarrow> (\<exists>i. (i, Recorder_writer) \<in> set (callbacks (messageCallbacks h)) \<and> sint i = recorderCallbackId h))
     \<and> (\<forall>i. (i, Recorder_writer) \<in> set (callbacks (messageCallbacks h)) \<longrightarrow>
          sint i \<le> 0 \<or> is_recording h \<and> sint i = recorderCallbackId h)"
  using handle_reachable_inv [OF assms]
  by (auto simp: handle_inv_def handle_parts_def recording_inv_def client_inv_def waits_def service_inv_def
      is_running_def is_recording_def)

lemma python_handle_stays_consistent_witness:
  "\<exists>h. PythonHandle_construct 0 = Some h \<and> count_list (pending h) Timer_wait = 1"
proof -
  obtain h where h: "PythonHandle_construct 0 = Some h"
    using fresh_driver_constructed by (auto simp: PythonHandle_construct_def)
  from python_handle_stays_consistent [OF handle_new [OF h]] h show ?thesis by blast
qed

text \<open>
  \<open>recorder_stop\<close> forgets to forget the id. Called once more after a callback was added, it takes that
  callback off: the callback has the id that the writer had, since ids are given again at once, and the script is not told.
\<close>

theorem second_stop_removes_another_callback:
  assumes "\<not> is_recording h" and "distinct (map fst (callbacks (messageCallbacks h)))"
    and "recorder_start filename force True now_ms h = Some (h1, Inr ())" and "0 < recorderCallbackId h1"
    and "handle_add_message_callback n (recorder_stop h1) = Some h3"
  shows "(word_of_int (recorderCallbackId h1), User n) \<in> set (callbacks (messageCallbacks h3))
     \<and> callbacks (messageCallbacks (recorder_stop h3)) = callbacks (messageCallbacks h)"
proof -
  obtain r q i where q: "add_callback (messageCallbacks h) Recorder_writer = Some (q, i)"
    and h1: "messageCallbacks h1 = q" "recorderCallbackId h1 = sint i"
    using assms(1,3) by (auto simp: recorder_start_def is_recording_def add_message_callback_def put_messageCallbacks_def
        split: option.splits prod.splits sum.splits)
  have fresh: "callbacks q = callbacks (messageCallbacks h) @ [(i, Recorder_writer)]"
    "i \<notin> fst ` set (callbacks (messageCallbacks h))"
    using add_callback_SomeD [OF q] by auto
  have stop1: "callbacks (messageCallbacks (recorder_stop h1)) = callbacks (messageCallbacks h)"
    using assms(4) fresh by (auto simp: recorder_stop_eq remove_callback_def h1 filter_id_conv image_iff)
  obtain q3 j where q3: "add_callback (messageCallbacks (recorder_stop h1)) (User n) = Some (q3, j)"
    "h3 = (recorder_stop h1)\<lparr>messageCallbacks := q3\<rparr>"
    using assms(5) by (auto simp: handle_add_message_callback_def add_message_callback_def put_messageCallbacks_def)
  have "j = i"
    using q q3(1) stop1 by (auto simp: add_callback_def add_entry_def split: option.splits)
  then have "callbacks q3 = callbacks (messageCallbacks h) @ [(i, User n)]"
    using add_callback_SomeD [OF q3(1)] stop1 by auto
  then show ?thesis
    using assms(4) fresh(2) q3(2) by (auto simp: recorder_stop_eq remove_callback_def h1 filter_id_conv image_iff)
qed

lemma second_stop_removes_another_callback_witness:
  "\<exists>h1 h3. recorder_start ''log'' True True 0 sample_handle = Some (h1, Inr ())
     \<and> handle_add_message_callback 5 (recorder_stop h1) = Some h3
     \<and> callbacks (messageCallbacks (recorder_stop h3)) = [(0, User 1)]"
proof -
  have id: "add_callback \<lparr>callbacks = [(0, User (Suc 0))], single_shots = [], sshots_called = False\<rparr> f =
      Some (\<lparr>callbacks = [(0, User (Suc 0)), (1, f)], single_shots = [], sshots_called = False\<rparr>, 1)" for f
    by (simp add: add_callback_def add_entry_def free_id.simps)
  obtain h1 where h1: "recorder_start ''log'' True True 0 sample_handle = Some (h1, Inr ())" "recorderCallbackId h1 = 1"
    "messageCallbacks h1 = \<lparr>callbacks = [(0, User (Suc 0)), (1, Recorder_writer)], single_shots = [], sshots_called = False\<rparr>"
    by (simp add: recorder_start_def new_recorder_def Recorder_open_closed add_message_callback_def put_messageCallbacks_def
        one_callback_def id)
  then have "messageCallbacks (recorder_stop h1) = \<lparr>callbacks = [(0, User (Suc 0))], single_shots = [], sshots_called = False\<rparr>"
    by (simp add: recorder_stop_eq remove_callback_def)
  then obtain h3 where h3: "handle_add_message_callback 5 (recorder_stop h1) = Some h3"
    by (auto simp: handle_add_message_callback_def add_message_callback_def id)
  have "\<not> is_recording sample_handle" "distinct (map fst (callbacks (messageCallbacks sample_handle)))"
    by (simp_all add: is_recording_def new_recorder_def one_callback_def)
  from second_stop_removes_another_callback [OF this h1(1) _ h3] h1(1,2) h3 show ?thesis
    by (auto simp: one_callback_def)
qed

end
