(* ===== verification/Object_Lifetime.thy ===== *)
theory Object_Lifetime
  imports Python_Machine
begin

text \<open>
  The end of the handle of the Python package. Its destructor runs its body, then those of its members
  in the reverse order of their declaration: the recorder, the driver, the service. Meanwhile the
  thread of the service may still run handlers, which hold a plain \<open>this\<close>. Destroying the timer and
  the sockets of the driver cancels the operations under way, and a cancelled operation has its handler
  run all the same, with an error; so while the thread runs, each of them is called on an object that
  is gone.
\<close>

section \<open>The destructors\<close>

definition delete_recorder :: "Recorder \<Rightarrow> Recorder" where
  "delete_recorder r = (if rc_open r then Recorder_close r else r)"

text \<open>
  An exception that leaves a destructor ends the program, and so does the destructor of a thread that
  is joinable.
\<close>

definition delete_service :: "string option \<Rightarrow> AsyncService \<Rightarrow> AsyncService \<times> unit result" where
  "delete_service failure s =
     (case stop failure s of
        (s, Inl e) \<Rightarrow> (s, Inl Terminates)
      | (s, Inr _) \<Rightarrow> (s, if joinable (thread_of s) then Inl Terminates else Inr ()))"

datatype destruction = Call_stop | Delete_recorder | Delete_driver | Delete_service

definition delete_handle :: "destruction list" where
  "delete_handle = [Call_stop, Delete_recorder, Delete_driver, Delete_service]"

record teardown =
  left_of :: PythonHandle
  recorder_lives :: bool
  driver_lives :: bool
  to_destroy :: "destruction list"
  used_dead_object :: bool
  program_ended :: bool

definition teardown_of :: "destruction list \<Rightarrow> PythonHandle \<Rightarrow> teardown" where
  "teardown_of ds h =
     \<lparr>left_of = h, recorder_lives = True, driver_lives = True, to_destroy = ds,
      used_dead_object = False, program_ended = False\<rparr>"

definition writes_record :: "PythonHandle \<Rightarrow> PythonHandle \<Rightarrow> bool" where
  "writes_record h t \<longleftrightarrow> (\<exists>e \<in> set (drop (length (events h)) (events t)). case e of
     On_message Recorder_writer m \<Rightarrow> True | _ \<Rightarrow> False)"

inductive teardown_step :: "teardown \<Rightarrow> teardown \<Rightarrow> bool" where
  down_stop: "\<not> program_ended s \<Longrightarrow> to_destroy s = Call_stop # ds
     \<Longrightarrow> handle_stop failure (left_of s) = (t, r)
     \<Longrightarrow> teardown_step s (s\<lparr>left_of := t, to_destroy := ds, program_ended := r \<noteq> Inr ()\<rparr>)"
| down_recorder: "\<not> program_ended s \<Longrightarrow> to_destroy s = Delete_recorder # ds
     \<Longrightarrow> teardown_step s (s\<lparr>left_of := (left_of s)\<lparr>recorder := delete_recorder (recorder (left_of s))\<rparr>,
           recorder_lives := False, to_destroy := ds\<rparr>)"
| down_driver: "\<not> program_ended s \<Longrightarrow> to_destroy s = Delete_driver # ds
     \<Longrightarrow> teardown_step s (s\<lparr>driver_lives := False, to_destroy := ds\<rparr>)"
| down_service: "\<not> program_ended s \<Longrightarrow> to_destroy s = Delete_service # ds
     \<Longrightarrow> delete_service failure (service (left_of s)) = (v, r)
     \<Longrightarrow> teardown_step s (s\<lparr>left_of := (left_of s)\<lparr>service := v\<rparr>, to_destroy := ds, program_ended := r \<noteq> Inr ()\<rparr>)"
| down_io: "\<not> program_ended s \<Longrightarrow> thread_of (service (left_of s)) = Running \<Longrightarrow> driver_lives s
     \<Longrightarrow> (\<And>d. mset (order d) = mset d)
     \<Longrightarrow> io_step (handle_recorded order) (on_connect outcome) (left_of s) t
     \<Longrightarrow> teardown_step s (s\<lparr>left_of := t,
           used_dead_object := used_dead_object s \<or> \<not> recorder_lives s \<and> writes_record (left_of s) t\<rparr>)"
| down_cancelled: "\<not> program_ended s \<Longrightarrow> thread_of (service (left_of s)) = Running \<Longrightarrow> \<not> driver_lives s
     \<Longrightarrow> op \<in> set (pending (left_of s))
     \<Longrightarrow> teardown_step s (s\<lparr>left_of := finish_op op (left_of s), used_dead_object := True\<rparr>)"
| down_run_returns: "\<not> program_ended s \<Longrightarrow> thread_of (service (left_of s)) = Running
     \<Longrightarrow> teardown_step s (s\<lparr>left_of := (left_of s)\<lparr>service := run_returns (service (left_of s))\<rparr>\<rparr>)"

section \<open>After \<open>stop\<close> no handler runs\<close>

lemma stopped_thread: "stop failure v = (w, Inr ()) \<Longrightarrow> service_inv v \<Longrightarrow> thread_of w = No_thread \<and> service_inv w"
  using stop_inv [of failure v w "Inr ()"]
  by (cases "thread_of w") (auto simp: stop_def is_running_def service_inv_def joinable_def Let_def
      split: if_splits option.splits)

text \<open>Before the body has run, and after it.\<close>

definition teardown_inv :: "teardown \<Rightarrow> bool" where
  "teardown_inv s \<longleftrightarrow> \<not> used_dead_object s \<and>
     (\<not> program_ended s \<longrightarrow>
        (if to_destroy s = delete_handle then recorder_lives s \<and> driver_lives s \<and> handle_inv (left_of s)
         else Call_stop \<notin> set (to_destroy s) \<and> thread_of (service (left_of s)) = No_thread
            \<and> service_inv (service (left_of s))))"

lemma teardown_inv_step:
  assumes "teardown_step s s'" and "teardown_inv s"
  shows "teardown_inv s'"
  using assms
proof cases
  case (down_stop ds failure t r)
  obtain v where v: "stop failure (service (left_of s)) = (v, r)" "t = (left_of s)\<lparr>service := v\<rparr>"
    using down_stop(4) by (auto simp: handle_stop_def split: prod.splits)
  have ds: "to_destroy s = delete_handle" and inv: "handle_inv (left_of s)"
    using down_stop assms(2) by (auto simp: teardown_inv_def split: if_splits)
  then have "ds = [Delete_recorder, Delete_driver, Delete_service]" "service_inv (service (left_of s))"
    using down_stop(3) by (simp_all add: delete_handle_def handle_inv_def handle_parts_def)
  with v stopped_thread [of failure "service (left_of s)" v] show ?thesis
    using down_stop(1) assms(2) by (auto simp: teardown_inv_def delete_handle_def)
next
  case (down_service ds failure v r)
  have "to_destroy s \<noteq> delete_handle" using down_service(3) by (simp add: delete_handle_def)
  with assms(2) down_service have inv: "service_inv (service (left_of s))" "thread_of (service (left_of s)) = No_thread"
      "Call_stop \<notin> set ds" "\<not> used_dead_object s" by (auto simp: teardown_inv_def)
  then have "v = service (left_of s)"
    using down_service(4) by (auto simp: delete_service_def stop_def service_inv_def is_running_def joinable_def)
  with inv down_service(1) show ?thesis by (auto simp: teardown_inv_def delete_handle_def)
next
  case (down_io order outcome t)
  have "handle_step (left_of s) t" using down_io by (intro step_io)
  then show ?thesis
    using assms(2) down_io handle_step_inv [of "left_of s" t] by (auto simp: teardown_inv_def split: if_splits)
next
  case down_run_returns
  have "handle_step (left_of s) ((left_of s)\<lparr>service := run_returns (service (left_of s))\<rparr>)"
    using down_run_returns by (intro step_run_returns)
  then show ?thesis
    using assms(2) down_run_returns handle_step_inv [of "left_of s"] by (auto simp: teardown_inv_def split: if_splits)
qed (auto simp: teardown_inv_def delete_handle_def split: if_splits)

lemma teardown_inv_runs:
  "teardown_step\<^sup>*\<^sup>* s s' \<Longrightarrow> teardown_inv s \<Longrightarrow> teardown_inv s'"
  by (induction rule: rtranclp_induct) (auto intro: teardown_inv_step)

text \<open>The members alone: \<open>~AsyncService\<close> stops the service when the driver is gone already.\<close>

lemma members_alone_use_the_driver:
  assumes "thread_of (service h) = Running" and "op \<in> set (pending h)"
  shows "\<exists>s'. teardown_step\<^sup>*\<^sup>* (teardown_of (tl delete_handle) h) s' \<and> used_dead_object s'"
proof -
  let ?h = "h\<lparr>recorder := delete_recorder (recorder h)\<rparr>"
  let ?s0 = "teardown_of [Delete_recorder, Delete_driver, Delete_service] h"
  let ?s1 = "?s0\<lparr>left_of := ?h, recorder_lives := False, to_destroy := [Delete_driver, Delete_service]\<rparr>"
  let ?s2 = "?s1\<lparr>driver_lives := False, to_destroy := [Delete_service]\<rparr>"
  have "teardown_step ?s0 ?s1"
    using down_recorder [of ?s0 "[Delete_driver, Delete_service]"] by (simp add: teardown_of_def)
  moreover have "teardown_step ?s1 ?s2"
    using down_driver [of ?s1 "[Delete_service]"] by (simp add: teardown_of_def)
  moreover have "teardown_step ?s2 (?s2\<lparr>left_of := finish_op op ?h, used_dead_object := True\<rparr>)"
    using down_cancelled [of ?s2 op] assms by (simp add: teardown_of_def)
  ultimately show ?thesis
    by (intro exI conjI) (rule converse_rtranclp_into_rtranclp, simp add: delete_handle_def,
      rule converse_rtranclp_into_rtranclp, assumption, rule r_into_rtranclp, assumption, simp)
qed

lemma destruction_ends:
  assumes "service_inv (service h)"
  shows "\<exists>s'. teardown_step\<^sup>*\<^sup>* (teardown_of delete_handle h) s' \<and> to_destroy s' = [] \<and> \<not> program_ended s'
     \<and> recorder (left_of s') = delete_recorder (recorder h)"
proof -
  let ?s0 = "teardown_of [Call_stop, Delete_recorder, Delete_driver, Delete_service] h"
  have "snd (stop None (service h)) = Inr ()" by (simp add: stop_def Let_def joinable_def)
  then obtain v where v: "stop None (service h) = (v, Inr ())" by (cases "stop None (service h)") simp
  then have thread: "thread_of v = No_thread" "service_inv v" using stopped_thread assms by blast+
  then have stop: "stop None v = (v, Inr ())" by (simp add: stop_def service_inv_def is_running_def joinable_def)
  have swap: "h\<lparr>service := v, recorder := r\<rparr> = h\<lparr>recorder := r, service := v\<rparr>" for r by simp
  let ?s1 = "?s0\<lparr>left_of := h\<lparr>service := v\<rparr>, to_destroy := [Delete_recorder, Delete_driver, Delete_service]\<rparr>"
  let ?s2 = "?s1\<lparr>left_of := h\<lparr>recorder := delete_recorder (recorder h), service := v\<rparr>, recorder_lives := False,
    to_destroy := [Delete_driver, Delete_service]\<rparr>"
  let ?s3 = "?s2\<lparr>driver_lives := False, to_destroy := [Delete_service]\<rparr>"
  let ?s4 = "?s3\<lparr>to_destroy := []\<rparr>"
  have "teardown_step ?s0 ?s1"
    using down_stop [of ?s0 "[Delete_recorder, Delete_driver, Delete_service]" None "h\<lparr>service := v\<rparr>" "Inr ()"] v
    by (simp add: teardown_of_def handle_stop_def)
  moreover have "teardown_step ?s1 ?s2"
    using down_recorder [of ?s1 "[Delete_driver, Delete_service]"] by (simp add: teardown_of_def swap)
  moreover have "teardown_step ?s2 ?s3"
    using down_driver [of ?s2 "[Delete_service]"] by (simp add: teardown_of_def)
  moreover have "teardown_step ?s3 ?s4"
    using down_service [of ?s3 "[]" None v "Inr ()"] stop thread
    by (simp add: teardown_of_def delete_service_def joinable_def)
  ultimately have "teardown_step\<^sup>*\<^sup>* ?s0 ?s4"
    by (meson converse_rtranclp_into_rtranclp rtranclp.rtrancl_refl)
  then show ?thesis by (intro exI [of _ ?s4]) (simp add: delete_handle_def teardown_of_def)
qed

text \<open>
  C26: however the handlers interleave with the destructor of the handle, none runs on an object that is
  gone, because the body stops the service first; the destructor comes to its end, with the thread
  joined and what was recorded in the file. Without the body, as for a driver and a service that a
  program owns and does not stop itself, a handler can run on the destroyed driver.
\<close>

theorem handle_is_destroyed_safely:
  assumes "handle_reachable h"
  shows "(\<forall>s'. teardown_step\<^sup>*\<^sup>* (teardown_of delete_handle h) s' \<longrightarrow> \<not> used_dead_object s'
       \<and> (to_destroy s' = [] \<and> \<not> program_ended s' \<longrightarrow> thread_of (service (left_of s')) = No_thread))
     \<and> (\<exists>s'. teardown_step\<^sup>*\<^sup>* (teardown_of delete_handle h) s' \<and> to_destroy s' = [] \<and> \<not> program_ended s'
          \<and> rc_file (recorder (left_of s')) = rc_file (recorder h) \<and> \<not> rc_open (recorder (left_of s')))
     \<and> (thread_of (service h) = Running \<longrightarrow>
          (\<exists>s'. teardown_step\<^sup>*\<^sup>* (teardown_of (tl delete_handle) h) s' \<and> used_dead_object s'))"
proof (intro conjI allI impI)
  note inv = handle_reachable_inv [OF assms]
  have start: "teardown_inv (teardown_of delete_handle h)"
    using inv by (simp add: teardown_inv_def teardown_of_def)
  show "\<not> used_dead_object s'" if "teardown_step\<^sup>*\<^sup>* (teardown_of delete_handle h) s'" for s'
    using teardown_inv_runs [OF that start] by (simp add: teardown_inv_def)
  show "thread_of (service (left_of s')) = No_thread"
    if "teardown_step\<^sup>*\<^sup>* (teardown_of delete_handle h) s'" "to_destroy s' = [] \<and> \<not> program_ended s'" for s'
    using teardown_inv_runs [OF that(1) start] that(2) by (auto simp: teardown_inv_def delete_handle_def)
  show "\<exists>s'. teardown_step\<^sup>*\<^sup>* (teardown_of delete_handle h) s' \<and> to_destroy s' = [] \<and> \<not> program_ended s'
      \<and> rc_file (recorder (left_of s')) = rc_file (recorder h) \<and> \<not> rc_open (recorder (left_of s'))"
  proof -
    have "service_inv (service h)" using inv by (simp add: handle_inv_def handle_parts_def)
    moreover have "rc_file (delete_recorder r) = rc_file r \<and> \<not> rc_open (delete_recorder r)" for r
      by (simp add: delete_recorder_def Recorder_close_def)
    ultimately show ?thesis using destruction_ends [of h] by metis
  qed
  have "Timer_wait \<in> set (pending h)"
    using inv by (auto simp: handle_inv_def client_inv_def waits_def intro: ccontr simp flip: count_list_0_iff)
  then show "\<exists>s'. teardown_step\<^sup>*\<^sup>* (teardown_of (tl delete_handle) h) s' \<and> used_dead_object s'"
    if "thread_of (service h) = Running"
    using members_alone_use_the_driver that by blast
qed

lemma handle_is_destroyed_safely_witness:
  "\<exists>h t. PythonHandle_construct 0 = Some h \<and> handle_start None h = (t, Inr ())
     \<and> \<not> (\<exists>s'. teardown_step\<^sup>*\<^sup>* (teardown_of delete_handle t) s' \<and> used_dead_object s')
     \<and> (\<exists>s'. teardown_step\<^sup>*\<^sup>* (teardown_of (tl delete_handle) t) s' \<and> used_dead_object s')"
proof -
  obtain h where h: "PythonHandle_construct 0 = Some h" "service h = new_service"
    using fresh_driver_constructed by (auto simp: PythonHandle_construct_def SonarDriver.defs)
  let ?t = "fst (handle_start None h)"
  have t: "handle_start None h = (?t, Inr ())" "thread_of (service ?t) = Running"
    using h(2) by (simp_all add: handle_start_def start_def is_running_def new_service_def joinable_def)
  have "handle_reachable ?t" by (rule handle_next [OF handle_new [OF h(1)] step_start [OF t(1)]])
  from handle_is_destroyed_safely [OF this] h(1) t show ?thesis by blast
qed

end
