(* ===== verification/Python_Interpreter.thy ===== *)
theory Python_Interpreter
  imports Python_Handle Driver_Requests
begin

text \<open>
  The driver under the interpreter lock of Python (\<open>python/src/oculus_python.cpp\<close>). A script
  calls the methods of the handle with the lock held, and the bindings never release it; the thread
  of the io service takes it around each callback of Python. The code a thread has still to run is
  a list of operations, two threads interleave, and the lemmas say which calls of a script can
  return. What a Python callback does is whether it raises.
\<close>

section \<open>Code and steps\<close>

text \<open>What a wrapper gives to Python: a share of a message or ping, or a pointer to a struct.\<close>

datatype py_argument = Shared_message | Shared_ping | Status_pointer | Config_pointer

datatype lock_op =
    Gil_ensure
  | Gil_call nat "py_argument list" bool
  | Gil_release
  | Native
  | Run_shots
  | Join nat
  | Await_shot

definition message_callback_wrapper :: "nat \<Rightarrow> bool \<Rightarrow> lock_op list" where
  "message_callback_wrapper callback raises =
     [Gil_ensure, Gil_call callback [Shared_message] raises, Gil_release]"

definition ping_callback_wrapper :: "nat \<Rightarrow> bool \<Rightarrow> lock_op list" where
  "ping_callback_wrapper callback raises =
     [Gil_ensure, Gil_call callback [Shared_ping] raises, Gil_release]"

definition status_callback_wrapper :: "nat \<Rightarrow> bool \<Rightarrow> lock_op list" where
  "status_callback_wrapper callback raises =
     [Gil_ensure, Gil_call callback [Status_pointer] raises, Gil_release]"

definition config_callback_wrapper :: "nat \<Rightarrow> bool \<Rightarrow> lock_op list" where
  "config_callback_wrapper callback raises =
     [Gil_ensure, Gil_call callback [Config_pointer, Config_pointer] raises, Gil_release]"

text \<open>
  A state of the interpreter: who holds the lock, what each thread has to run, whether the single
  shots of the message queue ran, the calls made, and whether the process ended.
\<close>

record interpreter =
  gil :: "nat option"
  code :: "nat \<Rightarrow> lock_op list"
  shots_ran :: bool
  calls :: "(nat \<times> py_argument list) list"
  terminated :: bool

definition set_code :: "nat \<Rightarrow> lock_op list \<Rightarrow> interpreter \<Rightarrow> interpreter" where
  "set_code t ops s = s\<lparr>code := (code s)(t := ops)\<rparr>"

text \<open>
  An exception that leaves a callback passes the release, the callback queue and the io service,
  and ends the process. A wait for a single shot goes on until it ran.
\<close>

inductive lock_step :: "interpreter \<Rightarrow> interpreter \<Rightarrow> bool" where
  step_ensure: "\<not> terminated s \<Longrightarrow> code s t = Gil_ensure # ops \<Longrightarrow> gil s = None
     \<Longrightarrow> lock_step s (set_code t ops (s\<lparr>gil := Some t\<rparr>))"
| step_call: "\<not> terminated s \<Longrightarrow> code s t = Gil_call n args False # ops \<Longrightarrow> gil s = Some t
     \<Longrightarrow> lock_step s (set_code t ops (s\<lparr>calls := calls s @ [(n, args)]\<rparr>))"
| step_raise: "\<not> terminated s \<Longrightarrow> code s t = Gil_call n args True # ops \<Longrightarrow> gil s = Some t
     \<Longrightarrow> lock_step s (s\<lparr>calls := calls s @ [(n, args)], terminated := True\<rparr>)"
| step_release: "\<not> terminated s \<Longrightarrow> code s t = Gil_release # ops \<Longrightarrow> gil s = Some t
     \<Longrightarrow> lock_step s (set_code t ops (s\<lparr>gil := None\<rparr>))"
| step_native: "\<not> terminated s \<Longrightarrow> code s t = Native # ops \<Longrightarrow> lock_step s (set_code t ops s)"
| step_shots: "\<not> terminated s \<Longrightarrow> code s t = Run_shots # ops
     \<Longrightarrow> lock_step s (set_code t ops (s\<lparr>shots_ran := True\<rparr>))"
| step_join: "\<not> terminated s \<Longrightarrow> code s t = Join u # ops \<Longrightarrow> code s u = []
     \<Longrightarrow> lock_step s (set_code t ops s)"
| step_await: "\<not> terminated s \<Longrightarrow> code s t = Await_shot # ops \<Longrightarrow> shots_ran s
     \<Longrightarrow> lock_step s (set_code t ops s)"

inductive_cases lock_step_cases: "lock_step s s'"

section \<open>The threads of a script\<close>

text \<open>What the io service runs for a message: \<open>handle_message\<close> with the callbacks it calls.\<close>

fun callback_code :: "(nat \<Rightarrow> lock_op list) \<Rightarrow> driver_callback \<Rightarrow> lock_op list" where
  "callback_code wrapper (User n) = wrapper n"
| "callback_code wrapper (Config_setter f) = [Native]"
| "callback_code wrapper Recorder_writer = [Native]"

definition queue_code ::
    "driver_order \<Rightarrow> (nat \<Rightarrow> lock_op list) \<Rightarrow> driver_callback callback_queue \<Rightarrow> lock_op list" where
  "queue_code order wrapper q = concat (map (\<lambda>e. callback_code wrapper (snd e)) (order (callbacks q)))"

definition message_code ::
    "(nat \<Rightarrow> bool) \<Rightarrow> driver_order \<Rightarrow> Message \<Rightarrow> 'a SonarDriver_scheme \<Rightarrow> lock_op list" where
  "message_code raises order m s =
     (case new_config m (lastConfig s) of
        Inl e \<Rightarrow> []
      | Inr newConfig \<Rightarrow>
          (if config_changed (lastConfig s) newConfig
           then queue_code order (\<lambda>n. config_callback_wrapper n (raises n)) (configCallbacks s) else [])
          @ queue_code order (\<lambda>n. message_callback_wrapper n (raises n)) (messageCallbacks s)
          @ Run_shots
          # (if msgId (header m) = message_type_code messageSimplePingResult
             then queue_code order (\<lambda>n. ping_callback_wrapper n (raises n)) (pingCallbacks s) else []))"

text \<open>What it runs for a status.\<close>

fun status_code_of :: "(nat \<Rightarrow> bool) \<Rightarrow> status_callback \<Rightarrow> lock_op list" where
  "status_code_of raises (User_status n) = status_callback_wrapper n (raises n)"
| "status_code_of raises On_first_status = [Native]"

definition status_code ::
    "(nat \<Rightarrow> bool) \<Rightarrow> (status_callback callback_dict \<Rightarrow> status_callback callback_dict)
     \<Rightarrow> 'a SonarClient_scheme \<Rightarrow> lock_op list" where
  "status_code raises order s =
     concat (map (\<lambda>e. status_code_of raises (snd e)) (order (callbacks (listener_queue s))))"

text \<open>
  A script in a method of the handle, thread 0, while the io service, thread 1, has something to
  run: \<open>stop\<close> joins the thread, \<open>request_config\<close> waits for a single shot.
\<close>

definition script_calls :: "lock_op list \<Rightarrow> lock_op list \<Rightarrow> interpreter" where
  "script_calls method io =
     \<lparr>gil = Some 0, code = (\<lambda>_. [])(0 := method, 1 := io), shots_ran = False, calls = [], terminated = False\<rparr>"

definition stop_code :: "lock_op list" where
  "stop_code = [Join 1]"

definition request_config_code :: "lock_op list" where
  "request_config_code = [Await_shot]"

section \<open>A script that holds the lock\<close>

text \<open>
  As long as the script has not returned it holds the lock, and the io service gets as far as the
  next callback of Python: what it has run is native.
\<close>

definition native_op :: "lock_op \<Rightarrow> bool" where
  "native_op op \<longleftrightarrow> op = Native \<or> op = Run_shots"

definition lock_held :: "lock_op list \<Rightarrow> lock_op list \<Rightarrow> interpreter \<Rightarrow> bool" where
  "lock_held method io s \<longleftrightarrow> gil s = Some 0 \<and> \<not> terminated s \<and> calls s = []
     \<and> (\<forall>t. t \<noteq> 0 \<longrightarrow> t \<noteq> 1 \<longrightarrow> code s t = [])
     \<and> (\<exists>ran. io = ran @ code s 1 \<and> (\<forall>op \<in> set ran. native_op op) \<and> (shots_ran s \<longrightarrow> Run_shots \<in> set ran))
     \<and> (code s 0 = method
        \<or> code s 0 = [] \<and> (method = [Join 1] \<longrightarrow> code s 1 = []) \<and> (method = [Await_shot] \<longrightarrow> shots_ran s))"

text \<open>What the io service may find to run: wrappers and native operations.\<close>

fun io_code :: "lock_op list \<Rightarrow> bool" where
  "io_code [] \<longleftrightarrow> True"
| "io_code (op # io) \<longleftrightarrow> op = Gil_ensure \<or> native_op op \<and> io_code io"

lemma io_code_next:
  "io_code (ops @ op # io) \<Longrightarrow> \<forall>r \<in> set ops. native_op r \<Longrightarrow> native_op op \<or> op = Gil_ensure"
  by (induction ops) (auto simp: native_op_def)

lemma lock_held_step:
  assumes "lock_held method io s" and "lock_step s s'" and "method = [Join 1] \<or> method = [Await_shot]"
    and "io_code io"
  shows "lock_held method io s'"
proof -
  from assms(1) obtain ran where ran: "io = ran @ code s 1" "\<forall>op \<in> set ran. native_op op"
    "shots_ran s \<longrightarrow> Run_shots \<in> set ran" by (auto simp: lock_held_def)
  have io: "native_op op \<or> op = Gil_ensure" if "code s 1 = op # ops" for op ops
    using assms(4) ran(1,2) that io_code_next by metis
  have others: "code s t = [] \<or> t = 0 \<or> t = 1" for t using assms(1) by (auto simp: lock_held_def)
  have script: "code s 0 = method \<or> code s 0 = []" using assms(1) by (auto simp: lock_held_def)
  have moved: "lock_held method io (set_code 1 ops (s\<lparr>shots_ran := shots_ran s \<or> op = Run_shots\<rparr>))"
    if "code s 1 = op # ops" "native_op op" for op ops
  proof -
    have "\<exists>ran. io = ran @ ops \<and> (\<forall>op \<in> set ran. native_op op)
        \<and> (shots_ran s \<or> op = Run_shots \<longrightarrow> Run_shots \<in> set ran)"
      using ran that by (intro exI [of _ "ran @ [op]"]) auto
    with assms(1) that show ?thesis by (auto simp: lock_held_def set_code_def)
  qed
  from assms(2) show ?thesis
  proof cases
    case (step_native t ops)
    then have "t = 1" using others [of t] script assms(3) by auto
    then show ?thesis using step_native moved [of Native ops] by (simp add: native_op_def)
  next
    case (step_shots t ops)
    then have "t = 1" using others [of t] script assms(3) by auto
    then show ?thesis using step_shots moved [of Run_shots ops] by (simp add: native_op_def)
  next
    case (step_join t u ops)
    have "t \<noteq> 1" using io step_join by (auto simp: native_op_def)
    then have "t = 0" using others [of t] step_join by auto
    then show ?thesis using step_join script assms(1,3) by (auto simp: lock_held_def set_code_def)
  next
    case (step_await t ops)
    have "t \<noteq> 1" using io step_await by (auto simp: native_op_def)
    then have "t = 0" using others [of t] step_await by auto
    then show ?thesis using step_await script assms(1,3) by (auto simp: lock_held_def set_code_def)
  qed (use assms(1,3) script in \<open>auto simp: lock_held_def\<close>)
qed

lemma lock_held_runs:
  assumes "lock_step\<^sup>*\<^sup>* (script_calls method io) s" and "method = [Join 1] \<or> method = [Await_shot]" and "io_code io"
  shows "lock_held method io s"
  using assms(1)
proof (induction rule: rtranclp_induct)
  case base
  show ?case by (simp add: lock_held_def script_calls_def)
next
  case (step s s')
  then show ?case using lock_held_step assms(2,3) by blast
qed

text \<open>The code of the io service is of that form.\<close>

lemma wrappers_ensure:
  "\<exists>ops. message_callback_wrapper n r = Gil_ensure # ops" "\<exists>ops. ping_callback_wrapper n r = Gil_ensure # ops"
  "\<exists>ops. status_callback_wrapper n r = Gil_ensure # ops" "\<exists>ops. config_callback_wrapper n r = Gil_ensure # ops"
  by (simp_all add: message_callback_wrapper_def ping_callback_wrapper_def status_callback_wrapper_def
      config_callback_wrapper_def)

lemma io_code_concat:
  assumes "\<And>e. f e = [Native] \<or> (\<exists>ops. f e = Gil_ensure # ops)" and "io_code io"
  shows "io_code (concat (map f d) @ io)"
proof (induction d)
  case (Cons e d)
  then show ?case using assms(1) [of e] by (auto simp: native_op_def)
qed (use assms(2) in simp)

lemma io_code_queue:
  assumes "\<And>n. \<exists>ops. wrapper n = Gil_ensure # ops" and "io_code io"
  shows "io_code (queue_code order wrapper q @ io)"
proof -
  have "callback_code wrapper (snd e) = [Native] \<or> (\<exists>ops. callback_code wrapper (snd e) = Gil_ensure # ops)"
    for e :: "callback_id \<times> driver_callback" using assms(1) by (cases "snd e") simp_all
  then show ?thesis unfolding queue_code_def by (rule io_code_concat [OF _ assms(2)])
qed

lemma io_code_message: "io_code (message_code raises order m s)"
proof -
  have "io_code (queue_code order (\<lambda>n. ping_callback_wrapper n (raises n)) (pingCallbacks s))"
    using io_code_queue [of "\<lambda>n. ping_callback_wrapper n (raises n)" "[]"] wrappers_ensure(2) by simp
  then show ?thesis
    by (auto simp: message_code_def native_op_def split: sum.split
        intro!: io_code_queue [OF wrappers_ensure(1)] io_code_queue [OF wrappers_ensure(4)])
qed

lemma io_code_status: "io_code (status_code raises order s)"
proof -
  have "status_code_of raises (snd e) = [Native] \<or> (\<exists>ops. status_code_of raises (snd e) = Gil_ensure # ops)"
    for e :: "callback_id \<times> status_callback" using wrappers_ensure(3) by (cases "snd e") simp_all
  from io_code_concat [OF this, of "[]"] show ?thesis by (simp add: status_code_def)
qed

text \<open>Without callbacks of Python all of it is native, and native code runs to its end.\<close>

lemma io_code_native: "io_code io \<Longrightarrow> Gil_ensure \<notin> set io \<Longrightarrow> \<forall>op \<in> set io. native_op op"
  by (induction io) auto

lemma native_code_runs:
  assumes "\<forall>op \<in> set ops. native_op op" and "code s 1 = ops @ rest" and "\<not> terminated s"
  shows "\<exists>s'. lock_step\<^sup>*\<^sup>* s s' \<and> code s' 1 = rest \<and> code s' 0 = code s 0 \<and> \<not> terminated s'"
  using assms
proof (induction ops arbitrary: s)
  case Nil
  then show ?case by auto
next
  case (Cons op ops)
  have code: "code s 1 = op # ops @ rest" using Cons.prems(2) by simp
  obtain t where t: "lock_step s t" "code t 1 = ops @ rest" "code t 0 = code s 0" "\<not> terminated t"
  proof (cases "op = Native")
    case True
    then show thesis
      using that [of "set_code 1 (ops @ rest) s"] step_native code Cons.prems(3) by (simp add: set_code_def)
  next
    case False
    then have "op = Run_shots" using Cons.prems(1) by (simp add: native_op_def)
    then show thesis
      using that [of "set_code 1 (ops @ rest) (s\<lparr>shots_ran := True\<rparr>)"] step_shots code Cons.prems(3)
      by (simp add: set_code_def)
  qed
  with Cons.IH [of t] Cons.prems(1) show ?case by (metis converse_rtranclp_into_rtranclp list.set_intros(2))
qed

text \<open>A callback of Python among those of a queue.\<close>

lemma queue_code_ensure:
  assumes "\<And>n. \<exists>ops. wrapper n = Gil_ensure # ops" and "\<And>d. set (order d) = set d"
    and "(i, User n) \<in> set (callbacks q)"
  shows "Gil_ensure \<in> set (queue_code order wrapper q)"
  using assms by (auto simp: queue_code_def intro!: bexI [of _ "(i, User n)"]) (metis list.set_intros(1))

text \<open>The single shots come after the callbacks of the message queue, and nothing else runs them.\<close>

lemma queue_code_no_shots: "(\<And>n. Run_shots \<notin> set (wrapper n)) \<Longrightarrow> Run_shots \<notin> set (queue_code order wrapper q)"
proof -
  assume w: "\<And>n. Run_shots \<notin> set (wrapper n)"
  have "Run_shots \<notin> set (callback_code wrapper f)" for f using w by (cases f) simp_all
  then show ?thesis by (auto simp: queue_code_def)
qed

lemma message_code_shots:
  assumes "new_config m (lastConfig s) = Inr c" and "\<And>d. set (order d) = set d"
    and "(i, User n) \<in> set (callbacks (messageCallbacks s))"
  shows "\<exists>pre post. message_code raises order m s = pre @ Run_shots # post
     \<and> Run_shots \<notin> set pre \<and> Gil_ensure \<in> set pre"
proof -
  let ?cfg = "if config_changed (lastConfig s) c
      then queue_code order (\<lambda>n. config_callback_wrapper n (raises n)) (configCallbacks s) else []"
  let ?msg = "queue_code order (\<lambda>n. message_callback_wrapper n (raises n)) (messageCallbacks s)"
  have "\<exists>post. message_code raises order m s = (?cfg @ ?msg) @ Run_shots # post"
    using assms(1) by (simp add: message_code_def)
  moreover have "Run_shots \<notin> set (?cfg @ ?msg)"
    by (auto simp: config_callback_wrapper_def message_callback_wrapper_def dest!: queue_code_no_shots [THEN notE, rotated])
  moreover have "Gil_ensure \<in> set (?cfg @ ?msg)"
    using queue_code_ensure [of "\<lambda>n. message_callback_wrapper n (raises n)", OF wrappers_ensure(1) assms(2,3)] by auto
  ultimately show ?thesis by blast
qed

lemma shots_not_reached:
  assumes "pre @ Run_shots # post = ops @ rest" and "Run_shots \<notin> set pre" and "Gil_ensure \<in> set pre"
    and "Gil_ensure \<notin> set ops"
  shows "Run_shots \<notin> set ops"
  using assms by (auto simp: append_eq_append_conv2)

section \<open>Properties\<close>

lemma stop_returns:
  assumes "\<forall>op \<in> set io. native_op op"
  shows "\<exists>s'. lock_step\<^sup>*\<^sup>* (script_calls stop_code io) s' \<and> code s' 0 = []"
proof -
  obtain s where s: "lock_step\<^sup>*\<^sup>* (script_calls stop_code io) s" "code s 1 = []" "code s 0 = stop_code" "\<not> terminated s"
    using native_code_runs [OF assms, of "script_calls stop_code io" "[]"] by (auto simp: script_calls_def)
  have "lock_step s (set_code 0 [] s)" using s by (intro step_join) (simp_all add: stop_code_def)
  with s(1) show ?thesis by (intro exI [of _ "set_code 0 [] s"]) (auto simp: set_code_def)
qed

text \<open>
  C32: \<open>stop\<close> called from a script can return exactly when the io service has no callback of Python left
  to run for the message or status it is at. If it has one, the script waits with the lock for
  a thread that waits for the lock: neither goes on, and the callback is never called.
\<close>

theorem stop_returns_iff_no_callback:
  assumes "io = message_code raises order m s \<or> io = status_code raises sorder s"
  shows "((\<exists>s'. lock_step\<^sup>*\<^sup>* (script_calls stop_code io) s' \<and> code s' 0 = []) \<longleftrightarrow> Gil_ensure \<notin> set io)
     \<and> (\<forall>s'. lock_step\<^sup>*\<^sup>* (script_calls stop_code io) s' \<longrightarrow> calls s' = [])"
proof (intro conjI iffI allI impI)
  have io: "io_code io" using assms io_code_message io_code_status by blast
  note held = lock_held_runs [OF _ _ io, of "[Join 1]", folded stop_code_def, simplified]
  show "calls s' = []" if "lock_step\<^sup>*\<^sup>* (script_calls stop_code io) s'" for s'
    using held [OF that] by (simp add: lock_held_def)
  show "Gil_ensure \<notin> set io" if returned: "\<exists>s'. lock_step\<^sup>*\<^sup>* (script_calls stop_code io) s' \<and> code s' 0 = []"
  proof -
    from returned obtain s' where "lock_held stop_code io s'" "code s' 0 = []" using held by blast
    then show ?thesis by (auto simp: lock_held_def native_op_def stop_code_def)
  qed
  show "\<exists>s'. lock_step\<^sup>*\<^sup>* (script_calls stop_code io) s' \<and> code s' 0 = []" if "Gil_ensure \<notin> set io"
    by (rule stop_returns [OF io_code_native [OF io that]])
qed

lemma sample_new_config: "\<exists>c. new_config sample_dummy config = Inr c"
  by (simp add: new_config_def sample_dummy_def frame_message_def sample_dummy_header_def)

lemma stop_returns_iff_no_callback_witness:
  "\<not> (\<exists>s'. lock_step\<^sup>*\<^sup>* (script_calls stop_code (message_code (\<lambda>_. False) (\<lambda>d. d) sample_dummy sample_driver)) s'
       \<and> code s' 0 = [])"
proof -
  obtain c where "new_config sample_dummy (lastConfig sample_driver) = Inr c" using sample_new_config by blast
  from message_code_shots [OF this, of "\<lambda>d. d" 0 1 "\<lambda>_. False"]
  have "Gil_ensure \<in> set (message_code (\<lambda>_. False) (\<lambda>d. d) sample_dummy sample_driver)"
    by (auto simp: one_callback_def)
  with stop_returns_iff_no_callback [OF disjI1 [OF refl], of "\<lambda>_. False" "\<lambda>d. d" sample_dummy sample_driver]
  show ?thesis by blast
qed

text \<open>
  C31: \<open>request_config\<close> called from a script gets no answer once the script has a message callback. The
  script waits with the lock, every message makes the io service wait for the lock before it comes to
  the single shots, so the wait can only time out; as timeouts are not counted, the call never
  returns, although the sonar takes the configuration and answers.
\<close>

theorem request_config_starves:
  assumes "\<And>d. set (order d) = set d" and "(i, User n) \<in> set (callbacks (messageCallbacks h))"
    and "new_config m (lastConfig h) = Inr c"
  shows "(\<forall>s'. lock_step\<^sup>*\<^sup>* (script_calls request_config_code (message_code raises order m h)) s' \<longrightarrow>
       \<not> shots_ran s' \<and> code s' 0 = request_config_code)
     \<and> (socket h \<noteq> None \<and> connectionState h = Connected \<longrightarrow>
        request_config order uninit config
          (\<lambda>_. \<lparr>at_send = Sent sizeof_fire, at_before = [], at_answer = None\<rparr>) h = None)"
proof (intro conjI allI impI)
  let ?io = "message_code raises order m h"
  fix s'
  assume run: "lock_step\<^sup>*\<^sup>* (script_calls request_config_code ?io) s'"
  have held: "lock_held request_config_code ?io s'"
    unfolding request_config_code_def
    by (rule lock_held_runs [OF run [unfolded request_config_code_def] _ io_code_message]) simp
  show "\<not> shots_ran s'"
  proof
    assume "shots_ran s'"
    with held obtain ops where ops: "?io = ops @ code s' 1" "\<forall>op \<in> set ops. native_op op" "Run_shots \<in> set ops"
      by (auto simp: lock_held_def)
    have "Gil_ensure \<notin> set ops" using ops(2) by (auto simp: native_op_def)
    with message_code_shots [OF assms(3,1,2), of raises] ops(1,3) show False
      using shots_not_reached by metis
  qed
  with held show "code s' 0 = request_config_code" by (auto simp: lock_held_def request_config_code_def)
next
  assume "socket h \<noteq> None \<and> connectionState h = Connected"
  then have "request_loop order uninit (forced_request config)
      (\<lambda>_. \<lparr>at_send = Sent sizeof_fire, at_before = [], at_answer = None\<rparr>) 0 0 h = None"
    using silent_loop by (cases "request_loop order uninit (forced_request config)
      (\<lambda>_. \<lparr>at_send = Sent sizeof_fire, at_before = [], at_answer = None\<rparr>) 0 0 h") (fastforce simp: maxCount_def)+
  then show "request_config order uninit config
      (\<lambda>_. \<lparr>at_send = Sent sizeof_fire, at_before = [], at_answer = None\<rparr>) h = None"
    by (simp add: request_config_def request_ping_config_def Let_def)
qed

lemma request_config_starves_witness:
  "\<nexists>s'. lock_step\<^sup>*\<^sup>* (script_calls request_config_code
       (message_code (\<lambda>_. False) (\<lambda>d. d) sample_dummy sample_handle)) s'
       \<and> (shots_ran s' \<or> code s' 0 = [])"
proof -
  obtain c where c: "new_config sample_dummy (lastConfig sample_handle) = Inr c" using sample_new_config by blast
  have "(0, User 1) \<in> set (callbacks (messageCallbacks sample_handle))" by (simp add: one_callback_def)
  from request_config_starves [OF _ this c, of "\<lambda>d. d" "\<lambda>_. False"] show ?thesis
    by (auto simp: request_config_code_def)
qed

text \<open>A callback that raises ends the process, and the lock is still taken.\<close>

lemma raising_callback_ends_the_process:
  assumes "code s 1 = message_callback_wrapper n True @ ops" and "gil s = None" and "\<not> terminated s"
  shows "\<exists>s'. lock_step\<^sup>*\<^sup>* s s' \<and> terminated s' \<and> gil s' = Some 1"
proof -
  let ?t = "set_code 1 (Gil_call n [Shared_message] True # Gil_release # ops) (s\<lparr>gil := Some 1\<rparr>)"
  have "lock_step s ?t" using assms by (intro step_ensure) (simp_all add: message_callback_wrapper_def)
  moreover have "lock_step ?t (?t\<lparr>calls := calls ?t @ [(n, [Shared_message])], terminated := True\<rparr>)"
    using assms(3) by (intro step_raise [where t = 1 and ops = "Gil_release # ops"]) (simp_all add: set_code_def)
  ultimately show ?thesis by (intro exI conjI) (rule converse_rtranclp_into_rtranclp, assumption, rule r_into_rtranclp, assumption, simp_all add: set_code_def)
qed

end
