(* ===== verification/Show_Numbers.thy ===== *)
theory Show_Numbers
  imports Ieee754
begin

text \<open>
  How a C++ stream prints numbers: unsigned integers in base 10 and base 16, and doubles in the
  default format (six significant digits, as \<open>%g\<close> of C). The double is printed from its exact
  value, rounded half to even, which is what the C library does. The lemmas show that the
  printed digits of an integer determine it, also when other text follows.
\<close>

section \<open>Integers\<close>

definition digit :: "nat \<Rightarrow> char" where
  "digit d = ''0123456789abcdef'' ! d"

fun show_base :: "nat \<Rightarrow> nat \<Rightarrow> string" where
  "show_base b n = (if n < b \<or> b < 2 then [digit n] else show_base b (n div b) @ [digit (n mod b)])"

declare show_base.simps [simp del]

definition show_dec :: "nat \<Rightarrow> string" where
  "show_dec n = show_base 10 n"

definition show_hex :: "nat \<Rightarrow> string" where
  "show_hex n = show_base 16 n"

section \<open>Doubles\<close>

text \<open>The decimal exponent of \<open>num / den\<close>: the \<open>x\<close> with \<open>10 ^ x \<le> num / den < 10 ^ (x + 1)\<close>.\<close>

function scale_up :: "nat \<Rightarrow> nat \<Rightarrow> nat" where
  "scale_up num den = (if num = 0 \<or> den \<le> num then 0 else Suc (scale_up (10 * num) den))"
  by pat_completeness auto
termination
  by (relation "measure (\<lambda>(num, den). den - num)") auto

declare scale_up.simps [simp del]

definition decimal_exponent :: "nat \<Rightarrow> nat \<Rightarrow> int" where
  "decimal_exponent num den =
     (if den \<le> num then int (length (show_dec (num div den))) - 1 else - int (scale_up num den))"

definition round_half_even :: "nat \<Rightarrow> nat \<Rightarrow> nat" where
  "round_half_even num den =
     (let q = num div den; r = num mod den
      in if den < 2 * r \<or> (2 * r = den \<and> odd q) then q + 1 else q)"

text \<open>\<open>six_digits\<close>: the value as \<open>n * 10 ^ (x - 5)\<close> with \<open>n\<close> of six digits.\<close>

definition six_digits :: "nat \<Rightarrow> nat \<Rightarrow> nat \<times> int" where
  "six_digits num den =
     (let x = decimal_exponent num den;
          n = (if x \<le> 5 then round_half_even (num * 10 ^ nat (5 - x)) den
               else round_half_even num (den * 10 ^ nat (x - 5)))
      in if n = 10 ^ 6 then (10 ^ 5, x + 1) else (n, x))"

definition strip_zeros :: "string \<Rightarrow> string" where
  "strip_zeros ds = rev (dropWhile (\<lambda>c. c = CHR ''0'') (rev ds))"

definition with_point :: "string \<Rightarrow> string" where
  "with_point ds = (if ds = [] then [] else CHR ''.'' # ds)"

definition show_exponent :: "int \<Rightarrow> string" where
  "show_exponent x =
     (let d = show_dec (nat \<bar>x\<bar>)
      in CHR ''e'' # (if x < 0 then CHR ''-'' else CHR ''+'') # (if length d < 2 then CHR ''0'' # d else d))"

definition layout_digits :: "nat \<Rightarrow> int \<Rightarrow> string" where
  "layout_digits n x =
     (let ds = show_dec n
      in if x < - 4 \<or> 6 \<le> x
         then take 1 ds @ with_point (strip_zeros (drop 1 ds)) @ show_exponent x
         else if x < 0
         then ''0.'' @ replicate (nat (- x - 1)) CHR ''0'' @ strip_zeros ds
         else take (nat x + 1) ds @ with_point (strip_zeros (drop (nat x + 1) ds)))"

fun show_magnitude :: "nat \<Rightarrow> int \<Rightarrow> string" where
  "show_magnitude m e =
     (if m = 0 then ''0''
      else let (n, x) = six_digits (m * 2 ^ nat e) (2 ^ nat (- e)) in layout_digits n x)"

definition show_double :: "double \<Rightarrow> string" where
  "show_double d =
     (if odd (unat d div 2 ^ 63) then ''-'' else '''') @
     (case dval d of FNan \<Rightarrow> ''nan'' | FInf s \<Rightarrow> ''inf'' | FFin s m e \<Rightarrow> show_magnitude m e)"

lemmas show_eval =
  show_double_def show_magnitude.simps six_digits_def decimal_exponent_def round_half_even_def
  scale_up.simps layout_digits_def strip_zeros_def with_point_def show_exponent_def
  show_dec_def show_hex_def show_base.simps digit_def

section \<open>The printed digits determine the integer\<close>

definition is_digit :: "char \<Rightarrow> bool" where
  "is_digit c \<longleftrightarrow> c \<in> set ''0123456789''"

lemma digit_is_digit [simp]: "d < 10 \<Longrightarrow> is_digit (digit d)"
  unfolding is_digit_def digit_def
  by (auto simp: less_Suc_eq numeral_eq_Suc)

definition digit_value :: "char \<Rightarrow> nat" where
  "digit_value c = of_char c - of_char CHR ''0''"

lemma digit_value_digit [simp]: "d < 10 \<Longrightarrow> digit_value (digit d) = d"
  unfolding digit_value_def digit_def
  by (auto simp: less_Suc_eq numeral_eq_Suc)

definition read_dec :: "string \<Rightarrow> nat" where
  "read_dec ds = foldl (\<lambda>n c. 10 * n + digit_value c) 0 ds"

lemma read_show_dec [simp]: "read_dec (show_dec n) = n"
proof (induction "10::nat" n rule: show_base.induct)
  case (1 n)
  then show ?case
    by (cases "n < 10") (simp_all add: show_dec_def show_base.simps [of 10 n] read_dec_def)
qed

lemma show_dec_digits: "c \<in> set (show_dec n) \<Longrightarrow> is_digit c"
proof (induction "10::nat" n rule: show_base.induct)
  case (1 n)
  then show ?case
    by (cases "n < 10") (auto simp: show_dec_def show_base.simps [of 10 n])
qed

lemma show_dec_not_Nil [simp]: "show_dec n \<noteq> []"
  by (simp add: show_dec_def show_base.simps [of 10 n])

text \<open>A text that continues with no digit.\<close>

definition ends_number :: "string \<Rightarrow> bool" where
  "ends_number r \<longleftrightarrow> (case r of [] \<Rightarrow> True | c # _ \<Rightarrow> \<not> is_digit c)"

lemma takeWhile_show_dec:
  assumes "ends_number r"
  shows "takeWhile is_digit (show_dec n @ r) = show_dec n" "dropWhile is_digit (show_dec n @ r) = r"
proof -
  have "\<forall>c \<in> set (show_dec n). is_digit c" using show_dec_digits by blast
  moreover have "takeWhile is_digit r = []" "dropWhile is_digit r = r"
    using assms by (simp_all add: ends_number_def split: list.splits)
  ultimately show "takeWhile is_digit (show_dec n @ r) = show_dec n"
    "dropWhile is_digit (show_dec n @ r) = r"
    by (simp_all add: takeWhile_append dropWhile_append)
qed

lemma show_dec_append_inject:
  assumes "ends_number r" and "ends_number q"
  shows "show_dec a @ r = show_dec b @ q \<longleftrightarrow> a = b \<and> r = q"
  using takeWhile_show_dec [OF assms(1), of a] takeWhile_show_dec [OF assms(2), of b]
  by (metis read_show_dec)

end
