(* ===== verification/Print_Utils.thy ===== *)
theory Print_Utils
  imports Show_Numbers Oculus_Utils
begin

text \<open>
  The printing of the structs (\<open>src/print_utils.cpp\<close>): addresses, enumerations, and one line per
  field behind a prefix. A field of type \<open>uint8_t\<close> that is not cast is printed as a character,
  and a stream that was switched to base 16 stays there. \<open>remote_from_status\<close> of \<open>utils.h\<close>
  parses the printed address again; the parser is a library function and an argument here.
\<close>

section \<open>Addresses\<close>

definition ip_to_string :: "u32 \<Rightarrow> string" where
  "ip_to_string ip =
     show_dec (unat (and ip 0x000000ff)) @ ''.'' @
     show_dec (unat (drop_bit 8 (and ip 0x0000ff00))) @ ''.'' @
     show_dec (unat (drop_bit 16 (and ip 0x00ff0000))) @ ''.'' @
     show_dec (unat (drop_bit 24 (and ip 0xff000000)))"

definition mac_to_string :: "u8 list \<Rightarrow> string" where
  "mac_to_string mac =
     show_hex (unat (mac ! 0)) @ '':'' @ show_hex (unat (mac ! 1)) @ '':'' @
     show_hex (unat (mac ! 2)) @ '':'' @ show_hex (unat (mac ! 3)) @ '':'' @
     show_hex (unat (mac ! 4)) @ '':'' @ show_hex (unat (mac ! 5))"

section \<open>Enumerations\<close>

text \<open>The enumerations arrive as integers; \<open>None\<close> is the default branch of the switch.\<close>

definition data_size_to_string :: "u8 \<Rightarrow> string" where
  "data_size_to_string dataType =
     (case data_size_of dataType of
        Some dataSize8Bit \<Rightarrow> ''8bit''
      | Some dataSize16Bit \<Rightarrow> ''16bit''
      | Some dataSize24Bit \<Rightarrow> ''24bit''
      | Some dataSize32Bit \<Rightarrow> ''32bit''
      | None \<Rightarrow> ''invalid'')"

definition ping_rate_to_string :: "u8 \<Rightarrow> string" where
  "ping_rate_to_string pingRate =
     (case ping_rate_of pingRate of
        Some pingRateNormal \<Rightarrow> ''normal (10Hz)''
      | Some pingRateHigh \<Rightarrow> ''high (15Hz)''
      | Some pingRateHighest \<Rightarrow> ''highest (40Hz)''
      | Some pingRateLow \<Rightarrow> ''low (5Hz)''
      | Some pingRateLowest \<Rightarrow> ''lowest (2Hz)''
      | Some pingRateStandby \<Rightarrow> ''standby (0Hz)''
      | None \<Rightarrow> ''invalid ('' @ show_dec (unat pingRate) @ '')'')"

fun part_number_name :: "OculusPartNumberType \<Rightarrow> string" where
  "part_number_name partNumberM370s = ''M370s''"
| "part_number_name partNumberM370s_Artemis = ''M370s_Artemis''"
| "part_number_name partNumberM370s_Deep = ''M370s_Deep''"
| "part_number_name partNumberM373s = ''M373s''"
| "part_number_name partNumberM373s_Deep = ''M373s_Deep''"
| "part_number_name partNumberM750d = ''M750d''"
| "part_number_name partNumberM750d_Fusion = ''M750d_Fusion''"
| "part_number_name partNumberM750d_Artemis = ''M750d_Artemis''"
| "part_number_name partNumberM1200d = ''M1200d''"
| "part_number_name partNumberM1200d_Deep = ''M1200d_Deep''"
| "part_number_name partNumberM1200d_Artemis = ''M1200d_Artemis''"
| "part_number_name partNumberN1200s = ''N1200s''"
| "part_number_name partNumberN1200s_Deep = ''N1200s_Deep''"
| "part_number_name _ = ''unknown''"

definition part_number_of :: "u16 \<Rightarrow> OculusPartNumberType option" where
  "part_number_of i =
     find (\<lambda>t. part_number_code t = i)
       [partNumberUndefined, partNumberM370s, partNumberM370s_Artemis, partNumberM370s_Deep,
        partNumberM373s, partNumberM373s_Deep, partNumberM750d, partNumberM750d_Fusion,
        partNumberM750d_Artemis, partNumberM1200d, partNumberM1200d_Deep,
        partNumberM1200d_Artemis, partNumberN1200s, partNumberN1200s_Deep, partNumberEnd]"

definition part_number_to_string :: "u16 \<Rightarrow> string" where
  "part_number_to_string partNumber =
     (case part_number_of partNumber of None \<Rightarrow> ''unknown'' | Some t \<Rightarrow> part_number_name t)"

section \<open>Structs, a line per field\<close>

text \<open>A \<open>uint8_t\<close> in a stream is a character.\<close>

definition show_char :: "u8 \<Rightarrow> string" where
  "show_char c = [char_of (unat c)]"

definition header_to_string :: "string \<Rightarrow> OculusMessageHeader \<Rightarrow> string" where
  "header_to_string prefix msg =
     prefix @ ''oculusId    : '' @ show_dec (unat (oculusId msg)) @
     prefix @ ''srcDeviceId : '' @ show_dec (unat (srcDeviceId msg)) @
     prefix @ ''dstDeviceId : '' @ show_dec (unat (dstDeviceId msg)) @
     prefix @ ''msgId       : '' @ show_dec (unat (msgId msg)) @
     prefix @ ''msgVersion  : '' @ show_dec (unat (msgVersion msg)) @
     prefix @ ''payloadSize : '' @ show_dec (unat (payloadSize msg)) @
     prefix @ ''spare2      : '' @ show_dec (unat (spare2 msg))"

definition status_to_string :: "string \<Rightarrow> OculusStatusMsg \<Rightarrow> string" where
  "status_to_string prefix msg =
     prefix @ ''deviceId        : '' @ show_dec (unat (st_deviceId msg)) @
     prefix @ ''status          : '' @ show_dec (unat (st_status msg)) @
     prefix @ ''part number     : '' @ show_dec (unat (st_partNumber msg)) @
     prefix @ ''ipAddr          : '' @ ip_to_string (st_ipAddr msg) @
     prefix @ ''ipMask          : '' @ ip_to_string (st_ipMask msg) @
     prefix @ ''connectedIpAddr : '' @ ip_to_string (st_connectedIpAddr msg) @
     prefix @ ''macAddr         : '' @ mac_to_string [st_macAddr0 msg, st_macAddr1 msg, st_macAddr2 msg,
       st_macAddr3 msg, st_macAddr4 msg, st_macAddr5 msg] @
     prefix @ ''temperature0    : '' @ show_double (st_temperature0 msg) @
     prefix @ ''temperature1    : '' @ show_double (st_temperature1 msg) @
     prefix @ ''temperature2    : '' @ show_double (st_temperature2 msg) @
     prefix @ ''temperature3    : '' @ show_double (st_temperature3 msg) @
     prefix @ ''temperature4    : '' @ show_double (st_temperature4 msg) @
     prefix @ ''temperature5    : '' @ show_double (st_temperature5 msg) @
     prefix @ ''temperature6    : '' @ show_double (st_temperature6 msg) @
     prefix @ ''temperature7    : '' @ show_double (st_temperature7 msg) @
     prefix @ ''pressure        : '' @ show_double (st_pressure msg)"

definition fire_to_string :: "string \<Rightarrow> OculusSimpleFireMessage \<Rightarrow> string" where
  "fire_to_string prefix msg =
     prefix @ ''masterMode      : '' @ show_dec (unat (fm_masterMode msg)) @
     prefix @ ''pingRate        : '' @ show_dec (unat (fm_pingRate msg)) @
     prefix @ ''networkSpeed    : '' @ show_dec (unat (fm_networkSpeed msg)) @
     prefix @ ''gammaCorrection : '' @ show_dec (unat (fm_gammaCorrection msg)) @
     prefix @ ''flags           : '' @ show_hex (unat (fm_flags msg)) @
     prefix @ ''range           : '' @ show_double (fm_range msg) @
     prefix @ ''gainPercent     : '' @ show_double (fm_gainPercent msg) @
     prefix @ ''speedOfSound    : '' @ show_double (fm_speedOfSound msg) @
     prefix @ ''salinity        : '' @ show_double (fm_salinity msg)"

definition ping_to_string :: "string \<Rightarrow> OculusSimplePingResult \<Rightarrow> string" where
  "ping_to_string prefix msg =
     prefix @ ''pingId            : '' @ show_dec (unat (pr_pingId msg)) @
     prefix @ ''status            : '' @ show_dec (unat (pr_status msg)) @
     prefix @ ''frequency         : '' @ show_double (pr_frequency msg) @
     prefix @ ''temperature       : '' @ show_double (pr_temperature msg) @
     prefix @ ''pressure          : '' @ show_double (pr_pressure msg) @
     prefix @ ''speeedOfSoundUsed : '' @ show_double (pr_speeedOfSoundUsed msg) @
     prefix @ ''pingStartTime     : '' @ show_dec (unat (pr_pingStartTime msg)) @
     prefix @ ''dataSize          : '' @ show_char (pr_dataSize msg) @
     prefix @ ''rangeResolution   : '' @ show_double (pr_rangeResolution msg) @
     prefix @ ''nRanges           : '' @ show_dec (unat (pr_nRanges msg)) @
     prefix @ ''nBeams            : '' @ show_dec (unat (pr_nBeams msg)) @
     prefix @ ''imageOffset       : '' @ show_dec (unat (pr_imageOffset msg)) @
     prefix @ ''imageSize         : '' @ show_dec (unat (pr_imageSize msg)) @
     prefix @ ''messageSize       : '' @ show_dec (unat (pr_messageSize msg))"

text \<open>The eight integers of \<open>reserved\<close>, in base 16 like everything after \<open>flags\<close>.\<close>

definition reserved_at :: "OculusSimpleFireMessage2 \<Rightarrow> nat \<Rightarrow> u32" where
  "reserved_at msg i = word_of_nat (unat (fm2_reserved msg) div 2 ^ (32 * i))"

definition fire2_to_string :: "string \<Rightarrow> OculusSimpleFireMessage2 \<Rightarrow> string" where
  "fire2_to_string prefix msg =
     prefix @ ''masterMode      : '' @ show_dec (unat (fm2_masterMode msg)) @
     prefix @ ''pingRate        : '' @ show_dec (unat (fm2_pingRate msg)) @
     prefix @ ''networkSpeed    : '' @ show_dec (unat (fm2_networkSpeed msg)) @
     prefix @ ''gammaCorrection : '' @ show_dec (unat (fm2_gammaCorrection msg)) @
     prefix @ ''flags           : '' @ show_hex (unat (fm2_flags msg)) @
     prefix @ ''rangePercent    : '' @ show_double (fm2_rangePercent msg) @
     prefix @ ''gainPercent     : '' @ show_double (fm2_gainPercent msg) @
     prefix @ ''speedOfSound    : '' @ show_double (fm2_speedOfSound msg) @
     prefix @ ''salinity        : '' @ show_double (fm2_salinity msg) @
     prefix @ ''extFlags        : '' @ show_hex (unat (fm2_extFlags msg)) @
     prefix @ ''reserved        :'' @ concat (map (\<lambda>i. '' '' @ show_hex (unat (reserved_at msg i))) [0..<8])"

definition ping2_to_string :: "string \<Rightarrow> OculusSimplePingResult2 \<Rightarrow> string" where
  "ping2_to_string prefix msg =
     prefix @ ''pingId            : '' @ show_dec (unat (pr2_pingId msg)) @
     prefix @ ''status            : '' @ show_dec (unat (pr2_status msg)) @
     prefix @ ''frequency         : '' @ show_double (pr2_frequency msg) @
     prefix @ ''temperature       : '' @ show_double (pr2_temperature msg) @
     prefix @ ''pressure          : '' @ show_double (pr2_pressure msg) @
     prefix @ ''heading           : '' @ show_double (pr2_heading msg) @
     prefix @ ''pitch             : '' @ show_double (pr2_pitch msg) @
     prefix @ ''roll              : '' @ show_double (pr2_roll msg) @
     prefix @ ''speedOfSoundUsed  : '' @ show_double (pr2_speeedOfSoundUsed msg) @
     prefix @ ''pingStartTime     : '' @ show_double (pr2_pingStartTime msg) @
     prefix @ ''dataSize          : '' @ show_char (pr2_dataSize msg) @
     prefix @ ''rangeResolution   : '' @ show_double (pr2_rangeResolution msg) @
     prefix @ ''nRanges           : '' @ show_dec (unat (pr2_nRanges msg)) @
     prefix @ ''nBeams            : '' @ show_dec (unat (pr2_nBeams msg)) @
     prefix @ ''spare0            : '' @ show_dec (unat (pr2_spare0 msg)) @
     prefix @ ''spare1            : '' @ show_dec (unat (pr2_spare1 msg)) @
     prefix @ ''spare2            : '' @ show_dec (unat (pr2_spare2 msg)) @
     prefix @ ''spare3            : '' @ show_dec (unat (pr2_spare3 msg)) @
     prefix @ ''imageOffset       : '' @ show_dec (unat (pr2_imageOffset msg)) @
     prefix @ ''imageSize         : '' @ show_dec (unat (pr2_imageSize msg)) @
     prefix @ ''messageSize       : '' @ show_dec (unat (pr2_messageSize msg))"

section \<open>Whole messages\<close>

text \<open>What \<open>operator<<\<close> writes. The default prefix of \<open>to_string\<close> starts a line with a dash.\<close>

definition line_prefix :: string where
  "line_prefix = CHR 0x0A # ''- ''"

definition inner_prefix :: string where
  "inner_prefix = CHR 0x0A # ''  - ''"

text \<open>A \<open>Clock\<close> prints the seconds since its last reset.\<close>

definition show_clock :: "int \<Rightarrow> int \<Rightarrow> string" where
  "show_clock now t0 = show_double (d_div (d_of_int (now - t0)) (d_of_int 1000000000)) @ ''s''"

definition show_header :: "OculusMessageHeader \<Rightarrow> string" where
  "show_header msg = ''OculusMessageHeader :'' @ header_to_string line_prefix msg"

definition show_status :: "OculusStatusMsg \<Rightarrow> string" where
  "show_status msg =
     ''OculusStatusMsg :'' @
     line_prefix @ ''header :'' @ header_to_string inner_prefix (st_hdr msg) @
     line_prefix @ ''status :'' @ status_to_string inner_prefix msg"

definition show_fire :: "OculusSimpleFireMessage \<Rightarrow> string" where
  "show_fire msg =
     ''OculusSimpleFireMessage :'' @
     line_prefix @ ''header :'' @ header_to_string inner_prefix (fm_head msg) @
     line_prefix @ ''simple fire :'' @ fire_to_string inner_prefix msg"

definition show_ping :: "OculusSimplePingResult \<Rightarrow> string" where
  "show_ping msg =
     ''OculusSimplePingMessage :'' @
     line_prefix @ ''header :'' @ header_to_string inner_prefix (fm_head (pr_fireMessage msg)) @
     line_prefix @ ''simple fire :'' @ fire_to_string inner_prefix (pr_fireMessage msg) @
     line_prefix @ ''simple ping :'' @ ping_to_string inner_prefix msg"

definition show_fire2 :: "OculusSimpleFireMessage2 \<Rightarrow> string" where
  "show_fire2 msg =
     ''OculusSimpleFireMessage2 :'' @
     line_prefix @ ''header :'' @ header_to_string inner_prefix (fm2_head msg) @
     line_prefix @ ''simple fire (v2) :'' @ fire2_to_string inner_prefix msg"

definition show_ping2 :: "OculusSimplePingResult2 \<Rightarrow> string" where
  "show_ping2 msg =
     ''OculusSimplePingMessage2 :'' @
     line_prefix @ ''header :'' @ header_to_string inner_prefix (fm2_head (pr2_fireMessage msg)) @
     line_prefix @ ''simple fire (v2) :'' @ fire2_to_string inner_prefix (pr2_fireMessage msg) @
     line_prefix @ ''simple ping (v2) :'' @ ping2_to_string inner_prefix msg"

section \<open>The address of the sonar\<close>






section \<open>Facts\<close>






lemma ends_number_dot [simp]: "ends_number (CHR ''.'' # r)" "ends_number []"
  by (simp_all add: ends_number_def is_digit_def)


section \<open>Properties\<close>



text \<open>Behind a prefix that starts with no digit, a printed header can be read again.\<close>

lemma header_to_string_inject:
  assumes "prefix \<noteq> []" and "\<not> is_digit (hd prefix)"
  shows "header_to_string prefix a = header_to_string prefix b \<longleftrightarrow> a = b"
proof -
  have ends: "ends_number (prefix @ r)" for r
    using assms by (cases prefix) (simp_all add: ends_number_def)
  have one: "show_dec i @ prefix @ r = show_dec j @ prefix @ q \<longleftrightarrow> i = j \<and> r = q" for i j r q
    using show_dec_append_inject [OF ends ends, of i r j q] by auto
  have last: "show_dec i = show_dec j \<longleftrightarrow> i = j" for i j
    using read_show_dec by metis
  show ?thesis
    unfolding header_to_string_def
    by (cases a; cases b) (simp add: one last word_unat_eq_iff)
qed

text \<open>
  The text printed for a message header determines the header: no two headers print alike.
\<close>

theorem printed_header_is_unambiguous: "show_header a = show_header b \<longleftrightarrow> a = b"
  using header_to_string_inject [of line_prefix a b]
  by (simp add: show_header_def line_prefix_def is_digit_def)

end
