(* ===== verification/Python_Classes.thy ===== *)
theory Python_Classes
  imports Python_Handle Print_Utils
begin

text \<open>
  The classes of the Python module whose objects are structs of the sonar and of the log files
  (\<open>python/src/oculus_python.cpp\<close>, \<open>python/src/oculus_files.cpp\<close>): for each the tables of
  attributes that \<open>PYBIND11_MODULE\<close> fills. What pybind11 converts between Python objects and C++
  values is a parameter, \<open>casters\<close>, with the law \<open>pybind_casters\<close> that a value given to Python
  comes back unchanged. The locale \<open>attribute_laws\<close> says what a class promises to a script; every
  class that can be written is an interpretation of it.
\<close>

section \<open>Conversions\<close>

text \<open>
  To Python and back. A conversion back may fail, which is a \<open>TypeError\<close>; the conversion of an
  object to a pointer gives a null pointer for the object \<open>None\<close>.
\<close>

record 'obj casters =
  py_u8 :: "u8 \<Rightarrow> 'obj"
  cxx_u8 :: "'obj \<Rightarrow> u8 option"
  py_u16 :: "u16 \<Rightarrow> 'obj"
  cxx_u16 :: "'obj \<Rightarrow> u16 option"
  py_u32 :: "u32 \<Rightarrow> 'obj"
  cxx_u32 :: "'obj \<Rightarrow> u32 option"
  py_i64 :: "u64 \<Rightarrow> 'obj"
  py_f64 :: "double \<Rightarrow> 'obj"
  cxx_f64 :: "'obj \<Rightarrow> double option"
  py_chars :: "byte list \<Rightarrow> 'obj"
  py_header :: "OculusMessageHeader \<Rightarrow> 'obj"
  cxx_header :: "'obj \<Rightarrow> OculusMessageHeader option"
  py_fire :: "OculusSimpleFireMessage \<Rightarrow> 'obj"
  cxx_fire_pointer :: "'obj \<Rightarrow> OculusSimpleFireMessage option option"
  py_fire2 :: "OculusSimpleFireMessage2 \<Rightarrow> 'obj"
  cxx_fire2 :: "'obj \<Rightarrow> OculusSimpleFireMessage2 option"
  py_version :: "OculusVersionInfo \<Rightarrow> 'obj"
  cxx_version :: "'obj \<Rightarrow> OculusVersionInfo option"
  py_none :: 'obj

locale pybind_casters =
  fixes C :: "'obj casters"
  assumes cast_u8: "cxx_u8 C (py_u8 C a) = Some a"
    and cast_u16: "cxx_u16 C (py_u16 C b) = Some b"
    and cast_u32: "cxx_u32 C (py_u32 C c) = Some c"
    and cast_f64: "cxx_f64 C (py_f64 C d) = Some d"
    and cast_header: "cxx_header C (py_header C h) = Some h"
    and cast_fire: "cxx_fire_pointer C (py_fire C f) = Some (Some f)"
    and cast_fire2: "cxx_fire2 C (py_fire2 C f2) = Some f2"
    and cast_version: "cxx_version C (py_version C v) = Some v"
    and cast_none: "cxx_fire_pointer C (py_none C) = Some None"
begin

lemmas casts = cast_u8 cast_u16 cast_u32 cast_f64 cast_header cast_fire cast_fire2 cast_version cast_none

lemma py_inject:
  "py_u8 C a = py_u8 C a' \<longleftrightarrow> a = a'" "py_u16 C b = py_u16 C b' \<longleftrightarrow> b = b'"
  "py_u32 C c = py_u32 C c' \<longleftrightarrow> c = c'" "py_f64 C d = py_f64 C d' \<longleftrightarrow> d = d'"
  "py_header C h = py_header C h' \<longleftrightarrow> h = h'" "py_fire C f = py_fire C f' \<longleftrightarrow> f = f'"
  "py_fire2 C f2 = py_fire2 C f2' \<longleftrightarrow> f2 = f2'" "py_version C v = py_version C v' \<longleftrightarrow> v = v'"
  by (metis casts option.inject)+

end

section \<open>Classes\<close>

datatype py_error = Attribute_error | Type_error | Cast_error | Cxx cxx_error

datatype ('obj, 's) attribute =
  Attribute (writable: bool) (getter: "'s \<Rightarrow> 'obj result") (setter: "'obj \<Rightarrow> 's \<Rightarrow> 's option")

type_synonym ('obj, 's) attribute_table = "(string \<times> ('obj, 's) attribute) list"

record ('obj, 's) py_class =
  class_name :: string
  class_init :: 's
  class_attributes :: "('obj, 's) attribute_table"
  class_str :: "('s \<Rightarrow> string) option"

definition def_readwrite ::
    "string \<Rightarrow> ('a \<Rightarrow> 'obj) \<Rightarrow> ('obj \<Rightarrow> 'a option) \<Rightarrow> ('s \<Rightarrow> 'a) \<Rightarrow> (('a \<Rightarrow> 'a) \<Rightarrow> 's \<Rightarrow> 's)
     \<Rightarrow> string \<times> ('obj, 's) attribute" where
  "def_readwrite name to_py to_cxx field upd =
     (name, Attribute True (\<lambda>s. Inr (to_py (field s)))
        (\<lambda>v s. map_option (\<lambda>x. upd (\<lambda>_. x) s) (to_cxx v)))"

definition def_readonly ::
    "string \<Rightarrow> ('a \<Rightarrow> 'obj) \<Rightarrow> ('s \<Rightarrow> 'a) \<Rightarrow> string \<times> ('obj, 's) attribute" where
  "def_readonly name to_py field = (name, Attribute False (\<lambda>s. Inr (to_py (field s))) (\<lambda>v s. None))"

text \<open>A character array becomes a string up to its first zero byte; without one, it is read past its end.\<close>

definition def_char_array ::
    "string \<Rightarrow> (byte list \<Rightarrow> 'obj) \<Rightarrow> ('s \<Rightarrow> byte list) \<Rightarrow> string \<times> ('obj, 's) attribute" where
  "def_char_array name to_py field =
     (name, Attribute False
        (\<lambda>s. if 0 \<in> set (field s) then Inr (to_py (takeWhile (\<lambda>b. b \<noteq> 0) (field s))) else Inl Out_of_bounds)
        (\<lambda>v s. None))"

text \<open>\<open>x.name\<close> and \<open>x.name = v\<close> of a script, and what \<open>py::init<>()\<close> makes: all bytes zero.\<close>

definition getattr :: "('obj, 's) attribute_table \<Rightarrow> string \<Rightarrow> 's \<Rightarrow> py_error + 'obj" where
  "getattr table name s =
     (case map_of table name of
        None \<Rightarrow> Inl Attribute_error
      | Some a \<Rightarrow> (case getter a s of Inl e \<Rightarrow> Inl (Cxx e) | Inr v \<Rightarrow> Inr v))"

definition setattr :: "('obj, 's) attribute_table \<Rightarrow> string \<Rightarrow> 'obj \<Rightarrow> 's \<Rightarrow> py_error + 's" where
  "setattr table name v s =
     (case map_of table name of
        None \<Rightarrow> Inl Attribute_error
      | Some a \<Rightarrow>
          if \<not> writable a then Inl Attribute_error
          else (case setter a v s of None \<Rightarrow> Inl Type_error | Some t \<Rightarrow> Inr t))"

definition value_init :: "(byte list \<Rightarrow> 's option) \<Rightarrow> nat \<Rightarrow> 's" where
  "value_init dec n = the (dec (replicate n 0))"

text \<open>A script that gives one object, attribute by attribute, the values of another.\<close>

fun copy_attributes ::
    "('obj, 's) attribute_table \<Rightarrow> string list \<Rightarrow> 's \<Rightarrow> 's \<Rightarrow> py_error + 's" where
  "copy_attributes table [] from s = Inr s"
| "copy_attributes table (n # ns) from s =
     (case getattr table n from of
        Inl e \<Rightarrow> Inl e
      | Inr v \<Rightarrow> (case setattr table n v s of
          Inl e \<Rightarrow> Inl e
        | Inr t \<Rightarrow> copy_attributes table ns from t))"

definition same_attributes :: "('obj, 's) attribute_table \<Rightarrow> 's \<Rightarrow> 's \<Rightarrow> bool" where
  "same_attributes table s t \<longleftrightarrow> (\<forall>a \<in> snd ` set table. getter a s = getter a t)"

definition header_class :: "'obj casters \<Rightarrow> ('obj, OculusMessageHeader) py_class" where
  "header_class C =
     \<lparr>class_name = ''OculusMessageHeader'',
      class_init = zero_header,
      class_attributes =
        [def_readwrite ''oculusId'' (py_u16 C) (cxx_u16 C) oculusId oculusId_update,
         def_readwrite ''srcDeviceId'' (py_u16 C) (cxx_u16 C) srcDeviceId srcDeviceId_update,
         def_readwrite ''dstDeviceId'' (py_u16 C) (cxx_u16 C) dstDeviceId dstDeviceId_update,
         def_readwrite ''msgId'' (py_u16 C) (cxx_u16 C) msgId msgId_update,
         def_readwrite ''msgVersion'' (py_u16 C) (cxx_u16 C) msgVersion msgVersion_update,
         def_readwrite ''payloadSize'' (py_u32 C) (cxx_u32 C) payloadSize payloadSize_update,
         def_readwrite ''spare2'' (py_u16 C) (cxx_u16 C) spare2 spare2_update],
      class_str = Some show_header\<rparr>"

definition fire_class :: "'obj casters \<Rightarrow> ('obj, OculusSimpleFireMessage) py_class" where
  "fire_class C =
     \<lparr>class_name = ''OculusSimpleFireMessage'',
      class_init = value_init dec_fire sizeof_fire,
      class_attributes =
        [def_readwrite ''head'' (py_header C) (cxx_header C) fm_head fm_head_update,
         def_readwrite ''masterMode'' (py_u8 C) (cxx_u8 C) fm_masterMode fm_masterMode_update,
         def_readwrite ''pingRate'' (py_u8 C) (cxx_u8 C) fm_pingRate fm_pingRate_update,
         def_readwrite ''networkSpeed'' (py_u8 C) (cxx_u8 C) fm_networkSpeed fm_networkSpeed_update,
         def_readwrite ''gammaCorrection'' (py_u8 C) (cxx_u8 C) fm_gammaCorrection fm_gammaCorrection_update,
         def_readwrite ''flags'' (py_u8 C) (cxx_u8 C) fm_flags fm_flags_update,
         def_readwrite ''range'' (py_f64 C) (cxx_f64 C) fm_range fm_range_update,
         def_readwrite ''gainPercent'' (py_f64 C) (cxx_f64 C) fm_gainPercent fm_gainPercent_update,
         def_readwrite ''speedOfSound'' (py_f64 C) (cxx_f64 C) fm_speedOfSound fm_speedOfSound_update,
         def_readwrite ''salinity'' (py_f64 C) (cxx_f64 C) fm_salinity fm_salinity_update],
      class_str = Some show_fire\<rparr>"

definition ping_class :: "'obj casters \<Rightarrow> ('obj, OculusSimplePingResult) py_class" where
  "ping_class C =
     \<lparr>class_name = ''OculusSimplePingResult'',
      class_init = value_init dec_ping sizeof_ping,
      class_attributes =
        [def_readonly ''fireMessage'' (py_fire C) pr_fireMessage,
         def_readonly ''pingId'' (py_u32 C) pr_pingId,
         def_readonly ''status'' (py_u32 C) pr_status,
         def_readonly ''frequency'' (py_f64 C) pr_frequency,
         def_readonly ''temperature'' (py_f64 C) pr_temperature,
         def_readonly ''pressure'' (py_f64 C) pr_pressure,
         def_readonly ''speeedOfSoundUsed'' (py_f64 C) pr_speeedOfSoundUsed,
         def_readonly ''pingStartTime'' (py_u32 C) pr_pingStartTime,
         def_readonly ''dataSize'' (py_u8 C) pr_dataSize,
         def_readonly ''rangeResolution'' (py_f64 C) pr_rangeResolution,
         def_readonly ''nRanges'' (py_u16 C) pr_nRanges,
         def_readonly ''nBeams'' (py_u16 C) pr_nBeams,
         def_readonly ''imageOffset'' (py_u32 C) pr_imageOffset,
         def_readonly ''imageSize'' (py_u32 C) pr_imageSize,
         def_readonly ''messageSize'' (py_u32 C) pr_messageSize],
      class_str = Some show_ping\<rparr>"

definition fire2_class :: "'obj casters \<Rightarrow> ('obj, OculusSimpleFireMessage2) py_class" where
  "fire2_class C =
     \<lparr>class_name = ''OculusSimpleFireMessage2'',
      class_init = value_init dec_fire2 sizeof_fire2,
      class_attributes =
        [def_readwrite ''head'' (py_header C) (cxx_header C) fm2_head fm2_head_update,
         def_readwrite ''masterMode'' (py_u8 C) (cxx_u8 C) fm2_masterMode fm2_masterMode_update,
         def_readwrite ''pingRate'' (py_u8 C) (cxx_u8 C) fm2_pingRate fm2_pingRate_update,
         def_readwrite ''networkSpeed'' (py_u8 C) (cxx_u8 C) fm2_networkSpeed fm2_networkSpeed_update,
         def_readwrite ''gammaCorrection'' (py_u8 C) (cxx_u8 C) fm2_gammaCorrection fm2_gammaCorrection_update,
         def_readwrite ''flags'' (py_u8 C) (cxx_u8 C) fm2_flags fm2_flags_update,
         def_readwrite ''range'' (py_f64 C) (cxx_f64 C) fm2_rangePercent fm2_rangePercent_update,
         def_readwrite ''gainPercent'' (py_f64 C) (cxx_f64 C) fm2_gainPercent fm2_gainPercent_update,
         def_readwrite ''speedOfSound'' (py_f64 C) (cxx_f64 C) fm2_speedOfSound fm2_speedOfSound_update,
         def_readwrite ''salinity'' (py_f64 C) (cxx_f64 C) fm2_salinity fm2_salinity_update,
         def_readwrite ''extFlags'' (py_u32 C) (cxx_u32 C) fm2_extFlags fm2_extFlags_update],
      class_str = Some show_fire2\<rparr>"

definition ping2_class :: "'obj casters \<Rightarrow> ('obj, OculusSimplePingResult2) py_class" where
  "ping2_class C =
     \<lparr>class_name = ''OculusSimplePingResult2'',
      class_init = value_init dec_ping2 sizeof_ping2,
      class_attributes =
        [def_readonly ''fireMessage'' (py_fire2 C) pr2_fireMessage,
         def_readonly ''pingId'' (py_u32 C) pr2_pingId,
         def_readonly ''status'' (py_u32 C) pr2_status,
         def_readonly ''frequency'' (py_f64 C) pr2_frequency,
         def_readonly ''temperature'' (py_f64 C) pr2_temperature,
         def_readonly ''pressure'' (py_f64 C) pr2_pressure,
         def_readonly ''heading'' (py_f64 C) pr2_heading,
         def_readonly ''pitch'' (py_f64 C) pr2_pitch,
         def_readonly ''roll'' (py_f64 C) pr2_roll,
         def_readonly ''speeedOfSoundUsed'' (py_f64 C) pr2_speeedOfSoundUsed,
         def_readonly ''pingStartTime'' (py_f64 C) pr2_pingStartTime,
         def_readonly ''dataSize'' (py_u8 C) pr2_dataSize,
         def_readonly ''rangeResolution'' (py_f64 C) pr2_rangeResolution,
         def_readonly ''nRanges'' (py_u16 C) pr2_nRanges,
         def_readonly ''nBeams'' (py_u16 C) pr2_nBeams,
         def_readonly ''spare0'' (py_u32 C) pr2_spare0,
         def_readonly ''spare1'' (py_u32 C) pr2_spare1,
         def_readonly ''spare2'' (py_u32 C) pr2_spare2,
         def_readonly ''spare3'' (py_u32 C) pr2_spare3,
         def_readonly ''imageOffset'' (py_u32 C) pr2_imageOffset,
         def_readonly ''imageSize'' (py_u32 C) pr2_imageSize,
         def_readonly ''messageSize'' (py_u32 C) pr2_messageSize],
      class_str = Some show_ping2\<rparr>"

definition version_class :: "'obj casters \<Rightarrow> ('obj, OculusVersionInfo) py_class" where
  "version_class C =
     \<lparr>class_name = ''OculusVersionInfo'',
      class_init = value_init dec_version sizeof_version,
      class_attributes =
        [def_readonly ''firmwareVersion0'' (py_u32 C) vi_firmwareVersion0,
         def_readonly ''firmwareDate0'' (py_u32 C) vi_firmwareDate0,
         def_readonly ''firmwareVersion1'' (py_u32 C) vi_firmwareVersion1,
         def_readonly ''firmwareDate1'' (py_u32 C) vi_firmwareDate1,
         def_readonly ''firmwareVersion2'' (py_u32 C) vi_firmwareVersion2,
         def_readonly ''firmwareDate2'' (py_u32 C) vi_firmwareDate2],
      class_str = None\<rparr>"

definition status_class :: "'obj casters \<Rightarrow> ('obj, OculusStatusMsg) py_class" where
  "status_class C =
     \<lparr>class_name = ''OculusStatusMsg'',
      class_init = value_init dec_status sizeof_status,
      class_attributes =
        [def_readonly ''hdr'' (py_header C) st_hdr,
         def_readonly ''deviceId'' (py_u32 C) st_deviceId,
         def_readonly ''deviceType'' (py_u16 C) st_deviceType,
         def_readonly ''partNumber'' (py_u16 C) st_partNumber,
         def_readonly ''status'' (py_u32 C) st_status,
         def_readonly ''versinInfo'' (py_version C) st_versinInfo,
         def_readonly ''ipAddr'' (py_u32 C) st_ipAddr,
         def_readonly ''ipMask'' (py_u32 C) st_ipMask,
         def_readonly ''connectedIpAddr'' (py_u32 C) st_connectedIpAddr,
         def_readonly ''macAddr0'' (py_u8 C) st_macAddr0,
         def_readonly ''macAddr1'' (py_u8 C) st_macAddr1,
         def_readonly ''macAddr2'' (py_u8 C) st_macAddr2,
         def_readonly ''macAddr3'' (py_u8 C) st_macAddr3,
         def_readonly ''macAddr4'' (py_u8 C) st_macAddr4,
         def_readonly ''macAddr5'' (py_u8 C) st_macAddr5,
         def_readonly ''temperature0'' (py_f64 C) st_temperature0,
         def_readonly ''temperature1'' (py_f64 C) st_temperature1,
         def_readonly ''temperature2'' (py_f64 C) st_temperature2,
         def_readonly ''temperature3'' (py_f64 C) st_temperature3,
         def_readonly ''temperature4'' (py_f64 C) st_temperature4,
         def_readonly ''temperature5'' (py_f64 C) st_temperature5,
         def_readonly ''temperature6'' (py_f64 C) st_temperature6,
         def_readonly ''temperature7'' (py_f64 C) st_temperature7,
         def_readonly ''pressure'' (py_f64 C) st_pressure],
      class_str = Some show_status\<rparr>"

definition file_header_class :: "'obj casters \<Rightarrow> ('obj, LogHeader) py_class" where
  "file_header_class C =
     \<lparr>class_name = ''FileHeader'',
      class_init = value_init dec_log_header sizeof_log_header,
      class_attributes =
        [def_readonly ''fileHeader'' (py_u32 C) lh_fileHeader,
         def_readonly ''sizeHeader'' (py_u32 C) lh_sizeHeader,
         def_char_array ''source'' (py_chars C) (\<lambda>s. put_le (lh_source s)),
         def_readonly ''version'' (py_u16 C) lh_version,
         def_readonly ''encryption'' (py_u16 C) lh_encryption,
         def_readonly ''key'' (py_i64 C) lh_key,
         def_readonly ''time'' (py_f64 C) lh_time],
      class_str = None\<rparr>"

definition item_header_class :: "'obj casters \<Rightarrow> ('obj, LogItem) py_class" where
  "item_header_class C =
     \<lparr>class_name = ''ItemHeader'',
      class_init = value_init dec_log_item sizeof_log_item,
      class_attributes =
        [def_readonly ''itemHeader'' (py_u32 C) li_itemHeader,
         def_readonly ''sizeHeader'' (py_u32 C) li_sizeHeader,
         def_readonly ''type'' (py_u16 C) li_type,
         def_readonly ''version'' (py_u16 C) li_version,
         def_readonly ''time'' (py_f64 C) li_time,
         def_readonly ''compression'' (py_u16 C) li_compression,
         def_readonly ''originalSize'' (py_u32 C) li_originalSize,
         def_readonly ''payloadSize'' (py_u32 C) li_payloadSize],
      class_str = None\<rparr>"
text \<open>The enumeration \<open>RecordTypes\<close> of the submodule \<open>files\<close>.\<close>

definition RecordTypes_values :: "(string \<times> RecordTypes) list" where
  "RecordTypes_values =
     [(''rt_settings'', rt_settings), (''rt_serialPort'', rt_serialPort),
      (''rt_oculusSonar'', rt_oculusSonar), (''rt_blueviewSonar'', rt_blueviewSonar),
      (''rt_rawVideo'', rt_rawVideo), (''rt_h264Video'', rt_h264Video),
      (''rt_apBattery'', rt_apBattery), (''rt_apMissionProgress'', rt_apMissionProgress),
      (''rt_nortekDVL'', rt_nortekDVL), (''rt_apNavData'', rt_apNavData),
      (''rt_apDvlData'', rt_apDvlData), (''rt_apAhrsData'', rt_apAhrsData),
      (''rt_apSonarHeader'', rt_apSonarHeader), (''rt_rawSonarImage'', rt_rawSonarImage),
      (''rt_ahrsMtData2'', rt_ahrsMtData2), (''rt_apVehicleInfo'', rt_apVehicleInfo),
      (''rt_apMarker'', rt_apMarker), (''rt_apGeoImageHeader'', rt_apGeoImageHeader),
      (''rt_apGeoImageData'', rt_apGeoImageData), (''rt_sbgData'', rt_sbgData),
      (''rt_ocViewInfo'', rt_ocViewInfo), (''rt_oculusSonarStamp'', rt_oculusSonarStamp)]"

text \<open>
  \<open>x.member.name = v\<close>: an attribute whose type is a class is read as a reference to the member,
  whether it can be written itself or not.
\<close>

definition setattr_member ::
    "('obj, 's) attribute_table \<Rightarrow> string \<Rightarrow> ('s \<Rightarrow> 'm) \<Rightarrow> (('m \<Rightarrow> 'm) \<Rightarrow> 's \<Rightarrow> 's)
     \<Rightarrow> ('obj, 'm) attribute_table \<Rightarrow> string \<Rightarrow> 'obj \<Rightarrow> 's \<Rightarrow> py_error + 's" where
  "setattr_member outer member field upd inner name v s =
     (case map_of outer member of
        None \<Rightarrow> Inl Attribute_error
      | Some _ \<Rightarrow> (case setattr inner name v (field s) of
          Inl e \<Rightarrow> Inl e
        | Inr m \<Rightarrow> Inr (upd (\<lambda>_. m) s)))"

section \<open>Configurations as objects\<close>

text \<open>
  \<open>send_config\<close>, \<open>request_config\<close> and \<open>current_config\<close> of the handle with the objects a script gives
  them. They cast the object to a pointer and dereference it.
\<close>

definition config_of_object :: "'obj casters \<Rightarrow> 'obj \<Rightarrow> py_error + OculusSimpleFireMessage" where
  "config_of_object C obj =
     (case cxx_fire_pointer C obj of
        None \<Rightarrow> Inl Cast_error
      | Some None \<Rightarrow> Inl (Cxx Null_dereference)
      | Some (Some config) \<Rightarrow> Inr config)"

definition send_config_object ::
    "'obj casters \<Rightarrow> send_outcome \<Rightarrow> 'obj \<Rightarrow> PythonHandle \<Rightarrow> PythonHandle \<times> (py_error + bool)" where
  "send_config_object C outcome obj h =
     (case config_of_object C obj of
        Inl e \<Rightarrow> (h, Inl e)
      | Inr config \<Rightarrow>
          let (t, r) = send_config outcome config h
          in (t, case r of Inl e \<Rightarrow> Inl (Cxx e) | Inr b \<Rightarrow> Inr b))"

definition request_config_object ::
    "'obj casters \<Rightarrow> driver_order \<Rightarrow> OculusSimpleFireMessage \<Rightarrow> 'obj \<Rightarrow> (nat \<Rightarrow> attempt)
     \<Rightarrow> PythonHandle \<Rightarrow> (PythonHandle \<times> (py_error + 'obj)) option" where
  "request_config_object C order uninit obj env h =
     (case config_of_object C obj of
        Inl e \<Rightarrow> Some (h, Inl e)
      | Inr config \<Rightarrow>
          map_option (\<lambda>(t, r). (t, case r of Inl e \<Rightarrow> Inl (Cxx e) | Inr c \<Rightarrow> Inr (py_fire C c)))
            (request_config order uninit config env h))"

definition current_config_object :: "'obj casters \<Rightarrow> PythonHandle \<Rightarrow> 'obj" where
  "current_config_object C h = py_fire C (current_config h)"

section \<open>What a class promises\<close>

definition writable_names :: "('obj, 's) attribute_table \<Rightarrow> string list" where
  "writable_names table = map fst (filter (\<lambda>e. writable (snd e)) table)"

locale attribute_laws =
  fixes table :: "('obj, 's) attribute_table"
  assumes names_distinct: "distinct (map fst table)"
    and own_value: "(n, a) \<in> set table \<Longrightarrow> writable a \<Longrightarrow>
      \<exists>v t. getter a c = Inr v \<and> setter a v s = Some t \<and> getter a t = Inr v"
    and others_kept: "(n, a) \<in> set table \<Longrightarrow> (m, b) \<in> set table \<Longrightarrow> n \<noteq> m \<Longrightarrow> writable a
      \<Longrightarrow> setter a v s = Some t \<Longrightarrow> getter b t = getter b s"
begin

lemma map_of_attribute: "(n, a) \<in> set table \<Longrightarrow> map_of table n = Some a"
  using names_distinct by simp

lemma setattr_others:
  assumes "setattr table n v s = Inr t" and "m \<noteq> n"
  shows "getattr table m t = getattr table m s"
proof -
  from assms(1) obtain a where a: "(n, a) \<in> set table" "writable a" "setter a v s = Some t"
    by (auto simp: setattr_def split: option.splits if_splits dest: map_of_SomeD)
  show ?thesis
  proof (cases "map_of table m")
    case (Some b)
    with others_kept [OF a(1) map_of_SomeD _ a(2,3)] assms(2) show ?thesis by (auto simp: getattr_def)
  qed (simp add: getattr_def)
qed

lemma setattr_own:
  assumes "n \<in> set (writable_names table)"
  shows "\<exists>v t. getattr table n c = Inr v \<and> setattr table n v s = Inr t \<and> getattr table n t = Inr v"
proof -
  from assms obtain a where a: "(n, a) \<in> set table" "writable a" by (auto simp: writable_names_def)
  from own_value [OF this] obtain v t where "getter a c = Inr v" "setter a v s = Some t" "getter a t = Inr v"
    by blast
  with a map_of_attribute show ?thesis by (auto simp: getattr_def setattr_def)
qed

lemma setattr_refused:
  "n \<notin> set (writable_names table) \<Longrightarrow> setattr table n v s = Inl Attribute_error"
  by (force simp: setattr_def writable_names_def split: option.split dest: map_of_SomeD)

lemma copied:
  assumes "distinct ns" and "set ns \<subseteq> set (writable_names table)"
  shows "\<exists>u. copy_attributes table ns c s = Inr u
     \<and> (\<forall>m. getattr table m u = getattr table m (if m \<in> set ns then c else s))"
  using assms
proof (induction ns arbitrary: s)
  case (Cons n ns)
  from Cons.prems(2) setattr_own [of n c s] obtain v t where
    t: "getattr table n c = Inr v" "setattr table n v s = Inr t" "getattr table n t = Inr v" by auto
  from Cons obtain u where u: "copy_attributes table ns c t = Inr u"
    "\<And>m. getattr table m u = getattr table m (if m \<in> set ns then c else t)" by force
  have "getattr table m u = getattr table m (if m \<in> set (n # ns) then c else s)" for m
    using u(2) [of m] t setattr_others [OF t(2), of m] Cons.prems(1) by auto
  with u(1) t(1,2) show ?case by auto
qed simp

lemma same_attributes_iff:
  assumes "\<And>a x. a \<in> snd ` set table \<Longrightarrow> \<exists>v. getter a x = Inr v"
  shows "same_attributes table s t \<longleftrightarrow> (\<forall>n. getattr table n s = getattr table n t)"
proof
  assume "same_attributes table s t"
  then show "\<forall>n. getattr table n s = getattr table n t"
    by (force simp: same_attributes_def getattr_def split: option.split dest: map_of_SomeD)
next
  assume same: "\<forall>n. getattr table n s = getattr table n t"
  have "getter a s = getter a t" if "(n, a) \<in> set table" for n a
  proof -
    from that assms obtain v w where "getter a s = Inr v" "getter a t = Inr w" by force
    with same [rule_format, of n] map_of_attribute [OF that] show ?thesis by (simp add: getattr_def)
  qed
  then show "same_attributes table s t" by (auto simp: same_attributes_def)
qed

end

text \<open>The laws, attribute by attribute.\<close>

definition own_value_law :: "('obj, 's) attribute \<Rightarrow> bool" where
  "own_value_law a \<longleftrightarrow> (writable a \<longrightarrow> (\<forall>c s. \<exists>v t. getter a c = Inr v \<and> setter a v s = Some t \<and> getter a t = Inr v))"

definition kept_law :: "('obj, 's) attribute \<Rightarrow> ('obj, 's) attribute \<Rightarrow> bool" where
  "kept_law a b \<longleftrightarrow> (\<forall>v s t. writable a \<longrightarrow> setter a v s = Some t \<longrightarrow> getter b t = getter b s)"

lemma attribute_lawsI:
  assumes "distinct (map fst table)"
    and "\<forall>e \<in> set table. own_value_law (snd e)"
    and "\<forall>e \<in> set table. \<forall>f \<in> set table. fst e = fst f \<or> kept_law (snd e) (snd f)"
  shows "attribute_laws table"
proof
  show "distinct (map fst table)" by (rule assms(1))
  show "\<exists>v t. getter a c = Inr v \<and> setter a v s = Some t \<and> getter a t = Inr v"
    if "(n, a) \<in> set table" "writable a" for n a c s
    using assms(2) that unfolding own_value_law_def by force
  show "getter b t = getter b s"
    if "(n, a) \<in> set table" "(m, b) \<in> set table" "n \<noteq> m" "writable a" "setter a v s = Some t" for n a m b v s t
    using assms(3) [rule_format, OF that(1,2)] that(3-5) unfolding kept_law_def by auto
qed

lemma attribute_parts [simp]:
  "fst (def_readwrite n p c g u) = n" "fst (def_readonly n p g) = n" "fst (def_char_array n q h) = n"
  "writable (snd (def_readwrite n p c g u))" "\<not> writable (snd (def_readonly n p g))"
  "\<not> writable (snd (def_char_array n q h))"
  by (simp_all add: def_readwrite_def def_readonly_def def_char_array_def)

lemma readonly_laws [simp]:
  "own_value_law (snd (def_readonly n p g))" "own_value_law (snd (def_char_array n q h))"
  "kept_law (snd (def_readonly n p g)) b" "kept_law (snd (def_char_array n q h)) b"
  by (simp_all add: own_value_law_def kept_law_def)

lemma readwrite_laws [simp]:
  "own_value_law (snd (def_readwrite n p c g u)) \<longleftrightarrow>
     (\<forall>x s. \<exists>y. c (p (g x)) = Some y \<and> p (g (u (\<lambda>_. y) s)) = p (g x))"
  "kept_law (snd (def_readwrite n p c g u)) (snd (def_readwrite n' p' c' g' u')) \<longleftrightarrow>
     (\<forall>v x s. c v = Some x \<longrightarrow> p' (g' (u (\<lambda>_. x) s)) = p' (g' s))"
  by (auto simp: own_value_law_def kept_law_def def_readwrite_def; blast)+

context pybind_casters
begin

sublocale header: attribute_laws "class_attributes (header_class C)"
  by (rule attribute_lawsI) (simp_all add: header_class_def casts)

sublocale fire: attribute_laws "class_attributes (fire_class C)"
  by (rule attribute_lawsI) (simp_all add: fire_class_def casts)

sublocale fire2: attribute_laws "class_attributes (fire2_class C)"
  by (rule attribute_lawsI) (simp_all add: fire2_class_def casts)

sublocale ping: attribute_laws "class_attributes (ping_class C)"
  by (rule attribute_lawsI) (simp_all add: ping_class_def casts)

sublocale ping2: attribute_laws "class_attributes (ping2_class C)"
  by (rule attribute_lawsI) (simp_all add: ping2_class_def casts)

sublocale version: attribute_laws "class_attributes (version_class C)"
  by (rule attribute_lawsI) (simp_all add: version_class_def casts)

sublocale status: attribute_laws "class_attributes (status_class C)"
  by (rule attribute_lawsI) (simp_all add: status_class_def casts)

sublocale file_header: attribute_laws "class_attributes (file_header_class C)"
  by (rule attribute_lawsI) (simp_all add: file_header_class_def casts)

sublocale item_header: attribute_laws "class_attributes (item_header_class C)"
  by (rule attribute_lawsI) (simp_all add: item_header_class_def casts)

lemma header_determined:
  assumes "\<And>n. getattr (class_attributes (header_class C)) n s = getattr (class_attributes (header_class C)) n t"
  shows "s = (t :: OculusMessageHeader)"
  using assms [of "''oculusId''"] assms [of "''srcDeviceId''"] assms [of "''dstDeviceId''"]
    assms [of "''msgId''"] assms [of "''msgVersion''"] assms [of "''payloadSize''"] assms [of "''spare2''"]
  by (intro OculusMessageHeader.equality) (simp_all add: getattr_def header_class_def def_readwrite_def py_inject)

lemma fire_determined:
  assumes "\<And>n. getattr (class_attributes (fire_class C)) n s = getattr (class_attributes (fire_class C)) n t"
  shows "s = (t :: OculusSimpleFireMessage)"
  using assms [of "''head''"] assms [of "''masterMode''"] assms [of "''pingRate''"] assms [of "''networkSpeed''"]
    assms [of "''gammaCorrection''"] assms [of "''flags''"] assms [of "''range''"] assms [of "''gainPercent''"]
    assms [of "''speedOfSound''"] assms [of "''salinity''"]
  by (intro OculusSimpleFireMessage.equality) (simp_all add: getattr_def fire_class_def def_readwrite_def py_inject)

lemma fire2_determined:
  assumes "\<And>n. getattr (class_attributes (fire2_class C)) n s = getattr (class_attributes (fire2_class C)) n t"
  shows "s\<lparr>fm2_reserved := 0\<rparr> = (t\<lparr>fm2_reserved := 0\<rparr> :: OculusSimpleFireMessage2)"
  using assms [of "''head''"] assms [of "''masterMode''"] assms [of "''pingRate''"] assms [of "''networkSpeed''"]
    assms [of "''gammaCorrection''"] assms [of "''flags''"] assms [of "''range''"] assms [of "''gainPercent''"]
    assms [of "''speedOfSound''"] assms [of "''salinity''"] assms [of "''extFlags''"]
  by (intro OculusSimpleFireMessage2.equality) (simp_all add: getattr_def fire2_class_def def_readwrite_def py_inject)

end

section \<open>Properties\<close>

lemma fire_names:
  "writable_names (class_attributes (fire_class C)) = map fst (class_attributes (fire_class C))"
  "writable_names (class_attributes (fire2_class C)) = map fst (class_attributes (fire2_class C))"
  by (simp_all add: writable_names_def fire_class_def fire2_class_def)

context pybind_casters
begin

lemma fire_copied:
  "copy_attributes (class_attributes (fire_class C)) (map fst (class_attributes (fire_class C))) config s
   = Inr config"
proof -
  let ?T = "class_attributes (fire_class C)"
  from fire.copied [of "map fst ?T" config s] fire.names_distinct fire_names(1) [of C] obtain u where u: "copy_attributes ?T (map fst ?T) config s = Inr u"
    "\<And>m. getattr ?T m u = getattr ?T m (if m \<in> set (map fst ?T) then config else s)" by fastforce
  have "getattr ?T m u = getattr ?T m config" for m
  proof (cases "m \<in> set (map fst ?T)")
    case False
    then have "map_of ?T m = None" by (simp add: map_of_eq_None_iff)
    then show ?thesis by (simp add: getattr_def)
  qed (use u(2) [of m] in simp)
  then have "u = config" by (rule fire_determined)
  with u(1) show ?thesis by simp
qed

end

text \<open>
  C24: a script can have the sonar configured in any way. It makes an \<open>OculusSimpleFireMessage\<close>, gives
  each of its attributes the value wanted and calls \<open>send_config\<close>; on a handle whose driver is
  connected, the bytes sent are those of the wanted configuration, with the header and the network
  speed that the driver fills in, and no other part of the object matters.
\<close>

theorem python_config_reaches_sonar:
  assumes "pybind_casters C" and "connected h" and "socket h \<noteq> None"
  shows "\<exists>cfg t. copy_attributes (class_attributes (fire_class C)) (map fst (class_attributes (fire_class C)))
       config (class_init (fire_class C)) = Inr cfg
     \<and> send_config_object C (Sent sizeof_fire) (py_fire C cfg) h = (t, Inr True)
     \<and> wire t = wire h @ enc_fire (fire_message (sonarId h) config)"
proof -
  have "connectionState h = Connected" using assms(2) by (simp add: connected_def)
  with assms(3) obtain t where t: "send_ping_config (Sent sizeof_fire) config h = (t, Inr True)"
    using send_succeeds [of h config] by blast
  then have "wire t = wire h @ enc_fire (fire_message (sonarId h) config)"
    using send_ping_config_sent [OF t] by simp
  with t show ?thesis
    by (auto simp: pybind_casters.fire_copied [OF assms(1)] pybind_casters.cast_fire [OF assms(1)]
        send_config_object_def config_of_object_def send_config_def)
qed

text \<open>
  An attribute of class type that a script may only read still gives it the member itself. It may
  not assign \<open>fireMessage\<close> of a ping result, but any attribute of that message, and the ping
  result has the new value.
\<close>

theorem readonly_attribute_is_shallow:
  assumes "pybind_casters C"
  shows "setattr (class_attributes (ping_class C)) ''fireMessage'' v p = Inl Attribute_error
     \<and> setattr_member (class_attributes (ping_class C)) ''fireMessage'' pr_fireMessage pr_fireMessage_update
         (class_attributes (fire_class C)) ''pingRate'' (py_u8 C rate) p =
       Inr (p\<lparr>pr_fireMessage := (pr_fireMessage p)\<lparr>fm_pingRate := rate\<rparr>\<rparr>)"
  using assms
  by (simp add: setattr_def setattr_member_def ping_class_def fire_class_def def_readonly_def def_readwrite_def
      pybind_casters.cast_u8)

text \<open>
  \<open>send_config\<close> and \<open>request_config\<close> of the handle do not refuse \<open>None\<close>: they read through a null
  pointer, in every state. Any other object that is no configuration is refused with an
  exception, and nothing is sent.
\<close>

theorem none_is_dereferenced:
  assumes "pybind_casters C"
  shows "send_config_object C outcome (py_none C) h = (h, Inl (Cxx Null_dereference))
     \<and> request_config_object C order uninit (py_none C) env h = Some (h, Inl (Cxx Null_dereference))
     \<and> (cxx_fire_pointer C obj = None \<longrightarrow> send_config_object C outcome obj h = (h, Inl Cast_error))"
  using assms
  by (simp add: send_config_object_def request_config_object_def config_of_object_def pybind_casters.cast_none)

section \<open>Examples\<close>

text \<open>Conversions as they could be: an object is the value of one type, an integer has to fit.\<close>

datatype py_value =
    Py_none | Py_int int | Py_float double | Py_string "byte list"
  | Py_header OculusMessageHeader | Py_fire OculusSimpleFireMessage
  | Py_fire2 OculusSimpleFireMessage2 | Py_version OculusVersionInfo

fun word_of_value :: "py_value \<Rightarrow> 'a::len word option" where
  "word_of_value (Py_int i) = (if 0 \<le> i \<and> i < 2 ^ LENGTH('a) then Some (word_of_int i) else None)"
| "word_of_value _ = None"

definition plain_casters :: "py_value casters" where
  "plain_casters =
     \<lparr>py_u8 = (\<lambda>w. Py_int (uint w)), cxx_u8 = word_of_value,
      py_u16 = (\<lambda>w. Py_int (uint w)), cxx_u16 = word_of_value,
      py_u32 = (\<lambda>w. Py_int (uint w)), cxx_u32 = word_of_value,
      py_i64 = (\<lambda>w. Py_int (sint w)),
      py_f64 = Py_float, cxx_f64 = (\<lambda>v. case v of Py_float d \<Rightarrow> Some d | _ \<Rightarrow> None),
      py_chars = Py_string,
      py_header = Py_header, cxx_header = (\<lambda>v. case v of Py_header h \<Rightarrow> Some h | _ \<Rightarrow> None),
      py_fire = Py_fire,
      cxx_fire_pointer = (\<lambda>v. case v of Py_fire f \<Rightarrow> Some (Some f) | Py_none \<Rightarrow> Some None | _ \<Rightarrow> None),
      py_fire2 = Py_fire2, cxx_fire2 = (\<lambda>v. case v of Py_fire2 f \<Rightarrow> Some f | _ \<Rightarrow> None),
      py_version = Py_version, cxx_version = (\<lambda>v. case v of Py_version x \<Rightarrow> Some x | _ \<Rightarrow> None),
      py_none = Py_none\<rparr>"

lemma uint_less_numerals:
  "uint (a :: u8) < 256" "uint (b :: u16) < 65536" "uint (c :: u32) < 4294967296"
  using uint_lt2p [of a] uint_lt2p [of b] uint_lt2p [of c] by simp_all

interpretation plain: pybind_casters plain_casters
  by unfold_locales (simp_all add: plain_casters_def uint_less_numerals)

lemma python_config_reaches_sonar_witness:
  "\<exists>cfg t. send_config_object plain_casters (Sent sizeof_fire) (Py_fire cfg) sample_handle = (t, Inr True)
     \<and> wire t = wire sample_handle @ enc_fire (fire_message (sonarId sample_handle) default_ping_config)"
proof -
  have py: "py_fire plain_casters = Py_fire" by (simp add: plain_casters_def)
  have "connected sample_handle" "socket sample_handle \<noteq> None"
    by (simp_all add: sample_handle_def sample_driver_def SonarDriver.defs connected_def)
  from python_config_reaches_sonar [OF plain.pybind_casters_axioms this, of default_ping_config]
  show ?thesis unfolding py by blast
qed

lemma readonly_attribute_is_shallow_witness:
  "setattr (class_attributes (ping_class plain_casters)) ''fireMessage'' Py_none p = Inl Attribute_error"
  using readonly_attribute_is_shallow [OF plain.pybind_casters_axioms] by blast

lemma none_is_dereferenced_witness:
  "send_config_object plain_casters (Sent 0) Py_none sample_handle = (sample_handle, Inl (Cxx Null_dereference))"
  using none_is_dereferenced [OF plain.pybind_casters_axioms, of "Sent 0" sample_handle]
  by (simp add: plain_casters_def)

end
