(* ===== verification/Ping_Helpers.thy ===== *)
theory Ping_Helpers
  imports Message_Properties Show_Numbers
begin

text \<open>
  The helpers on ping data of \<open>include/oculus_driver/helpers.h\<close>. Arrays are lists; a read or a
  write outside of one is \<open>Out_of_bounds\<close>. The templates over the two ping results become
  functions of an \<open>image_layout\<close>, which holds what they ask of the metadata. The lemmas compare
  the conversion to an array with the row-major image its comment describes, and show what
  becomes of its writes when gains are sent.
\<close>

section \<open>What the metadata says\<close>

definition fire_has_gains :: "OculusSimpleFireMessage \<Rightarrow> bool" where
  "fire_has_gains msg \<longleftrightarrow> and (fm_flags msg) 0x4 \<noteq> 0"

definition ping_has_gains :: "OculusSimplePingResult \<Rightarrow> bool" where
  "ping_has_gains msg = fire_has_gains (pr_fireMessage msg)"

definition fire_has_16bits_data :: "OculusSimpleFireMessage \<Rightarrow> bool" where
  "fire_has_16bits_data msg \<longleftrightarrow> and (fm_flags msg) 0x2 \<noteq> 0"

definition ping_has_16bits_data :: "OculusSimplePingResult \<Rightarrow> bool" where
  "ping_has_16bits_data msg = fire_has_16bits_data (pr_fireMessage msg)"

definition fire_get_range :: "OculusSimpleFireMessage \<Rightarrow> double" where
  "fire_get_range msg = fm_range msg"

definition ping_get_range :: "OculusSimplePingResult \<Rightarrow> double" where
  "ping_get_range msg = fire_get_range (pr_fireMessage msg)"

definition fire2_has_gains :: "OculusSimpleFireMessage2 \<Rightarrow> bool" where
  "fire2_has_gains msg \<longleftrightarrow> and (fm2_flags msg) 0x4 \<noteq> 0"

definition ping2_has_gains :: "OculusSimplePingResult2 \<Rightarrow> bool" where
  "ping2_has_gains msg = fire2_has_gains (pr2_fireMessage msg)"

definition fire2_has_16bits_data :: "OculusSimpleFireMessage2 \<Rightarrow> bool" where
  "fire2_has_16bits_data msg \<longleftrightarrow> and (fm2_flags msg) 0x2 \<noteq> 0"

definition ping2_has_16bits_data :: "OculusSimplePingResult2 \<Rightarrow> bool" where
  "ping2_has_16bits_data msg = fire2_has_16bits_data (pr2_fireMessage msg)"

definition fire2_get_range :: "OculusSimpleFireMessage2 \<Rightarrow> double" where
  "fire2_get_range msg = fm2_rangePercent msg"

definition ping2_get_range :: "OculusSimplePingResult2 \<Rightarrow> double" where
  "ping2_get_range msg = fire2_get_range (pr2_fireMessage msg)"

record image_layout =
  il_16bits :: bool
  il_gains :: bool
  il_offset :: nat
  il_ranges :: nat
  il_beams :: nat
  il_bearings :: nat
  il_range :: double

definition layout1 :: "OculusSimplePingResult \<Rightarrow> image_layout" where
  "layout1 p =
     \<lparr>il_16bits = ping_has_16bits_data p, il_gains = ping_has_gains p,
      il_offset = unat (pr_imageOffset p), il_ranges = unat (pr_nRanges p),
      il_beams = unat (pr_nBeams p), il_bearings = sizeof_ping, il_range = ping_get_range p\<rparr>"

definition layout2 :: "OculusSimplePingResult2 \<Rightarrow> image_layout" where
  "layout2 p =
     \<lparr>il_16bits = ping2_has_16bits_data p, il_gains = ping2_has_gains p,
      il_offset = unat (pr2_imageOffset p), il_ranges = unat (pr2_nRanges p),
      il_beams = unat (pr2_nBeams p), il_bearings = sizeof_ping2, il_range = ping2_get_range p\<rparr>"

text \<open>The casts of the message bytes, by the version in the header.\<close>

definition layout_of :: "byte list \<Rightarrow> image_layout result" where
  "layout_of pingData =
     (case dec_header pingData of
        None \<Rightarrow> Inl Out_of_bounds
      | Some h \<Rightarrow>
          if msgId h \<noteq> message_type_code messageSimplePingResult
          then Inl (Runtime_error ''Not a ping result'')
          else if msgVersion h \<noteq> 2 then
            (case dec_ping pingData of None \<Rightarrow> Inl Out_of_bounds | Some p \<Rightarrow> Inr (layout1 p))
          else
            (case dec_ping2 pingData of None \<Rightarrow> Inl Out_of_bounds | Some p \<Rightarrow> Inr (layout2 p)))"

section \<open>Loops over arrays\<close>

fun for_each :: "('i \<Rightarrow> 's \<Rightarrow> 's result) \<Rightarrow> 'i list \<Rightarrow> 's \<Rightarrow> 's result" where
  "for_each f [] s = Inr s"
| "for_each f (x # xs) s = bindR (f x s) (for_each f xs)"

definition read_uint :: "nat \<Rightarrow> nat \<Rightarrow> byte list \<Rightarrow> nat result" where
  "read_uint n i bs = (if i + n \<le> length bs then Inr (le_nat (slice i n bs)) else Inl Out_of_bounds)"

definition write_elem :: "nat \<Rightarrow> 'a \<Rightarrow> 'a list \<Rightarrow> 'a list result" where
  "write_elem i x dst = (if i < length dst then Inr (dst[i := x]) else Inl Out_of_bounds)"

definition int_product :: "nat \<Rightarrow> nat \<Rightarrow> nat result" where
  "int_product a b = (if a * b < 2 ^ 31 then Inr (a * b) else Inl Signed_overflow)"

section \<open>The acoustic data\<close>

text \<open>
  \<open>1.0f / sqrt((float)x)\<close>, stored in a \<open>float\<close>. Which \<open>sqrt\<close> the unqualified call finds depends on
  the headers of the compiler: the one of C, on doubles, or the overload on floats.
\<close>

datatype sqrt_overload = Sqrt_float | Sqrt_double

fun inverse_root :: "sqrt_overload \<Rightarrow> nat \<Rightarrow> float" where
  "inverse_root Sqrt_float x = f_div (f_of_int 1) (f_sqrt (f_of_int (int x)))"
| "inverse_root Sqrt_double x =
     f_of_double (d_div (d_of_int 1) (d_sqrt (d_of_float (f_of_int (int x)))))"

definition sample_bytes :: "image_layout \<Rightarrow> nat" where
  "sample_bytes l = (if il_16bits l then 2 else 1)"

text \<open>One range line behind its gain; \<open>pos\<close> is the pointer \<open>data\<close>.\<close>

definition gain_line ::
    "sqrt_overload \<Rightarrow> image_layout \<Rightarrow> byte list \<Rightarrow> nat \<Rightarrow> nat \<times> float list \<Rightarrow> (nat \<times> float list) result" where
  "gain_line ov l pingData h st =
     (case st of (pos, dst) \<Rightarrow>
        bindR (read_uint 4 pos pingData) (\<lambda>x.
          let gain = inverse_root ov x; pos = pos + 4
          in bindR (for_each (\<lambda>w dst.
                 bindR (read_uint (sample_bytes l) (pos + sample_bytes l * w) pingData) (\<lambda>d.
                   bindR (int_product (il_beams l) w) (\<lambda>k.
                     write_elem (k + h) (f_mul gain (f_of_int (int d))) dst)))
                 [0..<il_beams l] dst) (\<lambda>dst.
               Inr (pos + sample_bytes l * il_beams l, dst))))"

definition plain_samples :: "image_layout \<Rightarrow> byte list \<Rightarrow> float list \<Rightarrow> float list result" where
  "plain_samples l pingData dst =
     bindR (int_product (il_beams l) (il_ranges l)) (\<lambda>n.
       for_each (\<lambda>i dst.
         bindR (read_uint (sample_bytes l) (il_offset l + sample_bytes l * i) pingData) (\<lambda>d.
           write_elem i (f_of_int (int d)) dst)) [0..<n] dst)"

definition ping_data_to_array ::
    "sqrt_overload \<Rightarrow> image_layout \<Rightarrow> byte list \<Rightarrow> float list \<Rightarrow> float list result" where
  "ping_data_to_array ov l pingData dst =
     (if il_gains l
      then bindR (for_each (gain_line ov l pingData) [0..<il_ranges l] (il_offset l, dst))
             (\<lambda>st. Inr (snd st))
      else plain_samples l pingData dst)"

definition get_ping_acoustic_data :: "sqrt_overload \<Rightarrow> byte list \<Rightarrow> float list result" where
  "get_ping_acoustic_data ov pingData =
     bindR (layout_of pingData) (\<lambda>l.
       bindR (int_product (il_beams l) (il_ranges l)) (\<lambda>n.
         ping_data_to_array ov l pingData (replicate n 0)))"

section \<open>The bearings\<close>

text \<open>\<open>0.01 * M_PI / 180.0\<close>, and the bearing of hundredths of a degree.\<close>

definition M_PI :: double where
  "M_PI = 0x400921FB54442D18"

definition bearing_angle :: "nat \<Rightarrow> float" where
  "bearing_angle x =
     f_of_double (d_mul (d_div (d_mul (d_lit 1 100) M_PI) (d_of_int 180))
       (d_of_int (sint (word_of_nat x :: u16))))"

definition bearings_to_array :: "image_layout \<Rightarrow> byte list \<Rightarrow> float list \<Rightarrow> float list result" where
  "bearings_to_array l pingData dst =
     for_each (\<lambda>i dst.
       bindR (read_uint 2 (il_bearings l + 2 * i) pingData) (\<lambda>x.
         write_elem i (bearing_angle x) dst)) [0..<il_beams l] dst"

definition get_ping_bearings :: "byte list \<Rightarrow> float list result" where
  "get_ping_bearings pingData =
     bindR (layout_of pingData) (\<lambda>l. bearings_to_array l pingData (replicate (il_beams l) 0))"

section \<open>Image files\<close>

text \<open>\<open>write_pgm\<close> of bytes: the content of the file. The product is one of 32-bit unsigned integers.\<close>

definition write_pgm :: "string \<Rightarrow> bool \<Rightarrow> u32 \<Rightarrow> u32 \<Rightarrow> byte list \<Rightarrow> byte list result" where
  "write_pgm filename can_open width height pixels =
     (if \<not> can_open then Inl (Runtime_error (''Could not open file for writing : '' @ filename))
      else if length pixels < unat (width * height) then Inl Out_of_bounds
      else Inr (map of_char (''P5'' @ [CHR 0x0A] @ show_dec (unat width) @ '' '' @
                  show_dec (unat height) @ [CHR 0x0A] @ ''255'' @ [CHR 0x0A]) @
                take (unat (width * height)) pixels))"

text \<open>\<open>std::min\<close> and \<open>std::max\<close> over the pixels, in the order of the loop.\<close>

definition f_lt :: "float \<Rightarrow> float \<Rightarrow> bool" where
  "f_lt x y = fp_lt (fval x) (fval y)"

definition pixel_bounds :: "float list \<Rightarrow> float \<times> float \<Rightarrow> float \<times> float" where
  "pixel_bounds ds mM =
     fold (\<lambda>d (m, M). (if f_lt d m then d else m, if f_lt M d then d else M)) ds mM"

text \<open>\<open>write_pgm\<close> of floats: the pixels are scaled to 0 to 255 and converted to bytes.\<close>

definition scale_pixels :: "float list \<Rightarrow> byte list result" where
  "scale_pixels ds =
     (let (m, M) = pixel_bounds ds (ds ! 0, ds ! 0);
          a = f_of_double (d_div (d_of_int 255) (d_of_float (f_sub M m)));
          b = f_mul (f_neg m) a
      in for_each (\<lambda>i pixels.
           bindR (f_to_unsigned 8 (f_add (f_mul a (ds ! i)) b)) (\<lambda>x.
             write_elem i (word_of_nat x) pixels)) [0..<length ds] (replicate (length ds) 0))"

definition write_pgm_floats :: "string \<Rightarrow> bool \<Rightarrow> u32 \<Rightarrow> u32 \<Rightarrow> float list \<Rightarrow> byte list result" where
  "write_pgm_floats filename can_open width height pixels =
     (if pixels = [] \<or> length pixels < unat (width * height) then Inl Out_of_bounds
      else bindR (scale_pixels (take (unat (width * height)) pixels))
             (write_pgm filename can_open width height))"

section \<open>Facts about the loops\<close>

lemma for_each_append: "for_each f (xs @ ys) s = bindR (for_each f xs s) (for_each f ys)"
proof (induction xs arbitrary: s)
  case (Cons x xs)
  then show ?case by (cases "f x s") simp_all
qed simp

lemma for_each_upt:
  assumes "\<And>i s. i < n \<Longrightarrow> P i s \<Longrightarrow> \<exists>t. f i s = Inr t \<and> P (Suc i) t" and "P 0 s"
  shows "\<exists>t. for_each f [0..<n] s = Inr t \<and> P n t"
  using assms(1)
proof (induction n)
  case 0
  then show ?case using assms(2) by simp
next
  case (Suc n)
  then obtain t where "for_each f [0..<n] s = Inr t" "P n t" by auto
  moreover from this Suc.prems [of n t] obtain u where "f n t = Inr u" "P (Suc n) u" by auto
  ultimately show ?case by (simp add: for_each_append)
qed

lemma for_each_fails:
  assumes "for_each f xs s = Inr t" and "f x t = Inl e"
  shows "for_each f (xs @ x # ys) s = Inl e"
  using assms by (simp add: for_each_append)

lemma concat_rows:
  "concat (map (\<lambda>h. map (\<lambda>w. g (h * B + w)) [0..<B]) [0..<R]) = map g [0..<R * B]"
proof (induction R)
  case (Suc R)
  have "[0..<Suc R * B] = [0..<R * B] @ map (\<lambda>w. R * B + w) [0..<B]"
    using upt_add_eq_append [of 0 "R * B" B] map_add_upt [of "R * B" B]
    by (simp add: add.commute)
  with Suc show ?case by simp
qed simp

section \<open>The image in the message\<close>

text \<open>
  The range lines of an image, each behind its gain when gains are sent; the reference for the
  conversion is the matrix of the samples, a row for every range.
\<close>

definition line_bytes :: "image_layout \<Rightarrow> nat" where
  "line_bytes l = line_step (il_gains l) (il_beams l) (sample_bytes l)"

definition line_pos :: "image_layout \<Rightarrow> nat \<Rightarrow> nat" where
  "line_pos l h = il_offset l + h * line_bytes l"

definition gain_value :: "image_layout \<Rightarrow> byte list \<Rightarrow> nat \<Rightarrow> nat" where
  "gain_value l bs h = le_nat (slice (line_pos l h) 4 bs)"

definition sample_value :: "image_layout \<Rightarrow> byte list \<Rightarrow> nat \<Rightarrow> nat \<Rightarrow> nat" where
  "sample_value l bs h w =
     le_nat (slice (line_pos l h + (if il_gains l then 4 else 0) + sample_bytes l * w) (sample_bytes l) bs)"

definition image_inside :: "image_layout \<Rightarrow> byte list \<Rightarrow> bool" where
  "image_inside l bs \<longleftrightarrow> line_pos l (il_ranges l) \<le> length bs"

definition row_major :: "image_layout \<Rightarrow> byte list \<Rightarrow> float list" where
  "row_major l bs =
     concat (map (\<lambda>h. map (\<lambda>w. f_of_int (int (sample_value l bs h w))) [0..<il_beams l])
       [0..<il_ranges l])"

lemma line_inside:
  assumes "image_inside l bs" and "h < il_ranges l"
  shows "line_pos l h + line_bytes l \<le> length bs"
proof -
  have "Suc h * line_bytes l \<le> il_ranges l * line_bytes l" using assms(2) by (intro mult_le_mono1) simp
  with assms(1) show ?thesis by (simp add: image_inside_def line_pos_def)
qed

lemma read_gain:
  assumes "image_inside l bs" and "h < il_ranges l" and "il_gains l"
  shows "read_uint 4 (line_pos l h) bs = Inr (gain_value l bs h)"
  using line_inside [OF assms(1,2)] assms(3)
  by (simp add: read_uint_def gain_value_def line_bytes_def line_step_def)

lemma read_sample:
  assumes "image_inside l bs" and "h < il_ranges l" and "w < il_beams l"
    and "p = line_pos l h + (if il_gains l then 4 else 0) + sample_bytes l * w"
  shows "read_uint (sample_bytes l) p bs = Inr (sample_value l bs h w)"
proof -
  have "sample_bytes l * Suc w \<le> sample_bytes l * il_beams l" using assms(3) by (intro mult_le_mono2) simp
  then show ?thesis
    using line_inside [OF assms(1,2)]
    by (simp add: read_uint_def sample_value_def line_bytes_def line_step_def assms(4) mult.commute)
qed

section \<open>Without gains\<close>

lemma row_major_flat:
  assumes "\<not> il_gains l"
  shows "row_major l bs = map (\<lambda>i. f_of_int (int (le_nat
     (slice (il_offset l + sample_bytes l * i) (sample_bytes l) bs)))) [0..<il_beams l * il_ranges l]"
proof -
  let ?B = "il_beams l" and ?s = "sample_bytes l"
  let ?g = "\<lambda>i. f_of_int (int (le_nat (slice (il_offset l + ?s * i) ?s bs)))"
  have "f_of_int (int (sample_value l bs h w)) = ?g (h * ?B + w)" for h w
    using assms by (simp add: sample_value_def line_pos_def line_bytes_def line_step_def algebra_simps)
  then show ?thesis
    using concat_rows [of ?g ?B "il_ranges l"] by (simp add: row_major_def mult.commute)
qed

lemma plain_samples_row_major:
  assumes "image_inside l bs" and "\<not> il_gains l" and "il_beams l * il_ranges l < 2 ^ 31"
  shows "plain_samples l bs (replicate (il_beams l * il_ranges l) 0) = Inr (row_major l bs)"
proof -
  let ?B = "il_beams l" and ?s = "sample_bytes l"
  let ?n = "?B * il_ranges l"
  let ?g = "\<lambda>i. f_of_int (int (le_nat (slice (il_offset l + ?s * i) ?s bs)))"
  let ?f = "\<lambda>i dst. bindR (read_uint ?s (il_offset l + ?s * i) bs) (\<lambda>d.
      write_elem i (f_of_int (int d)) dst)"
  let ?P = "\<lambda>i dst. dst = map ?g [0..<i] @ replicate (?n - i) 0"
  have "\<exists>t. for_each ?f [0..<?n] (replicate ?n 0) = Inr t \<and> ?P ?n t"
  proof (rule for_each_upt [where P = ?P and f = ?f])
    fix i and dst :: "float list"
    assume i: "i < ?n" and dst: "?P i dst"
    have "?s * Suc i \<le> ?s * ?n" using i by (intro mult_le_mono2) simp
    then have "il_offset l + ?s * i + ?s \<le> length bs"
      using assms(1,2) by (simp add: image_inside_def line_pos_def line_bytes_def line_step_def
          mult.commute mult.left_commute)
    moreover have "replicate (?n - i) (0 :: float) = 0 # replicate (?n - Suc i) 0"
      using i by (metis Suc_diff_Suc replicate_Suc)
    ultimately show "\<exists>t. ?f i dst = Inr t \<and> ?P (Suc i) t"
      using i by (simp add: dst read_uint_def write_elem_def list_update_append)
  qed simp
  then have loop: "for_each ?f [0..<?n] (replicate ?n 0) = Inr (map ?g [0..<?n])" by auto
  with assms(2,3) show ?thesis by (simp add: plain_samples_def int_product_def row_major_flat)
qed

section \<open>With gains\<close>

text \<open>
  A sample of range \<open>h\<close> and beam \<open>w\<close> is written at \<open>B * w + h\<close>. With at most as many beams as
  ranges this is inside the array, and the samples of the last \<open>B\<close> ranges stay where they are
  written; with more beams the first line already leaves the array.
\<close>

lemma index_inside:
  fixes B R w h :: nat
  assumes "B \<le> R" and "w < B" and "h < R"
  shows "B * w + h < B * R"
proof -
  obtain b k where B: "B = Suc b" and R: "R = Suc b + k"
    using assms(1,2) by (metis le_Suc_ex less_imp_Suc_add add_Suc)
  have "B * w \<le> B * b" using assms(2) B by (intro mult_le_mono2) simp
  moreover have "B * b + R \<le> B * R" by (simp add: B R algebra_simps)
  ultimately show ?thesis using assms(3) by linarith
qed

lemma index_clash:
  fixes B R :: nat
  assumes "B * w1 + h1 = B * w + h" and "h1 < h" and "h < R" and "R \<le> h1 + B"
  shows False
proof -
  have "w < w1" using assms(1,2) by (metis add_less_mono1 add.commute linorder_neqE_nat
        mult_le_mono2 nat_less_le not_less add_le_mono)
  then have "B * Suc w \<le> B * w1" by (intro mult_le_mono2) simp
  then show False using assms by simp
qed

definition scaled_value :: "sqrt_overload \<Rightarrow> image_layout \<Rightarrow> byte list \<Rightarrow> nat \<Rightarrow> nat \<Rightarrow> float" where
  "scaled_value ov l bs h w =
     f_mul (inverse_root ov (gain_value l bs h)) (f_of_int (int (sample_value l bs h w)))"

text \<open>The samples that stay, up to beam \<open>w\<close> of line \<open>h\<close>.\<close>

definition stays :: "sqrt_overload \<Rightarrow> image_layout \<Rightarrow> byte list \<Rightarrow> nat \<Rightarrow> nat \<Rightarrow> float list \<Rightarrow> bool" where
  "stays ov l bs h w dst \<longleftrightarrow>
     length dst = il_beams l * il_ranges l
     \<and> (\<forall>h1 w1. w1 < il_beams l \<longrightarrow> il_ranges l \<le> h1 + il_beams l \<longrightarrow> h1 < h \<or> h1 = h \<and> w1 < w
          \<longrightarrow> dst ! (il_beams l * w1 + h1) = scaled_value ov l bs h1 w1)"

definition write_sample ::
    "sqrt_overload \<Rightarrow> image_layout \<Rightarrow> byte list \<Rightarrow> nat \<Rightarrow> nat \<Rightarrow> float list \<Rightarrow> float list result" where
  "write_sample ov l bs h w dst =
     bindR (read_uint (sample_bytes l) (line_pos l h + 4 + sample_bytes l * w) bs) (\<lambda>d.
       bindR (int_product (il_beams l) w) (\<lambda>k.
         write_elem (k + h) (f_mul (inverse_root ov (gain_value l bs h)) (f_of_int (int d))) dst))"

lemma write_sample_stays:
  assumes inside: "image_inside l bs" and gains: "il_gains l"
    and small: "il_beams l * il_ranges l < 2 ^ 31" and le: "il_beams l \<le> il_ranges l"
    and h: "h < il_ranges l" and w: "w < il_beams l" and st: "stays ov l bs h w dst"
  shows "\<exists>t. write_sample ov l bs h w dst = Inr t \<and> stays ov l bs h (Suc w) t"
proof -
  let ?B = "il_beams l" and ?R = "il_ranges l"
  let ?t = "dst[?B * w + h := scaled_value ov l bs h w]"
  have index: "?B * w + h < ?B * ?R" by (rule index_inside [OF le w h])
  then have "?B * w < 2 ^ 31" using small by linarith
  then have "write_sample ov l bs h w dst = Inr ?t"
    using read_sample [OF inside h w refl] gains index st
    by (simp add: write_sample_def int_product_def write_elem_def stays_def scaled_value_def)
  moreover have "stays ov l bs h (Suc w) ?t"
    unfolding stays_def
  proof (intro conjI allI impI)
    show "length ?t = ?B * ?R" using st by (simp add: stays_def)
    fix h1 w1
    assume a: "w1 < ?B" "?R \<le> h1 + ?B" "h1 < h \<or> h1 = h \<and> w1 < Suc w"
    show "?t ! (?B * w1 + h1) = scaled_value ov l bs h1 w1"
    proof (cases "h1 = h \<and> w1 = w")
      case True
      then show ?thesis using index st by (simp add: stays_def)
    next
      case False
      then have "?B * w1 + h1 \<noteq> ?B * w + h"
        using index_clash [of ?B w1 h1 w h ?R] a h by auto
      then show ?thesis using st a False by (auto simp: stays_def)
    qed
  qed
  ultimately show ?thesis by blast
qed

lemma gain_line_eq:
  assumes "image_inside l bs" and "il_gains l" and "h < il_ranges l"
  shows "gain_line ov l bs h (line_pos l h, dst) =
     bindR (for_each (write_sample ov l bs h) [0..<il_beams l] dst) (\<lambda>dst. Inr (line_pos l (Suc h), dst))"
proof -
  have next_pos: "line_pos l h + 4 + sample_bytes l * il_beams l = line_pos l (Suc h)"
    using assms(2) by (simp add: line_pos_def line_bytes_def line_step_def mult.commute)
  have loop: "(\<lambda>w dst. bindR (read_uint (sample_bytes l) (line_pos l h + 4 + sample_bytes l * w) bs) (\<lambda>d.
      bindR (int_product (il_beams l) w) (\<lambda>k.
        write_elem (k + h) (f_mul (inverse_root ov (gain_value l bs h)) (f_of_int (int d))) dst)))
      = write_sample ov l bs h"
    by (simp add: fun_eq_iff write_sample_def)
  show ?thesis
    unfolding gain_line_def prod.case read_gain [OF assms(1,3,2)] bindR.simps Let_def loop next_pos
    by (rule refl)
qed

lemma gain_line_stays:
  assumes "image_inside l bs" and "il_gains l" and "il_beams l * il_ranges l < 2 ^ 31"
    and "il_beams l \<le> il_ranges l" and "h < il_ranges l" and "stays ov l bs h 0 dst"
  shows "\<exists>t. gain_line ov l bs h (line_pos l h, dst) = Inr (line_pos l (Suc h), t)
     \<and> stays ov l bs (Suc h) 0 t"
proof -
  have "\<exists>t. for_each (write_sample ov l bs h) [0..<il_beams l] dst = Inr t
      \<and> stays ov l bs h (il_beams l) t"
    by (rule for_each_upt [where P = "stays ov l bs h"])
      (use write_sample_stays [OF assms(1-5)] assms(6) in blast)+
  then obtain t where t: "for_each (write_sample ov l bs h) [0..<il_beams l] dst = Inr t"
    and s: "stays ov l bs h (il_beams l) t" by blast
  have "stays ov l bs (Suc h) 0 t"
    using s unfolding stays_def by (metis less_Suc_eq not_less0)
  with t show ?thesis by (simp add: gain_line_eq [OF assms(1,2,5)])
qed

lemma gains_stay:
  assumes "image_inside l bs" and "il_gains l" and "il_beams l * il_ranges l < 2 ^ 31"
    and "il_beams l \<le> il_ranges l"
  shows "\<exists>a. ping_data_to_array ov l bs (replicate (il_beams l * il_ranges l) 0) = Inr a
     \<and> stays ov l bs (il_ranges l) 0 a"
proof -
  let ?P = "\<lambda>h st. fst st = line_pos l h \<and> stays ov l bs h 0 (snd st)"
  have "\<exists>t. for_each (gain_line ov l bs) [0..<il_ranges l]
      (il_offset l, replicate (il_beams l * il_ranges l) 0) = Inr t \<and> ?P (il_ranges l) t"
  proof (rule for_each_upt [where P = ?P])
    fix h st
    assume "h < il_ranges l" and "?P h st"
    then show "\<exists>t. gain_line ov l bs h st = Inr t \<and> ?P (Suc h) t"
      using gain_line_stays [OF assms, of h ov "snd st"] by (cases st) auto
  qed (simp add: line_pos_def stays_def)
  with assms(2) show ?thesis by (auto simp: ping_data_to_array_def)
qed

lemma gains_overflow:
  assumes "image_inside l bs" and "il_gains l" and "il_beams l * il_ranges l < 2 ^ 31"
    and "il_ranges l < il_beams l" and "0 < il_ranges l"
  shows "ping_data_to_array ov l bs (replicate (il_beams l * il_ranges l) 0) = Inl Out_of_bounds"
proof -
  let ?B = "il_beams l" and ?R = "il_ranges l"
  let ?f = "write_sample ov l bs 0" and ?N = "il_beams l * il_ranges l"
  have step: "?f w dst = (if ?B * w < length dst then Inr (dst[?B * w := scaled_value ov l bs 0 w])
      else Inl Out_of_bounds)" if "w < ?B" "?B * w < 2 ^ 31" for w dst
    using read_sample [OF assms(1,5) that(1) refl] assms(2) that(2)
    by (simp add: write_sample_def int_product_def write_elem_def scaled_value_def)
  have "\<exists>t. for_each ?f [0..<?R] (replicate ?N 0) = Inr t \<and> length t = ?N"
  proof (rule for_each_upt [where P = "\<lambda>w dst. length dst = ?N"])
    fix w and dst :: "float list"
    assume a: "w < ?R" "length dst = ?N"
    then have small: "?B * w < ?N" using assms(4) by (intro mult_less_mono2) auto
    then have "?B * w < 2 ^ 31" using assms(3) by linarith
    with a small show "\<exists>t. ?f w dst = Inr t \<and> length t = ?N"
      using step [of w dst] assms(3,4) by simp
  qed simp
  then obtain t where t: "for_each ?f [0..<?R] (replicate ?N 0) = Inr t" "length t = ?N" by blast
  have "?f ?R t = Inl Out_of_bounds" using step [of ?R t] t(2) assms(3,4) by simp
  then have "for_each ?f ([0..<?R] @ ?R # [Suc ?R..<?B]) (replicate ?N 0) = Inl Out_of_bounds"
    by (rule for_each_fails [OF t(1)])
  moreover have "[0..<?B] = [0..<?R] @ ?R # [Suc ?R..<?B]"
    using assms(4) upt_add_eq_append [of 0 ?R "?B - ?R"] by (simp add: upt_conv_Cons)
  ultimately have "gain_line ov l bs 0 (line_pos l 0, replicate ?N 0) = Inl Out_of_bounds"
    by (simp add: gain_line_eq [OF assms(1,2,5)])
  moreover have "[0..<?R] = 0 # [1..<?R]" using assms(5) by (simp add: upt_conv_Cons)
  ultimately show ?thesis using assms(2) by (simp add: ping_data_to_array_def line_pos_def)
qed

section \<open>Images of one value\<close>

text \<open>Values that no integer conversion is defined on; they survive what follows.\<close>

fun no_number :: "fpv \<Rightarrow> bool" where
  "no_number (FFin s m e) = False"
| "no_number _ = True"

lemma fval_pack:
  assumes "ex < 2 ^ 8" and "frac < 2 ^ 23"
  shows "fval (word_of_nat (fp_pack 24 8 s ex frac)) =
     (if ex = 255 then (if frac = 0 then FInf s else FNan)
      else if ex = 0 then FFin s frac (fp_emin 24 8)
      else FFin s (frac + 2 ^ 23) (fp_emin 24 8 + int ex - 1))"
proof -
  have "fp_pack 24 8 s ex frac < 2 ^ 32" using fp_pack_less [of 24 ex 8 frac s] assms by simp
  then have u: "unat (word_of_nat (fp_pack 24 8 s ex frac) :: float) = fp_pack 24 8 s ex frac"
    by (simp add: unat_of_nat)
  show ?thesis
    unfolding fval_def u using fp_decode_pack [of 24 ex 8 frac s] assms by simp
qed

lemma fval_special [simp]:
  "fval (word_of_nat (fp_nan 24 8)) = FNan" "fval (word_of_nat (fp_inf 24 8 s)) = FInf s"
  "fval (word_of_nat (fp_round 24 8 s 0 e st)) = FFin s 0 (fp_emin 24 8)"
  by (simp_all add: fp_nan_def fp_inf_def fp_round_def fval_pack)

lemma no_number_mul: "no_number (fval y) \<Longrightarrow> no_number (fval (f_mul x y))"
  by (cases "fval x"; cases "fval y") (auto simp: f_mul_def)

lemma no_number_mul_left: "no_number (fval x) \<Longrightarrow> no_number (fval (f_mul x y))"
  by (cases "fval x"; cases "fval y") (auto simp: f_mul_def)

lemma no_number_add: "no_number (fval x) \<Longrightarrow> no_number (fval (f_add x y))"
  by (cases "fval x"; cases "fval y") (auto simp: f_add_def)

lemma no_number_trunc: "no_number (fval x) \<Longrightarrow> f_to_unsigned n x = Inl Bad_conversion"
  by (cases "fval x") (auto simp: f_to_unsigned_def)

lemma f_sub_self:
  "fval (f_sub c c) = FNan \<or> fval (f_sub c c) = FFin False 0 (fp_emin 24 8)"
  by (cases "fval c") (simp_all add: f_sub_def aligned_sum_self Let_def)

lemma scale_of_zero:
  assumes "fval z = FNan \<or> fval z = FFin False 0 e"
  shows "no_number (fval (f_of_double (d_div (d_of_int 255) (d_of_float z))))"
proof -
  have d: "dval (d_of_float z) = FNan \<or> dval (d_of_float z) = FFin False 0 (fp_emin 53 11)"
    using assms by (auto simp: d_of_float_def)
  have "dval (d_of_int 255) = FFin False 8972014882652160 (- 45)" by (simp add: fp_eval)
  with d have "no_number (dval (d_div (d_of_int 255) (d_of_float z)))"
    by (auto simp: d_div_def)
  then show ?thesis
    by (cases "dval (d_div (d_of_int 255) (d_of_float z))") (auto simp: f_of_double_def)
qed

lemma pixel_bounds_constant: "\<forall>d \<in> set ds. d = c \<Longrightarrow> pixel_bounds ds (c, c) = (c, c)"
  by (induction ds) (simp_all add: pixel_bounds_def f_lt_def)

lemma scale_constant:
  assumes "\<forall>d \<in> set ds. d = c" and "ds \<noteq> []"
  shows "scale_pixels ds = Inl Bad_conversion"
proof -
  have first: "ds ! 0 = c" using assms by (metis hd_conv_nth hd_in_set)
  let ?a = "f_of_double (d_div (d_of_int 255) (d_of_float (f_sub c c)))"
  let ?b = "f_mul (f_neg c) ?a"
  have "no_number (fval ?a)" using scale_of_zero f_sub_self by blast
  then have bad: "f_to_unsigned 8 (f_add (f_mul ?a c) ?b) = Inl Bad_conversion"
    by (intro no_number_trunc no_number_add no_number_mul_left)
  have "[0..<length ds] = 0 # [1..<length ds]" using assms(2) by (simp add: upt_conv_Cons)
  then show ?thesis
    by (simp add: scale_pixels_def first pixel_bounds_constant [OF assms(1)] bad Let_def del: upt_Suc)
qed

section \<open>Samples\<close>

text \<open>A version 1 ping of given flags and sizes, in front of its image.\<close>

definition sample_metadata :: "u8 \<Rightarrow> u16 \<Rightarrow> u16 \<Rightarrow> OculusSimplePingResult" where
  "sample_metadata flags ranges beams =
     sample_ping\<lparr>pr_fireMessage := sample_fire\<lparr>fm_flags := flags\<rparr>, pr_nRanges := ranges, pr_nBeams := beams\<rparr>"

definition sample_bytes_of :: "u8 \<Rightarrow> u16 \<Rightarrow> u16 \<Rightarrow> byte list \<Rightarrow> byte list" where
  "sample_bytes_of flags ranges beams bs = enc_ping (sample_metadata flags ranges beams) @ bs"

lemma sample_layout:
  "layout_of (sample_bytes_of flags ranges beams bs) = Inr
     \<lparr>il_16bits = and flags 2 \<noteq> 0, il_gains = and flags 4 \<noteq> 0, il_offset = 122,
      il_ranges = unat ranges, il_beams = unat beams, il_bearings = 122, il_range = d_lit 254 100\<rparr>"
proof -
  let ?p = "sample_metadata flags ranges beams"
  have "dec_ping (sample_bytes_of flags ranges beams bs) = Some ?p"
    by (simp add: sample_bytes_of_def ping_codec.dec_enc)
  moreover from ping_fire.inner_of_outer [OF this] have
    "dec_header (sample_bytes_of flags ranges beams bs) = Some (fm_head (pr_fireMessage ?p))"
    by (rule fire_header.inner_of_outer)
  ultimately show ?thesis
    by (simp add: layout_of_def layout1_def sample_metadata_def sample_ping_def sample_fire_def
        default_ping_config_def ping_has_16bits_data_def fire_has_16bits_data_def ping_has_gains_def
        fire_has_gains_def ping_get_range_def fire_get_range_def zero_header_def sizeof_ping_def)
qed

lemma sample_slice: "slice (122 + i) n (sample_bytes_of flags ranges beams bs) = slice i n bs"
  by (simp add: sample_bytes_of_def slice_skip)

lemma sample_length: "length (sample_bytes_of flags ranges beams bs) = 122 + length bs"
  by (simp add: sample_bytes_of_def)

section \<open>Properties\<close>

text \<open>
  C21: without gains, the acoustic data of a ping are its samples in row-major order, a row for
  every range, for both versions and both sample sizes, whatever the square root.
\<close>

theorem acoustic_data_is_row_major:
  assumes "layout_of pingData = Inr l" and "\<not> il_gains l" and "image_inside l pingData"
    and "il_beams l * il_ranges l < 2 ^ 31"
  shows "get_ping_acoustic_data ov pingData = Inr (row_major l pingData)"
  using assms plain_samples_row_major [OF assms(3,2,4)]
  by (simp add: get_ping_acoustic_data_def ping_data_to_array_def int_product_def)

lemma acoustic_data_is_row_major_witness:
  "get_ping_acoustic_data Sqrt_float (sample_bytes_of 0 2 3 [1, 2, 3, 4, 5, 6]) =
     Inr (map (\<lambda>i. f_of_int (int i)) [1, 2, 3, 4, 5, 6])"
proof -
  let ?bs = "sample_bytes_of 0 2 3 [1, 2, 3, 4, 5, 6]"
  let ?l = "\<lparr>il_16bits = False, il_gains = False, il_offset = 122, il_ranges = 2, il_beams = 3,
      il_bearings = 122, il_range = d_lit 254 100\<rparr>"
  have l: "layout_of ?bs = Inr ?l" by (simp add: sample_layout)
  have "image_inside ?l ?bs"
    by (simp add: image_inside_def line_pos_def line_bytes_def line_step_def sample_bytes_def sample_length)
  moreover have "sample_value ?l ?bs h w = le_nat (slice (3 * h + w) 1 [1, 2, 3, 4, 5, 6])" for h w
    using sample_slice [of "3 * h + w" 1]
    by (simp add: sample_value_def line_pos_def line_bytes_def line_step_def sample_bytes_def
        algebra_simps)
  ultimately show ?thesis
    using acoustic_data_is_row_major [OF l, of Sqrt_float]
    by (simp add: row_major_def upt_rec slice_def)
qed

text \<open>
  C22: with gains, the conversion writes out of its array exactly when there are more beams than
  ranges. Otherwise it returns an array in which the samples of the last lines, as many as
  there are beams, are found with rows and columns exchanged: range \<open>h\<close> and beam \<open>w\<close> at
  \<open>B * w + h\<close>, not at \<open>B * h + w\<close> as the comment says.
\<close>

theorem gains_leave_the_array_iff:
  assumes "layout_of pingData = Inr l" and "il_gains l" and "image_inside l pingData"
    and "il_beams l * il_ranges l < 2 ^ 31" and "0 < il_ranges l"
  shows "if il_ranges l < il_beams l
     then get_ping_acoustic_data ov pingData = Inl Out_of_bounds
     else \<exists>a. get_ping_acoustic_data ov pingData = Inr a
       \<and> length a = il_beams l * il_ranges l
       \<and> (\<forall>h w. h < il_ranges l \<longrightarrow> w < il_beams l \<longrightarrow> il_ranges l \<le> h + il_beams l
            \<longrightarrow> a ! (il_beams l * w + h) =
                f_mul (inverse_root ov (gain_value l pingData h)) (f_of_int (int (sample_value l pingData h w))))"
proof (cases "il_ranges l < il_beams l")
  case True
  then show ?thesis
    using gains_overflow [OF assms(3,2,4) True assms(5)] assms(1,4)
    by (simp add: get_ping_acoustic_data_def int_product_def)
next
  case False
  then obtain a where "ping_data_to_array ov l pingData (replicate (il_beams l * il_ranges l) 0) = Inr a"
    and "stays ov l pingData (il_ranges l) 0 a"
    using gains_stay [OF assms(3,2,4)] by force
  then show ?thesis
    using False assms(1,4)
    by (simp add: get_ping_acoustic_data_def int_product_def stays_def scaled_value_def)
qed

lemma gains_leave_the_array_iff_witness:
  "get_ping_acoustic_data Sqrt_float (sample_bytes_of 4 1 2 [1, 0, 0, 0, 7, 8]) = Inl Out_of_bounds
   \<and> (\<exists>a. get_ping_acoustic_data Sqrt_float (sample_bytes_of 4 2 2 [1, 0, 0, 0, 7, 8, 1, 0, 0, 0, 9, 10]) = Inr a
     \<and> a ! 1 = f_mul (inverse_root Sqrt_float 1) (f_of_int 9))"
proof
  let ?l = "\<lambda>r. \<lparr>il_16bits = False, il_gains = True, il_offset = 122, il_ranges = r, il_beams = 2,
      il_bearings = 122, il_range = d_lit 254 100\<rparr>"
  let ?bs = "sample_bytes_of 4 1 2 [1, 0, 0, 0, 7, 8]"
  have "layout_of ?bs = Inr (?l 1)" by (simp add: sample_layout)
  from gains_leave_the_array_iff [OF this, of Sqrt_float] show
    "get_ping_acoustic_data Sqrt_float ?bs = Inl Out_of_bounds"
    by (simp add: image_inside_def line_pos_def line_bytes_def line_step_def sample_bytes_def sample_length)
  let ?cs = "sample_bytes_of 4 2 2 [1, 0, 0, 0, 7, 8, 1, 0, 0, 0, 9, 10]"
  have l: "layout_of ?cs = Inr (?l 2)" by (simp add: sample_layout)
  have inside: "image_inside (?l 2) ?cs"
    by (simp add: image_inside_def line_pos_def line_bytes_def line_step_def sample_bytes_def sample_length)
  have "slice (122 + 6) 4 ?cs = [1, 0, 0, 0]" "slice (122 + 10) 1 ?cs = [9]"
    unfolding sample_slice by (simp_all add: slice_def)
  then have vs: "gain_value (?l 2) ?cs 1 = 1" "sample_value (?l 2) ?cs 1 0 = 9"
    by (simp_all add: gain_value_def sample_value_def line_pos_def line_bytes_def line_step_def sample_bytes_def)
  obtain a where a: "get_ping_acoustic_data Sqrt_float ?cs = Inr a"
    and elem: "\<forall>h w. h < 2 \<longrightarrow> w < 2 \<longrightarrow> a ! (2 * w + h) =
      f_mul (inverse_root Sqrt_float (gain_value (?l 2) ?cs h)) (f_of_int (int (sample_value (?l 2) ?cs h w)))"
    using gains_leave_the_array_iff [OF l _ inside, of Sqrt_float] by auto
  have "a ! 1 = f_mul (inverse_root Sqrt_float (gain_value (?l 2) ?cs 1))
      (f_of_int (int (sample_value (?l 2) ?cs 1 0)))"
    using elem [rule_format, of 1 0] by simp
  with a vs show "\<exists>a. get_ping_acoustic_data Sqrt_float ?cs = Inr a
     \<and> a ! 1 = f_mul (inverse_root Sqrt_float 1) (f_of_int 9)" by simp
qed

text \<open>
  An image whose pixels are all equal cannot be written by the \<open>write_pgm\<close> of floats: the
  scale is a division by zero, and the conversion of the pixels to bytes is undefined, for
  every value and every size.
\<close>

theorem flat_image_is_undefined:
  assumes "\<forall>d \<in> set pixels. d = c" and "0 < unat (width * height)"
    and "unat (width * height) \<le> length pixels"
  shows "write_pgm_floats filename can_open width height pixels = Inl Bad_conversion"
proof -
  have "\<forall>d \<in> set (take (unat (width * height)) pixels). d = c" using assms(1) by (meson in_set_takeD)
  moreover have "take (unat (width * height)) pixels \<noteq> []" using assms(2,3) by auto
  ultimately show ?thesis
    using scale_constant assms(2,3) by (auto simp: write_pgm_floats_def)
qed

lemma flat_image_is_undefined_witness:
  "write_pgm_floats ''flat.pgm'' True 2 2 [0, 0, 0, 0] = Inl Bad_conversion"
  by (rule flat_image_is_undefined [where c = 0]) simp_all

end
