(* ===== verification/Ping_Views.thy ===== *)
theory Ping_Views
  imports Ping_Helpers
begin

text \<open>
  The views of the Python package on the bytes of a ping (\<open>python/src/message_utils.h\<close>,
  \<open>python/src/oculus_message.cpp\<close>): arrays that share the message's memory, given by an offset, an
  item size, a shape and strides in bytes. The lemmas show where their elements are and how
  they fit together, and that the array of \<open>helpers.h\<close> holds the same samples.
\<close>

section \<open>Views\<close>

record memoryview =
  mv_offset :: nat
  mv_item :: nat
  mv_shape :: "nat list"
  mv_strides :: "nat list"

text \<open>Vectors, and matrices whose rows follow each other without a gap.\<close>

definition vector_view :: "nat \<Rightarrow> nat \<Rightarrow> nat \<Rightarrow> memoryview" where
  "vector_view offset item n =
     \<lparr>mv_offset = offset, mv_item = item, mv_shape = [n], mv_strides = [item]\<rparr>"


definition message_view :: "Message \<Rightarrow> memoryview" where
  "message_view msg = vector_view 0 1 (length (data msg))"

text \<open>The position of an element in the message, and its value.\<close>

definition view_pos :: "memoryview \<Rightarrow> nat list \<Rightarrow> nat" where
  "view_pos v idx = mv_offset v + sum_list (map2 (*) idx (mv_strides v))"

definition view_value :: "memoryview \<Rightarrow> nat list \<Rightarrow> byte list \<Rightarrow> nat" where
  "view_value v idx bs = le_nat (slice (view_pos v idx) (mv_item v) bs)"

section \<open>The views of a ping\<close>

text \<open>Calls in sequence that may not return, or fail.\<close>

fun bindM :: "'a result option \<Rightarrow> ('a \<Rightarrow> 'b result option) \<Rightarrow> 'b result option" where
  "bindM None f = None"
| "bindM (Some (Inl e)) f = Some (Inl e)"
| "bindM (Some (Inr x)) f = f x"



definition make_ping_data_view :: "PingWrapper \<Rightarrow> memoryview option result option" where
  "make_ping_data_view msg =
     bindM (sample_size msg) (\<lambda>s.
       bindM (Some (bearing_count msg)) (\<lambda>beams.
         bindM (has_gains msg) (\<lambda>g.
           let line = unat s * unat beams + (if g then 4 else 0)
           in if s = 1 \<or> s = 2 \<or> s = 4 then
                bindM (Some (ping_data_offset msg)) (\<lambda>offset.
                  bindM (Some (range_count msg)) (\<lambda>ranges.
                    Some (Inr (Some
                      \<lparr>mv_offset = unat offset + (if g then 4 else 0), mv_item = unat s,
                       mv_shape = [unat ranges, unat beams], mv_strides = [line, unat s]\<rparr>))))
              else Some (Inr None))))"

text \<open>\<open>bearing_data\<close> of the Python class.\<close>

definition make_bearing_view :: "PingWrapper \<Rightarrow> memoryview result" where
  "make_bearing_view msg =
     bindR (bearing_count msg) (\<lambda>beams. Inr (vector_view (bearing_data_offset msg) 2 (unat beams)))"

text \<open>
  \<open>timestamp_micros\<close> of both classes, and \<open>ping_message_from_bytes\<close>, which does not pass its stamp
  on: the message gets the default one.
\<close>

definition timestamp_micros :: "Message \<Rightarrow> int" where
  "timestamp_micros msg = (let t = sint (timestamp msg) in sgn t * (\<bar>t\<bar> div 1000))"

definition ping_message_from_bytes :: "byte list \<Rightarrow> u64 \<Rightarrow> PingWrapper option option result" where
  "ping_message_from_bytes bytes stamp = PingMessage_Create (word_of_nat (length bytes)) bytes 0"

section \<open>Where the elements are\<close>

lemma view_pos_simps [simp]:
  "view_pos \<lparr>mv_offset = off, mv_item = i, mv_shape = sh, mv_strides = [a]\<rparr> [r] = off + r * a"
  "view_pos \<lparr>mv_offset = off, mv_item = i, mv_shape = sh, mv_strides = [a, b]\<rparr> [r, c] = off + r * a + c * b"
  by (simp_all add: view_pos_def)

text \<open>The image of a ping, as its accessors describe it.\<close>

definition ping_image :: "PingWrapper \<Rightarrow> u16 \<Rightarrow> u16 \<Rightarrow> u8 \<Rightarrow> bool \<Rightarrow> u32 \<Rightarrow> bool" where
  "ping_image w ranges beams s g off \<longleftrightarrow>
     range_count w = Inr ranges \<and> bearing_count w = Inr beams \<and> sample_size w = Some (Inr s)
     \<and> has_gains w = Some (Inr g) \<and> ping_data_offset w = Inr off
     \<and> (s = 1 \<or> s = 2 \<or> s = 4) \<and> unat beams + 4 < 2 ^ 16
     \<and> unat off + unat ranges * line_step g (unat beams) (unat s) \<le> length (ping_bytes w)"



lemma data_view:
  assumes "ping_image w ranges beams s g off"
  shows "make_ping_data_view w = Some (Inr (Some
     \<lparr>mv_offset = unat off + (if g then 4 else 0), mv_item = unat s,
      mv_shape = [unat ranges, unat beams], mv_strides = [line_step g (unat beams) (unat s), unat s]\<rparr>))"
  using assms by (auto simp: make_ping_data_view_def ping_image_def Let_def line_step_def mult.commute)


section \<open>Samples\<close>

text \<open>A version 1 message with an image of 28 bytes of 8-bit data.\<close>

definition sample_view_ping :: "u8 \<Rightarrow> u16 \<Rightarrow> u16 \<Rightarrow> OculusSimplePingResult" where
  "sample_view_ping flags ranges beams = (sample_metadata flags ranges beams)\<lparr>pr_dataSize := 0\<rparr>"

definition sample_view_message :: "u8 \<Rightarrow> u16 \<Rightarrow> u16 \<Rightarrow> Message" where
  "sample_view_message flags ranges beams =
     \<lparr>timestamp = 0, header = fm_head sample_fire,
      data = enc_ping (sample_view_ping flags ranges beams) @ replicate 28 1\<rparr>"

lemma sample_view_metadata:
  "metadata1 (sample_view_message flags ranges beams) = Inr (sample_view_ping flags ranges beams)"
  by (simp add: metadata1_def sample_view_message_def ping_codec.dec_enc)

lemma sample_view_image:
  assumes "unat ranges * line_step (and flags 4 \<noteq> 0) (unat beams) 1 = 28" and "unat beams + 4 < 2 ^ 16"
  shows "ping_image (PingWrapper1 (sample_view_message flags ranges beams)) ranges beams 1 (and flags 4 \<noteq> 0) 122"
  using assms
  by (simp add: ping_image_def accessor_defs sample_view_metadata ping_bytes_def)
    (simp add: sample_view_ping_def sample_metadata_def sample_ping_def has_gains1_def sample_size1_def
      data_size_of_def sample_view_message_def)

lemma sample_view_wf: "message_wf (sample_view_message flags ranges beams)"
proof -
  let ?m = "sample_view_message flags ranges beams"
  have "dec_ping (data ?m) = Some (sample_view_ping flags ranges beams)"
    by (simp add: sample_view_message_def ping_codec.dec_enc)
  from fire_header.inner_of_outer [OF ping_fire.inner_of_outer [OF this]]
  have "dec_header (data ?m) = Some (fm_head sample_fire)"
    by (simp add: sample_view_ping_def sample_metadata_def)
  then show ?thesis
    by (simp add: message_wf_def sample_view_message_def sample_fire_def default_ping_config_def sizeof_header_def)
qed

section \<open>Properties\<close>



text \<open>
  On a version 1 ping without gains whose size code agrees with the flag for 16-bit data, the
  array made by the C++ helper and the view given to Python hold the same samples.
\<close>

theorem helper_agrees_with_view:
  assumes "metadata1 m = Inr p" and "is_ping_message m" and "message_version m \<noteq> 2" and "message_wf m"
    and "ping_image (PingWrapper1 m) ranges beams s False off"
    and "unat s = (if ping_has_16bits_data p then 2 else 1)"
    and "unat beams * unat ranges < 2 ^ 31"
  shows "\<exists>a dat. get_ping_acoustic_data ov (data m) = Inr a
     \<and> make_ping_data_view (PingWrapper1 m) = Some (Inr (Some dat))
     \<and> length a = unat beams * unat ranges
     \<and> (\<forall>r < unat ranges. \<forall>c < unat beams.
          a ! (unat beams * r + c) = f_of_int (int (view_value dat [r, c] (data m))))"
proof -
  have p: "dec_ping (data m) = Some p" using assms(1) by (simp add: metadata1_def split: option.splits)
  have fields: "pr_nRanges p = ranges" "pr_nBeams p = beams" "pr_imageOffset p = off"
    and nogain: "\<not> ping_has_gains p"
    using assms(1,5)
    by (simp_all add: ping_image_def accessor_defs has_gains1_def ping_has_gains_def fire_has_gains_def)
  have l: "layout_of (data m) = Inr (layout1 p)"
    using assms(2,3,4) p
    by (simp add: layout_of_def message_wf_def is_ping_message_def message_id_def message_version_def)
  let ?l = "layout1 p"
  have lay: "\<not> il_gains ?l" "il_beams ?l = unat beams" "il_ranges ?l = unat ranges"
    "il_offset ?l = unat off" "sample_bytes ?l = unat s"
    using nogain fields assms(6) by (simp_all add: layout1_def sample_bytes_def)
  have inside: "image_inside ?l (data m)"
    using assms(5) by (simp add: image_inside_def line_pos_def line_bytes_def lay ping_image_def ping_bytes_def)
  have a: "get_ping_acoustic_data ov (data m) = Inr (row_major ?l (data m))"
    using plain_samples_row_major [OF inside lay(1)] l lay assms(7)
    by (simp add: get_ping_acoustic_data_def ping_data_to_array_def int_product_def)
  have nth: "row_major ?l (data m) ! (unat beams * r + c) =
      f_of_int (int (le_nat (slice (unat off + unat s * (unat beams * r + c)) (unat s) (data m))))"
    if "r < unat ranges" "c < unat beams" for r c
  proof -
    have "unat beams * Suc r \<le> unat beams * unat ranges" using that(1) by (intro mult_le_mono2) simp
    then have "unat beams * r + c < unat beams * unat ranges" using that(2) by simp
    then show ?thesis by (simp add: row_major_flat [OF lay(1)] lay)
  qed
  have "length (row_major ?l (data m)) = unat beams * unat ranges"
    by (simp add: row_major_flat [OF lay(1)] lay)
  with a nth show ?thesis
    unfolding data_view [OF assms(5)]
    by (intro exI conjI) (auto simp: view_value_def line_step_def algebra_simps)
qed

lemma helper_agrees_with_view_witness:
  "\<exists>a dat. get_ping_acoustic_data Sqrt_float (data (sample_view_message 0 4 7)) = Inr a
     \<and> make_ping_data_view (PingWrapper1 (sample_view_message 0 4 7)) = Some (Inr (Some dat))
     \<and> a ! 23 = f_of_int (int (view_value dat [3, 2] (data (sample_view_message 0 4 7))))"
proof -
  let ?m = "sample_view_message 0 4 7"
  have "ping_image (PingWrapper1 ?m) 4 7 1 False 122"
    using sample_view_image [of 4 0 7] by (simp add: line_step_def)
  moreover have "is_ping_message ?m" "message_version ?m \<noteq> 2"
    by (simp_all add: is_ping_message_def message_id_def message_version_def sample_view_message_def
        sample_fire_def default_ping_config_def zero_header_def)
  moreover have "\<not> ping_has_16bits_data (sample_view_ping 0 4 7)"
    by (simp add: ping_has_16bits_data_def fire_has_16bits_data_def sample_view_ping_def sample_metadata_def)
  ultimately obtain a dat where "get_ping_acoustic_data Sqrt_float (data ?m) = Inr a"
    "make_ping_data_view (PingWrapper1 ?m) = Some (Inr (Some dat))"
    and "\<forall>r < 4. \<forall>c < 7. a ! (7 * r + c) = f_of_int (int (view_value dat [r, c] (data ?m)))"
    using helper_agrees_with_view [OF sample_view_metadata _ _ sample_view_wf, of 0 4 7 4 7 1 122 Sqrt_float]
    by auto
  moreover from this(3) [rule_format, of 3 2] have
    "a ! 23 = f_of_int (int (view_value dat [3, 2] (data ?m)))" by simp
  ultimately show ?thesis by blast
qed

end
