(* ===== verification/Python_Messages.thy ===== *)
theory Python_Messages
  imports Python_Classes Ping_Views
begin

text \<open>
  Messages and pings as Python objects (\<open>python/src/oculus_message.cpp\<close>,
  \<open>python/src/oculus_files.cpp\<close>): the tables of methods of their classes, and the objects that the
  reader of log files gives out. Messages are shared: a \<open>std::shared_ptr\<close> is an address in a
  store that counts the owners of each object, a raw pointer is an address that counts for
  nothing. \<open>FileReader\<close> and \<open>SonarClient\<close> each have one message object, which they fill
  again and again, and every pointer they give out is a pointer to it.
\<close>

section \<open>The classes of messages and pings\<close>

datatype method_value =
    Header_value OculusMessageHeader | Time_value u64 | View_value "memoryview option"
  | String_value string | Int_value int | Float_value double | Bool_value bool
  | Message_value Message | Ping_value OculusSimplePingResult | Ping2_value OculusSimplePingResult2

text \<open>A method gives a value or an error, or does not return.\<close>

type_synonym 'o methods = "(string \<times> ('o \<Rightarrow> method_value result option)) list"


definition int_of :: "'w::len word result \<Rightarrow> method_value result option" where
  "int_of r = Some (bindR r (\<lambda>w. Inr (Int_value (uint w))))"

definition float_of :: "double result \<Rightarrow> method_value result option" where
  "float_of r = Some (bindR r (\<lambda>d. Inr (Float_value d)))"


definition OculusMessage_str :: "Message \<Rightarrow> string" where
  "OculusMessage_str msg = ''OculusMessage :'' @ [CHR 0x0A] @ show_header (header msg)"

definition OculusMessage_methods :: "Message methods" where
  "OculusMessage_methods =
     [(''header'', \<lambda>msg. Some (Inr (Header_value (header msg)))),
      (''timestamp'', \<lambda>msg. Some (Inr (Time_value (timestamp msg)))),
      (''data'', \<lambda>msg. Some (Inr (View_value (Some (message_view msg))))),
      (''__str__'', \<lambda>msg. Some (Inr (String_value (OculusMessage_str msg)))),
      (''timestamp_micros'', \<lambda>msg. Some (Inr (Int_value (timestamp_micros msg))))]"





section \<open>Which methods return\<close>

definition method_ok :: "method_value result option \<Rightarrow> bool" where
  "method_ok r \<longleftrightarrow> (\<exists>v. r = Some (Inr v))"

lemma method_ok_simps [simp]:
  "method_ok (int_of r) \<longleftrightarrow> (\<exists>w. r = Inr w)" "method_ok (float_of r') \<longleftrightarrow> (\<exists>d. r' = Inr d)"
  "method_ok (Some (Inr v))"
  by (cases r; cases r'; auto simp: method_ok_def int_of_def float_of_def)+










section \<open>Shared messages\<close>

text \<open>A \<open>Message::Ptr\<close> is an address; an object lives as long as it has an owner.\<close>

record message_store =
  objects :: "nat \<rightharpoonup> Message"
  owners :: "nat \<Rightarrow> nat"
  objects_made :: nat

definition make_shared :: "Message \<Rightarrow> message_store \<Rightarrow> message_store \<times> nat" where
  "make_shared m st =
     (let a = objects_made st
      in (st\<lparr>objects := (objects st)(a \<mapsto> m), owners := (owners st)(a := 1), objects_made := Suc a\<rparr>, a))"

definition share :: "nat \<Rightarrow> message_store \<Rightarrow> message_store" where
  "share a st = st\<lparr>owners := (owners st)(a := Suc (owners st a))\<rparr>"

definition drop_owner :: "nat \<Rightarrow> message_store \<Rightarrow> message_store" where
  "drop_owner a st =
     (if owners st a \<le> 1
      then st\<lparr>objects := (objects st)(a := None), owners := (owners st)(a := 0)\<rparr>
      else st\<lparr>owners := (owners st)(a := owners st a - 1)\<rparr>)"

definition write_object :: "nat \<Rightarrow> Message \<Rightarrow> message_store \<Rightarrow> message_store" where
  "write_object a m st = st\<lparr>objects := (objects st)(a \<mapsto> m)\<rparr>"

text \<open>\<open>Message::copy\<close>: an object of its own.\<close>

definition Message_copy :: "nat \<Rightarrow> message_store \<Rightarrow> (message_store \<times> nat) result" where
  "Message_copy a st =
     (case objects st a of
        None \<Rightarrow> Inl Null_dereference
      | Some m \<Rightarrow> Inr (make_shared \<lparr>timestamp = timestamp m, header = header m, data = data m\<rparr> st))"

section \<open>The reader of log files in Python\<close>

text \<open>
  An \<open>OculusFileReader\<close> and the objects a script got from it. \<open>file_reader\<close> is the reader with the
  address of its \<open>message_\<close>, until the script deletes it. A message is given out as a raw pointer,
  a ping with a share of its message.
\<close>

record file_session =
  store :: message_store
  file_reader :: "(FileReader \<times> nat) option"

datatype py_message = No_message | Message_at nat

datatype py_ping = No_ping | Ping_at bool nat

text \<open>What a step of the reader does to the reader's message shows in the store.\<close>

definition after_read :: "FileReader \<Rightarrow> nat \<Rightarrow> file_session \<Rightarrow> file_session" where
  "after_read r a s = s\<lparr>file_reader := Some (r, a), store := write_object a (fr_message r) (store s)\<rparr>"

definition OculusFileReader_construct ::
    "string \<Rightarrow> byte list option \<Rightarrow> LogHeader \<Rightarrow> message_store \<Rightarrow> file_session result" where
  "OculusFileReader_construct path content indeterminate st =
     (let r = new_FileReader indeterminate; (st', a) = make_shared (fr_message r) st
      in case FileReader_open path content r of
           (r, Inl e) \<Rightarrow> Inl e
         | (r, Inr _) \<Rightarrow> Inr \<lparr>store = st', file_reader = Some (r, a)\<rparr>)"

definition OculusFileReader_file_header :: "file_session \<Rightarrow> LogHeader option" where
  "OculusFileReader_file_header s = map_option (\<lambda>(r, _). fr_fileHeader r) (file_reader s)"

definition OculusFileReader_read_next_message :: "file_session \<Rightarrow> file_session \<times> py_message result" where
  "OculusFileReader_read_next_message s =
     (case file_reader s of
        None \<Rightarrow> (s, Inl Null_dereference)
      | Some (r, a) \<Rightarrow>
          let (r, msg) = read_next_message r; s = after_read r a s
          in case msg of
               Inl e \<Rightarrow> (s, Inl e)
             | Inr None \<Rightarrow> (s, Inr No_message)
             | Inr (Some _) \<Rightarrow> (s, Inr (Message_at a)))"

definition OculusFileReader_read_next_ping :: "file_session \<Rightarrow> file_session \<times> py_ping result" where
  "OculusFileReader_read_next_ping s =
     (case file_reader s of
        None \<Rightarrow> (s, Inl Null_dereference)
      | Some (r, a) \<Rightarrow>
          let (r, msg) = read_next_ping r; s = after_read r a s
          in case msg of
               Inl e \<Rightarrow> (s, Inl e)
             | Inr None \<Rightarrow> (s, Inr No_ping)
             | Inr (Some w) \<Rightarrow>
                 (s\<lparr>store := share a (store s)\<rparr>,
                  Inr (Ping_at (case w of PingWrapper1 _ \<Rightarrow> False | PingWrapper2 _ \<Rightarrow> True) a)))"

definition OculusFileReader_rewind :: "file_session \<Rightarrow> file_session \<times> unit result" where
  "OculusFileReader_rewind s =
     (case file_reader s of
        None \<Rightarrow> (s, Inl Null_dereference)
      | Some (r, a) \<Rightarrow> let (r, done) = rewind r in (after_read r a s, done))"

text \<open>The script deletes the reader, or a ping it kept.\<close>

definition delete_reader :: "file_session \<Rightarrow> file_session" where
  "delete_reader s =
     (case file_reader s of
        None \<Rightarrow> s
      | Some (r, a) \<Rightarrow> s\<lparr>file_reader := None, store := drop_owner a (store s)\<rparr>)"

definition delete_ping :: "py_ping \<Rightarrow> file_session \<Rightarrow> file_session" where
  "delete_ping p s = (case p of No_ping \<Rightarrow> s | Ping_at _ a \<Rightarrow> s\<lparr>store := drop_owner a (store s)\<rparr>)"

text \<open>What the objects read; \<open>None\<close> is memory that was given back.\<close>

definition message_seen :: "py_message \<Rightarrow> file_session \<Rightarrow> Message option" where
  "message_seen p s = (case p of No_message \<Rightarrow> None | Message_at a \<Rightarrow> objects (store s) a)"

definition ping_seen :: "py_ping \<Rightarrow> file_session \<Rightarrow> PingWrapper option" where
  "ping_seen p s =
     (case p of
        No_ping \<Rightarrow> None
      | Ping_at v2 a \<Rightarrow> map_option (if v2 then PingWrapper2 else PingWrapper1) (objects (store s) a))"

section \<open>What a script sees\<close>

definition session_inv :: "nat \<Rightarrow> file_session \<Rightarrow> bool" where
  "session_inv pings s \<longleftrightarrow>
     (case file_reader s of
        None \<Rightarrow> True
      | Some (r, a) \<Rightarrow> objects (store s) a = Some (fr_message r) \<and> owners (store s) a = Suc pings)"

lemma FileReader_open_message: "fr_message (fst (FileReader_open path content r)) = fr_message r"
  by (auto simp: FileReader_open_def read_next_header_def Let_def split: prod.splits option.splits sum.splits)

lemma constructed_session:
  assumes "OculusFileReader_construct path content hdr st = Inr s"
  shows "session_inv 0 s \<and> file_reader s \<noteq> None"
proof -
  obtain r w where r: "FileReader_open path content (new_FileReader hdr) = (r, w)" by force
  then have "fr_message r = fr_message (new_FileReader hdr)" using FileReader_open_message by (metis fst_conv)
  with assms r show ?thesis
    by (auto simp: OculusFileReader_construct_def make_shared_def session_inv_def Let_def split: sum.splits)
qed

lemma read_next_message_object: "read_next_message r = (r', Inr (Some m)) \<Longrightarrow> m = fr_message r'"
  by (auto simp: read_next_message_def finish_message_def Let_def split: prod.splits sum.splits if_splits)

lemma wrapper_message: "make_ping_wrapper (Some m) = Inr (Some w) \<Longrightarrow> ping_message w = m"
  by (auto simp: make_ping_wrapper_def PingWrapper2_Create_def PingWrapper1_Create_def PingWrapper_check_def
      split: if_splits)

lemma read_next_ping_object: "read_next_ping r = (r', Inr (Some w)) \<Longrightarrow> ping_message w = fr_message r'"
proof (induction r rule: read_next_ping.induct)
  case (1 r)
  then show ?case
    by (subst (asm) (2) read_next_ping.simps)
      (auto dest: read_next_message_object wrapper_message split: prod.splits sum.splits option.splits if_splits)
qed

lemma after_read_inv:
  "session_inv n s \<Longrightarrow> file_reader s = Some (r, a) \<Longrightarrow> session_inv n (after_read r' a s)"
  by (simp add: session_inv_def after_read_def write_object_def)

lemma read_message_parts:
  assumes "OculusFileReader_read_next_message s = (t, Inr (Message_at a))"
  obtains r r' m where "file_reader s = Some (r, a)" and "read_next_message r = (r', Inr (Some m))"
    and "t = after_read r' a s" and "message_seen (Message_at a) t = Some m"
  using assms read_next_message_object
  by (fastforce simp: OculusFileReader_read_next_message_def after_read_def message_seen_def write_object_def Let_def
      split: option.splits prod.splits sum.splits)

lemma read_ping_parts:
  assumes "OculusFileReader_read_next_ping s = (t, Inr (Ping_at v a))"
  obtains r r' w where "file_reader s = Some (r, a)" and "read_next_ping r = (r', Inr (Some w))"
    and "t = (after_read r' a s)\<lparr>store := share a (store (after_read r' a s))\<rparr>"
    and "ping_seen (Ping_at v a) t = Some w"
proof -
  obtain r r' w where *: "file_reader s = Some (r, a)" "read_next_ping r = (r', Inr (Some w))"
    "t = (after_read r' a s)\<lparr>store := share a (store (after_read r' a s))\<rparr>" "v = (case w of PingWrapper1 _ \<Rightarrow> False | PingWrapper2 _ \<Rightarrow> True)"
    using assms by (auto simp: OculusFileReader_read_next_ping_def Let_def split: option.splits prod.splits sum.splits)
  moreover have "ping_seen (Ping_at v a) t = Some w"
    using * read_next_ping_object [OF *(2)]
    by (cases w) (simp_all add: ping_seen_def after_read_def write_object_def share_def)
  ultimately show thesis using that by blast
qed

section \<open>Messages of the driver\<close>

text \<open>
  \<open>message_\<close> of the client is made once; every callback gets a pointer to it. What a callback
  that kept its pointer reads in a later state:
\<close>

definition kept_message :: "'a SonarClient_scheme \<Rightarrow> Message" where
  "kept_message s = message s"

section \<open>Properties\<close>

text \<open>
  A message read from a file is the reader's own object, seen through a raw pointer. A script that
  keeps it sees it change into the next one when it reads on, and when it deletes the reader and has no
  ping of it, the message is gone while the script still holds it.
\<close>

theorem kept_message_follows_the_reader:
  assumes "session_inv n s" and "OculusFileReader_read_next_message s = (t, Inr (Message_at a))"
  shows "(\<forall>u b. OculusFileReader_read_next_message t = (u, Inr (Message_at b)) \<longrightarrow>
       (\<exists>r m. read_next_message (fst (the (file_reader t))) = (r, Inr (Some m))
          \<and> message_seen (Message_at a) u = Some m \<and> message_seen (Message_at b) u = Some m))
     \<and> (n = 0 \<longrightarrow> message_seen (Message_at a) t \<noteq> None \<and> message_seen (Message_at a) (delete_reader t) = None)"
proof (intro conjI allI impI)
  from assms(2) obtain r r' m where t: "file_reader s = Some (r, a)" "t = after_read r' a s"
    "message_seen (Message_at a) t = Some m" by (rule read_message_parts)
  then have at: "file_reader t = Some (r', a)" by (simp add: after_read_def)
  show "\<exists>r m. read_next_message (fst (the (file_reader t))) = (r, Inr (Some m))
      \<and> message_seen (Message_at a) u = Some m \<and> message_seen (Message_at b) u = Some m"
    if u: "OculusFileReader_read_next_message t = (u, Inr (Message_at b))" for u b
    using at by (rule_tac read_message_parts [OF u]) auto
  show "message_seen (Message_at a) t \<noteq> None" using t(3) by simp
  show "message_seen (Message_at a) (delete_reader t) = None" if "n = 0"
    using after_read_inv [OF assms(1) t(1), of r'] that at
    by (simp add: t(2) session_inv_def delete_reader_def message_seen_def drop_owner_def)
qed

text \<open>
  C35: a ping read from a file shares the reader's object. It outlives the reader, but not the next read:
  when the script reads on, a kept ping reads what the next message has at the place of its fields, and
  out of bounds when that message is shorter.
\<close>

theorem kept_ping_follows_the_reader:
  assumes "session_inv n s" and "OculusFileReader_read_next_ping s = (t, Inr (Ping_at v a))"
  shows "ping_seen (Ping_at v a) t \<noteq> None
     \<and> ping_seen (Ping_at v a) (delete_reader t) = ping_seen (Ping_at v a) t
     \<and> (\<forall>u b m. OculusFileReader_read_next_message t = (u, Inr (Message_at b)) \<and> message_seen (Message_at b) u = Some m
          \<longrightarrow> (\<exists>w. ping_seen (Ping_at v a) u = Some w \<and> ping_message w = m
               \<and> (length (data m) < sizeof_ping \<longrightarrow> range_count w = Inl Out_of_bounds)))"
proof (intro conjI allI impI; (elim conjE)?)
  from assms(2) obtain r r' w where t: "file_reader s = Some (r, a)"
    "t = (after_read r' a s)\<lparr>store := share a (store (after_read r' a s))\<rparr>" "ping_seen (Ping_at v a) t = Some w"
    by (rule read_ping_parts)
  then have at: "file_reader t = Some (r', a)" by (simp add: after_read_def)
  show "ping_seen (Ping_at v a) t \<noteq> None" using t(3) by simp
  show "ping_seen (Ping_at v a) (delete_reader t) = ping_seen (Ping_at v a) t"
    using after_read_inv [OF assms(1) t(1), of r'] at
    by (simp add: t(2) session_inv_def delete_reader_def ping_seen_def drop_owner_def share_def after_read_def)
  fix u b m
  assume u: "OculusFileReader_read_next_message t = (u, Inr (Message_at b))" "message_seen (Message_at b) u = Some m"
  then have "b = a" using at by (auto elim: read_message_parts)
  with u(2) show "\<exists>w. ping_seen (Ping_at v a) u = Some w \<and> ping_message w = m
      \<and> (length (data m) < sizeof_ping \<longrightarrow> range_count w = Inl Out_of_bounds)"
    using ping_codec.dec_None [of "data m"] ping2_codec.dec_None [of "data m"]
    by (auto simp: message_seen_def ping_seen_def accessor_defs metadata1_def metadata2_def sizeof_ping_def
        split: option.split)
qed

text \<open>
  C36: a message that a callback kept is overwritten under it. When the header of the next message of the
  same size has come, the kept message has that header in front of its old payload, although nothing was handled
  since; when the payload has come too, it is the next message, and that is what is handled.
\<close>

theorem kept_message_is_torn:
  assumes "reads s = [Read_header k]" and "socket s = Some k" and "is_valid s h" and "length p = unat (payloadSize h)"
    and "length (data (kept_message s)) = length p + sizeof_header" and "readable (frame_message now h p)"
  shows "\<exists>t. complete_read (handle_message order) now (Read_header k) (enc_header h) s = Inr t
     \<and> kept_message t = frame_message now h (drop sizeof_header (data (kept_message s))) \<and> handled t = handled s
     \<and> reads t = [Read_payload k (length p)]
     \<and> (\<exists>u. complete_read (handle_message order) now (Read_payload k (length p)) p t = Inr u
          \<and> handled u = handled s @ [frame_message now h p])"
proof -
  let ?s = "finish_op (Read_header k) s" and ?P = "Read_payload k (length p)"
  let ?old = "drop sizeof_header (data (kept_message s))"
  let ?t = "start_op ?P (?s\<lparr>message := frame_message now h ?old\<rparr>)"
  let ?u = "(finish_op ?P ?t)\<lparr>message := frame_message now h p, clock := now,
      handled := handled s @ [frame_message now h p]\<rparr>"
  have valid: "is_valid ?s h" and sock: "socket ?s = Some k" using assms(2,3) by (simp_all add: is_valid_def finish_op_def)
  have torn: "update_from_header (word_of_int now) ((message s)\<lparr>header := h\<rparr>) = frame_message now h ?old"
    using assms(4,5) by (simp add: update_from_header_def kept_message_def frame_message_def vector_resize_def)
  have one: "complete_read (handle_message order) now (Read_header k) (enc_header h) s = Inr ?t"
    using header_received_valid [OF valid sock, of now] torn assms(4) by (simp add: complete_read_def finish_op_def)
  have rt: "reads ?t = [?P]"
    using assms(1) by (simp add: reads_def start_op_def finish_op_def filter_remove1)
  have sp: "store_payload p (frame_message now h ?old) = frame_message now h p"
    using assms(4,5) by (simp add: store_payload_def frame_message_def sizeof_header_def kept_message_def)
  obtain v where v: "handle_message order (frame_message now h p) ?u = Inr v" "handled v = handled s @ [frame_message now h p]"
    using receiver.handles [OF assms(6), of order ?u] by auto
  have "data_received_callback (handle_message order) now p (finish_op ?P ?t) = Inr (initiate_receive v)"
    using v(1) sp assms(4) by (simp add: data_received_callback_def Let_def start_op_def finish_op_def) (simp add: frame_message_def)
  moreover have "handled (initiate_receive v) = handled v"
    by (simp add: initiate_receive_def start_op_def split: option.split)
  ultimately have "\<exists>u. complete_read (handle_message order) now ?P p ?t = Inr u \<and> handled u = handled s @ [frame_message now h p]"
    using v(2) by (simp add: complete_read_def)
  then show ?thesis using one rt by (auto simp: kept_message_def start_op_def finish_op_def)
qed

lemma kept_message_is_torn_witness:
  "\<exists>t. complete_read (handle_message (\<lambda>d. d)) 1 (Read_header 0) (enc_header sample_dummy_header)
       (sample_driver\<lparr>message := frame_message 0 zero_header []\<rparr>) = Inr t
     \<and> kept_message t = frame_message 1 sample_dummy_header []"
  using kept_message_is_torn [of "sample_driver\<lparr>message := frame_message 0 zero_header []\<rparr>" 0 sample_dummy_header "[]" 1 "\<lambda>d. d"]
  by (auto simp: sample_driver_def reads_def is_valid_def kept_message_def frame_message_def sizeof_header_def
      sample_dummy_header_def zero_header_def header_valid_def readable_def)

section \<open>Examples\<close>

definition sample_session :: "entry list \<Rightarrow> file_session" where
  "sample_session es =
     \<lparr>store = fst (make_shared new_message \<lparr>objects = Map.empty, owners = (\<lambda>_. 0), objects_made = 0\<rparr>),
      file_reader = Some (reader_standing es, 0)\<rparr>"

lemma sample_session_inv: "session_inv 0 (sample_session es)"
  by (cases es) (simp_all add: sample_session_def session_inv_def make_shared_def reader_standing_def Let_def)

lemma recordable_entries: "recordable m \<Longrightarrow> \<forall>e \<in> set (recorded m). entry_ok e"
  unfolding recordable_def using recorded_ok by blast

text \<open>A session whose reader stands at recorded messages reads them one by one.\<close>

lemma session_reads:
  assumes "file_reader s = Some (r, a)" and "reader_at (recorded m @ es) r" and "recordable m"
    and "\<forall>e \<in> set es. entry_ok e"
  shows "\<exists>t r'. OculusFileReader_read_next_message s = (t, Inr (Message_at a))
     \<and> read_next_message r = (r', Inr (Some m)) \<and> file_reader t = Some (r', a) \<and> reader_at es r'
     \<and> message_seen (Message_at a) t = Some m"
proof -
  have "\<forall>e \<in> set (recorded m @ es). entry_ok e" using recordable_entries [OF assms(3)] assms(4) by auto
  from read_next_message_at [OF assms(2) this] obtain r' where
    "read_next_message r = (r', Inr (Some m))" "reader_at es r'" "m = fr_message r'"
    using next_message_recorded [of m es] assms(3) by (auto simp: recordable_def)
  with assms(1) show ?thesis
    by (auto simp: OculusFileReader_read_next_message_def after_read_def message_seen_def write_object_def)
qed

lemma session_reads_ping:
  assumes "file_reader s = Some (r, a)" and "reader_at (recorded m @ es) r" and "recordable m"
    and "\<forall>e \<in> set es. entry_ok e" and "is_ping_message m" and "message_version m \<noteq> 2"
  shows "\<exists>t r'. OculusFileReader_read_next_ping s = (t, Inr (Ping_at False a))
     \<and> file_reader t = Some (r', a) \<and> reader_at es r'"
proof -
  obtain r' where r': "read_next_message r = (r', Inr (Some m))" "reader_at es r'"
    using session_reads [OF assms(1-4)] by auto
  have "make_ping_wrapper (Some m) = Inr (Some (PingWrapper1 m))"
    using assms(5,6) by (simp add: make_ping_wrapper_def PingWrapper1_Create_def PingWrapper_check_def)
  then have "read_next_ping r = (r', Inr (Some (PingWrapper1 m)))"
    using r'(1) assms(5) by (subst read_next_ping.simps) simp
  with assms(1) r'(2) show ?thesis by (auto simp: OculusFileReader_read_next_ping_def after_read_def)
qed

lemma kept_message_follows_the_reader_witness:
  "\<exists>t u. OculusFileReader_read_next_message (sample_session (recorded sample_message @ recorded (sample_message\<lparr>timestamp := 5\<rparr>)))
       = (t, Inr (Message_at 0))
     \<and> message_seen (Message_at 0) t = Some sample_message
     \<and> OculusFileReader_read_next_message t = (u, Inr (Message_at 0))
     \<and> message_seen (Message_at 0) u = Some (sample_message\<lparr>timestamp := 5\<rparr>)
     \<and> message_seen (Message_at 0) (delete_reader t) = None"
proof -
  let ?n = "sample_message\<lparr>timestamp := 5\<rparr>"
  let ?s = "sample_session (recorded sample_message @ recorded ?n)"
  have n: "recordable ?n" using sample_message_ok by (simp add: recordable_def message_wf_def)
  then have ok: "\<forall>e \<in> set (recorded ?n). entry_ok e" by (rule recordable_entries)
  have "file_reader ?s = Some (reader_standing (recorded sample_message @ recorded ?n), 0)"
    by (simp add: sample_session_def)
  from session_reads [OF this reader_standing_at sample_message_ok ok] obtain t r where
    t: "OculusFileReader_read_next_message ?s = (t, Inr (Message_at 0))" "file_reader t = Some (r, 0)"
      "reader_at (recorded ?n @ []) r" "message_seen (Message_at 0) t = Some sample_message" by auto
  from session_reads [OF t(2,3) n] obtain u r' where
    u: "OculusFileReader_read_next_message t = (u, Inr (Message_at 0))" "read_next_message r = (r', Inr (Some ?n))" by auto
  from kept_message_follows_the_reader [OF sample_session_inv t(1)] u t(2,4) show ?thesis
    using t(1) by fastforce
qed

lemma kept_ping_follows_the_reader_witness:
  "\<exists>t u w. OculusFileReader_read_next_ping (sample_session (recorded (sample_view_message 4 4 3) @ recorded sample_message))
       = (t, Inr (Ping_at False 0))
     \<and> OculusFileReader_read_next_message t = (u, Inr (Message_at 0))
     \<and> ping_seen (Ping_at False 0) u = Some w \<and> range_count w = Inl Out_of_bounds"
proof -
  let ?m = "sample_view_message 4 4 3"
  let ?s = "sample_session (recorded ?m @ recorded sample_message)"
  have m: "recordable ?m" "is_ping_message ?m" "message_version ?m \<noteq> 2"
    using sample_view_wf [of 4 4 3]
    by (simp_all add: recordable_def sample_view_message_def is_ping_message_def message_id_def message_version_def
        sample_fire_def default_ping_config_def zero_header_def)
  have ok: "\<forall>e \<in> set (recorded sample_message). entry_ok e" by (rule recordable_entries [OF sample_message_ok])
  have "file_reader ?s = Some (reader_standing (recorded ?m @ recorded sample_message), 0)"
    by (simp add: sample_session_def)
  from session_reads_ping [OF this reader_standing_at m(1) ok m(2,3)] obtain t r where
    t: "OculusFileReader_read_next_ping ?s = (t, Inr (Ping_at False 0))" "file_reader t = Some (r, 0)"
      "reader_at (recorded sample_message @ []) r" by auto
  from session_reads [OF t(2,3) sample_message_ok] obtain u where
    u: "OculusFileReader_read_next_message t = (u, Inr (Message_at 0))" "message_seen (Message_at 0) u = Some sample_message" by auto
  have "length (data sample_message) < sizeof_ping" by (simp add: sample_message_def sizeof_ping_def Let_def)
  with kept_ping_follows_the_reader [OF sample_session_inv t(1)] u show ?thesis
    using t(1) by blast
qed


end
