(* ===== verification/View_Lifetime.thy ===== *)
theory View_Lifetime
  imports Python_Messages
begin

text \<open>
  How long a memory view is good for. The views of \<open>python/src/message_utils.h\<close> are made from a
  pointer into the vector of a message, and own nothing. The client receives every message into
  the same vector: its \<open>resize\<close> keeps the memory as long as the new size fits the capacity,
  and gives it back for a larger piece otherwise. A vector is followed here through the reception:
  which piece of memory it has, and how large that is. How much larger a new piece is than what
  was asked for is the standard library's choice.
\<close>

section \<open>The memory of a vector\<close>

record vector_memory =
  allocation :: nat
  capacity :: nat

text \<open>\<open>std::vector::resize\<close>; \<open>grow\<close> is the capacity of the new piece, given the old one and the size.\<close>

definition resize_memory :: "(nat \<Rightarrow> nat \<Rightarrow> nat) \<Rightarrow> nat \<Rightarrow> vector_memory \<Rightarrow> vector_memory" where
  "resize_memory grow n v =
     (if n \<le> capacity v then v else \<lparr>allocation = Suc (allocation v), capacity = grow (capacity v) n\<rparr>)"

text \<open>The growth of the GNU library.\<close>

definition double_or_more :: "nat \<Rightarrow> nat \<Rightarrow> nat" where
  "double_or_more c n = max (2 * c) n"

locale vector_growth =
  fixes grow :: "nat \<Rightarrow> nat \<Rightarrow> nat"
  assumes grows: "n \<le> grow c n"
begin

lemma resize_fits: "n \<le> capacity (resize_memory grow n v)"
  using grows by (simp add: resize_memory_def)

lemma resize_keeps: "capacity v \<le> capacity (resize_memory grow n v)"
  using grows [of n "capacity v"] by (simp add: resize_memory_def)

lemma resize_allocation: "allocation v \<le> allocation (resize_memory grow n v)"
  by (simp add: resize_memory_def)

lemma resizes_allocation: "allocation v \<le> allocation (fold (resize_memory grow) ns v)"
proof (induction ns arbitrary: v)
  case (Cons n ns)
  then show ?case using resize_allocation order_trans by fastforce
qed simp

text \<open>The memory is the same after a sequence of resizes exactly when each of them fits.\<close>

lemma resizes_same_iff: "allocation (fold (resize_memory grow) ns v) = allocation v \<longleftrightarrow> (\<forall>n \<in> set ns. n \<le> capacity v)"
proof (induction ns arbitrary: v)
  case (Cons n ns)
  show ?case
  proof (cases "n \<le> capacity v")
    case True
    then show ?thesis using Cons by (simp add: resize_memory_def)
  next
    case False
    then have "allocation v < allocation (resize_memory grow n v)" by (simp add: resize_memory_def)
    also have "\<dots> \<le> allocation (fold (resize_memory grow) ns (resize_memory grow n v))" by (rule resizes_allocation)
    finally show ?thesis using False by auto
  qed
qed simp

end

interpretation gnu: vector_growth double_or_more
  by unfold_locales (simp add: double_or_more_def)

section \<open>The reception with its memory\<close>

text \<open>
  A read that completes. \<open>update_from_header\<close> resizes the vector, when the header was received whole
  and is valid.
\<close>

definition read_in_memory ::
    "(nat \<Rightarrow> nat \<Rightarrow> nat) \<Rightarrow> (Message \<Rightarrow> 'a SonarClient_scheme \<Rightarrow> 'a SonarClient_scheme result) \<Rightarrow> int \<Rightarrow> async_op
     \<Rightarrow> byte list \<Rightarrow> 'a SonarClient_scheme \<times> vector_memory \<Rightarrow> ('a SonarClient_scheme \<times> vector_memory) result" where
  "read_in_memory grow handle now op bs sv =
     bindR (complete_read handle now op bs (fst sv)) (\<lambda>t. Inr (t,
       case op of
         Read_header k \<Rightarrow>
           let m = store_header bs (message (fst sv))
           in if length bs = sizeof_header \<and> is_valid (fst sv) (header m)
              then resize_memory grow (unat (payloadSize (header m)) + sizeof_header) (snd sv) else snd sv
       | _ \<Rightarrow> snd sv))"

fun pump_in_memory ::
    "(nat \<Rightarrow> nat \<Rightarrow> nat) \<Rightarrow> (Message \<Rightarrow> 'a SonarClient_scheme \<Rightarrow> 'a SonarClient_scheme result) \<Rightarrow> int \<Rightarrow> nat
     \<Rightarrow> byte list \<Rightarrow> 'a SonarClient_scheme \<times> vector_memory
     \<Rightarrow> (byte list \<times> 'a SonarClient_scheme \<times> vector_memory) result" where
  "pump_in_memory grow handle now 0 bs sv = Inr (bs, sv)"
| "pump_in_memory grow handle now (Suc n) bs sv =
     (case reads (fst sv) of
        [] \<Rightarrow> Inr (bs, sv)
      | op # _ \<Rightarrow>
          let n_bytes = the (read_size op)
          in if length bs < n_bytes then Inr (bs, sv)
             else bindR (read_in_memory grow handle now op (take n_bytes bs) sv)
                    (pump_in_memory grow handle now n (drop n_bytes bs)))"

text \<open>The memory does not influence the reception.\<close>

lemma pump_in_memory_pump:
  "pump handle now n bs (fst sv) =
     bindR (pump_in_memory grow handle now n bs sv) (\<lambda>(rest, t, v). Inr (rest, t))"
proof (induction n arbitrary: bs sv)
  case (Suc n)
  show ?case
  proof (cases "reads (fst sv)")
    case (Cons op ops)
    let ?k = "the (read_size op)"
    show ?thesis
    proof (cases "complete_read handle now op (take ?k bs) (fst sv)")
      case (Inr t)
      then obtain v where "read_in_memory grow handle now op (take ?k bs) sv = Inr (t, v)"
        by (simp add: read_in_memory_def)
      with Inr Cons Suc [of "drop ?k bs" "(t, v)"] show ?thesis by (simp add: Let_def split: prod.split)
    qed (simp add: Cons read_in_memory_def Let_def split: prod.split)
  qed (simp split: prod.split)
qed (simp split: prod.split)

fun chunk_sizes :: "chunk list \<Rightarrow> nat list" where
  "chunk_sizes [] = []"
| "chunk_sizes (Frame h p # cs) = (length p + sizeof_header) # chunk_sizes cs"
| "chunk_sizes (Noise h # cs) = chunk_sizes cs"

lemma set_chunk_sizes: "set (chunk_sizes cs) = (\<lambda>m. length (data m)) ` set (chunk_messages now cs)"
proof (induction cs)
  case (Cons c cs)
  then show ?case by (cases c) (auto simp: frame_message_def sizeof_header_def)
qed simp

context message_handler
begin

lemma pump_in_memory_chunks:
  assumes "reads s = [Read_header k]" and "socket s = Some k"
    and "\<forall>c \<in> set cs. chunk_ok (sonarId s) c" and "\<forall>m \<in> set (chunk_messages now cs). accepts m"
  shows "\<exists>s'. pump_in_memory grow handle now (chunk_reads cs) (concat (map chunk_bytes cs) @ rest) (s, v) =
       Inr (rest, s', fold (resize_memory grow) (chunk_sizes cs) v)
     \<and> handled s' = handled s @ chunk_messages now cs
     \<and> data (message s') = (if chunk_messages now cs = [] then data (message s) else data (last (chunk_messages now cs)))"
  using assms
proof (induction cs arbitrary: s v)
  case (Cons c cs)
  let ?bs = "concat (map chunk_bytes cs) @ rest"
  show ?case
  proof (cases c)
    case (Frame h p)
    then have ok: "chunk_ok (sonarId s) (Frame h p)" "accepts (frame_message now h p)"
      "\<forall>c \<in> set cs. chunk_ok (sonarId s) c" "\<forall>m \<in> set (chunk_messages now cs). accepts m"
      using Cons.prems by auto
    obtain t s1 where one: "complete_read handle now (Read_header k) (enc_header h) s = Inr t"
      and rt: "reads t = [Read_payload k (length p)]"
      and two: "complete_read handle now (Read_payload k (length p)) p t = Inr s1"
      and s1: "reads s1 = [Read_header k]" "socket s1 = Some k" "sonarId s1 = sonarId s"
        "handled s1 = handled s @ [frame_message now h p]" "message s1 = frame_message now h p"
      using frame_reads [OF Cons.prems(1,2) ok(1,2)] by blast
    let ?v = "resize_memory grow (length p + sizeof_header) v"
    have "read_in_memory grow handle now (Read_header k) (enc_header h) (s, v) = Inr (t, ?v)"
      using one ok(1) by (simp add: read_in_memory_def store_header_full is_valid_def sizeof_header_def)
    then have "pump_in_memory grow handle now (Suc (Suc (chunk_reads cs))) (enc_header h @ p @ ?bs) (s, v) =
        pump_in_memory grow handle now (Suc (chunk_reads cs)) (p @ ?bs) (t, ?v)"
      unfolding pump_in_memory.simps(2) [of grow handle now "Suc (chunk_reads cs)"]
      using Cons.prems(1) by (simp add: sizeof_header_def Let_def del: pump_in_memory.simps)
    also have "\<dots> = pump_in_memory grow handle now (chunk_reads cs) ?bs (s1, ?v)"
      using rt two by (simp add: read_in_memory_def Let_def)
    finally show ?thesis
      using Cons.IH [of s1 ?v] s1 ok Frame by (auto simp: frame_message_def simp del: pump_in_memory.simps)
  next
    case (Noise h)
    then have ok: "chunk_ok (sonarId s) (Noise h)" "\<forall>c \<in> set cs. chunk_ok (sonarId s) c"
      "\<forall>m \<in> set (chunk_messages now cs). accepts m"
      using Cons.prems by auto
    obtain s1 where one: "complete_read handle now (Read_header k) (enc_header h) s = Inr s1"
      and s1: "reads s1 = [Read_header k]" "socket s1 = Some k" "sonarId s1 = sonarId s"
        "handled s1 = handled s" "data (message s1) = data (message s)"
      using noise_read [OF Cons.prems(1,2) ok(1)] by blast
    have "read_in_memory grow handle now (Read_header k) (enc_header h) (s, v) = Inr (s1, v)"
      using one ok(1) by (auto simp: read_in_memory_def store_header_full is_valid_def)
    then have "pump_in_memory grow handle now (chunk_reads (c # cs)) (concat (map chunk_bytes (c # cs)) @ rest) (s, v) =
        pump_in_memory grow handle now (chunk_reads cs) ?bs (s1, v)"
      using Cons.prems(1) Noise by (simp add: sizeof_header_def Let_def)
    then show ?thesis
      using Cons.IH [of s1 v] s1 ok Noise by (auto simp del: pump_in_memory.simps)
  qed
qed simp

end

section \<open>Views that are kept\<close>

text \<open>
  \<open>py::memoryview::from_buffer\<close>: the pointer, which is an offset into a piece of memory, with shape
  and strides. Reading an element through a pointer into memory that was given back, or past the
  end of the vector, is undefined.
\<close>

record kept_view =
  kv_allocation :: nat
  kv_view :: memoryview

definition from_buffer :: "memoryview \<Rightarrow> vector_memory \<Rightarrow> kept_view" where
  "from_buffer view v = \<lparr>kv_allocation = allocation v, kv_view = view\<rparr>"

definition read_view :: "kept_view \<Rightarrow> nat list \<Rightarrow> 'a SonarClient_scheme \<times> vector_memory \<Rightarrow> nat result" where
  "read_view w idx sv =
     (let bs = data (message (fst sv))
      in if kv_allocation w \<noteq> allocation (snd sv) \<or> length bs < view_pos (kv_view w) idx + mv_item (kv_view w)
         then Inl Out_of_bounds
         else Inr (view_value (kv_view w) idx bs))"

text \<open>
  C34: a view of a received message that a script keeps. After more messages, an element of it reads
  what is at its place in the last of them, if none of the messages was longer than the capacity of
  the vector when the view was made and the last one reaches that far; otherwise the
  view reads memory that was given back, or past the end of the vector.
\<close>

theorem kept_view_dangles_iff:
  assumes "vector_growth grow" and "reads s = [Read_header k]" and "socket s = Some k"
    and "\<forall>c \<in> set cs. chunk_ok (sonarId s) c" and "\<forall>m \<in> set (chunk_messages now cs). readable m"
    and "chunk_messages now cs \<noteq> []"
  shows "\<exists>s' v'. pump_in_memory grow (handle_message order) now (chunk_reads cs) (concat (map chunk_bytes cs)) (s, v) =
       Inr ([], s', v')
     \<and> handled s' = handled s @ chunk_messages now cs
     \<and> (\<forall>view idx. read_view (from_buffer view v) idx (s', v') =
          (if (\<forall>m \<in> set (chunk_messages now cs). length (data m) \<le> capacity v)
              \<and> view_pos view idx + mv_item view \<le> length (data (last (chunk_messages now cs)))
           then Inr (view_value view idx (data (last (chunk_messages now cs))))
           else Inl Out_of_bounds))"
proof -
  let ?v = "fold (resize_memory grow) (chunk_sizes cs) v"
  obtain s' where s': "pump_in_memory grow (handle_message order) now (chunk_reads cs) (concat (map chunk_bytes cs) @ []) (s, v) =
      Inr ([], s', ?v)" "handled s' = handled s @ chunk_messages now cs"
    "data (message s') = data (last (chunk_messages now cs))"
    using receiver.pump_in_memory_chunks [OF assms(2-5), of grow order "[]" v] assms(6) by auto
  have "allocation ?v = allocation v \<longleftrightarrow> (\<forall>m \<in> set (chunk_messages now cs). length (data m) \<le> capacity v)"
    using vector_growth.resizes_same_iff [OF assms(1), of "chunk_sizes cs" v] by (simp add: set_chunk_sizes [of cs now])
  with s' show ?thesis
    by (intro exI [of _ s'] exI [of _ ?v]) (auto simp: read_view_def from_buffer_def Let_def)
qed

lemma kept_view_dangles_iff_witness:
  "\<exists>s' v'. pump_in_memory double_or_more (handle_message (\<lambda>d. d)) 0 2 (enc_header sample_dummy_header)
       (sample_driver, \<lparr>allocation = 0, capacity = 0\<rparr>) = Inr ([], s', v')
     \<and> read_view (from_buffer (vector_view 0 1 0) \<lparr>allocation = 0, capacity = 0\<rparr>) [0] (s', v') = Inl Out_of_bounds"
proof -
  let ?cs = "[Frame sample_dummy_header []]"
  have "\<forall>c \<in> set ?cs. chunk_ok (sonarId sample_driver) c" "\<forall>m \<in> set (chunk_messages 0 ?cs). readable m"
    by (simp_all add: sample_dummy_header_def zero_header_def OCULUS_CHECK_ID_def readable_def frame_message_def)
  from kept_view_dangles_iff [OF gnu.vector_growth_axioms _ _ this, of 0 "\<lambda>d. d" "\<lparr>allocation = 0, capacity = 0\<rparr>"]
  show ?thesis by (auto simp: frame_message_def numeral_2_eq_2 simp del: pump_in_memory.simps)
qed

end
