(* ===== verification/Ping_Image.thy ===== *)
theory Ping_Image
  imports Ping_Helpers
begin

text \<open>
  The cartesian image of \<open>image_from_ping_data\<close> in \<open>include/oculus_driver/helpers.h\<close>. Sine and
  arc tangent are arguments, since the standard does not say how they round; the unqualified
  \<open>sqrt\<close> and \<open>abs\<close> are whichever overload the compiler finds. The lemmas give the order of
  floating point values and show what the table of bearings holds.
\<close>

section \<open>Arithmetic of the source\<close>

record float_library =
  fl_sin :: "float \<Rightarrow> float"
  fl_atan2 :: "float \<Rightarrow> float \<Rightarrow> float"
  fl_sqrt :: sqrt_overload
  fl_abs :: abs_overload

text \<open>\<open>std::abs\<close> of a float clears its sign bit.\<close>

definition f_abs :: "float \<Rightarrow> float" where
  "f_abs x = and x 0x7FFFFFFF"

fun library_sqrt :: "sqrt_overload \<Rightarrow> float \<Rightarrow> float" where
  "library_sqrt Sqrt_float x = f_sqrt x"
| "library_sqrt Sqrt_double x = f_of_double (d_sqrt (d_of_float x))"

text \<open>The unqualified \<open>abs(x) > bound\<close>; the overload on integers truncates its argument.\<close>

fun library_abs_above :: "abs_overload \<Rightarrow> float \<Rightarrow> float \<Rightarrow> bool result" where
  "library_abs_above Abs_float x bound = Inr (f_lt bound (f_abs x))"
| "library_abs_above Abs_int x bound =
     (case fp_trunc (fval x) of
        None \<Rightarrow> Inl Bad_conversion
      | Some i \<Rightarrow> if - (2 ^ 31) < i \<and> i < 2 ^ 31 then Inr (f_lt bound (f_of_int \<bar>i\<bar>)) else Inl Bad_conversion)"

text \<open>The literal \<open>0.5f\<close>.\<close>

definition float_half :: float where
  "float_half = 0x3F000000"

definition lookup :: "'a list \<Rightarrow> nat \<Rightarrow> 'a result" where
  "lookup xs i = (if i < length xs then Inr (xs ! i) else Inl Out_of_bounds)"

section \<open>The table of bearings\<close>

text \<open>The bearing that is nearest to an angle: the search starts with the first one.\<close>

definition nearest_step :: "float list \<Rightarrow> float \<Rightarrow> nat \<Rightarrow> nat \<times> float \<Rightarrow> nat \<times> float" where
  "nearest_step bearings angle i st =
     (let diff = f_abs (f_sub (bearings ! i) angle)
      in if f_lt diff (snd st) then (i, diff) else st)"

definition nearest_bearing :: "float list \<Rightarrow> float \<Rightarrow> nat" where
  "nearest_bearing bearings angle =
     fst (fold (nearest_step bearings angle) [1..<length bearings]
            (0, f_abs (f_sub (bearings ! 0) angle)))"

definition beam_angle :: "float list \<Rightarrow> nat \<Rightarrow> nat \<Rightarrow> float" where
  "beam_angle bearings beams b =
     f_add (f_div (f_mul (f_sub (last bearings) (hd bearings)) (f_of_int (int b)))
                  (f_of_int (int beams - 1)))
           (hd bearings)"

text \<open>The entry is written by the inner loop, so a single bearing leaves the zero of the vector.\<close>

definition bearing_lut :: "float list \<Rightarrow> nat \<Rightarrow> nat list" where
  "bearing_lut bearings beams =
     map (\<lambda>b. if 1 < length bearings then nearest_bearing bearings (beam_angle bearings beams b) else 0)
       [0..<beams]"

section \<open>The image\<close>

text \<open>One pixel, of the coordinates \<open>x\<close> (forward) and \<open>y\<close> (right) in meters.\<close>

definition pixel_value ::
    "float_library \<Rightarrow> image_layout \<Rightarrow> float list \<Rightarrow> float list \<Rightarrow> nat list \<Rightarrow> float \<Rightarrow> float \<Rightarrow> float \<Rightarrow> float result" where
  "pixel_value lib l bearings pingData lut aperture x y =
     (let r = library_sqrt (fl_sqrt lib) (f_add (f_mul x x) (f_mul y y));
          bearing = fl_atan2 lib y x
      in if f_lt r (f_of_int 0) \<or> fp_lt (dval (il_range l)) (dval (d_of_float r)) then Inr (f_of_int 0)
         else bindR (library_abs_above (fl_abs lib) bearing (f_mul float_half aperture)) (\<lambda>outside.
           if outside then Inr (f_of_int 0)
           else
             bindR (f_to_unsigned 64 (f_div (f_mul (f_of_int (int (il_beams l) - 1))
                 (f_sub bearing (hd bearings))) aperture)) (\<lambda>k.
               bindR (lookup lut k) (\<lambda>bearingIndex.
                 bindR (d_to_unsigned 32 (d_div (d_of_float (f_mul (f_of_int (int (il_ranges l) - 1)) r))
                     (il_range l))) (\<lambda>rangeIndex.
                   lookup pingData ((il_beams l * rangeIndex + bearingIndex) mod 2 ^ 32))))))"

definition image_row ::
    "float_library \<Rightarrow> image_layout \<Rightarrow> float list \<Rightarrow> float list \<Rightarrow> nat list \<Rightarrow> float \<Rightarrow> float \<Rightarrow> u32 \<Rightarrow> u32
     \<Rightarrow> nat \<Rightarrow> float list \<Rightarrow> float list result" where
  "image_row lib l bearings pingData lut aperture resolution width height h =
     (let x = f_mul resolution (f_of_int (uint (height - 1 - word_of_nat h)))
      in for_each (\<lambda>w image.
           let y = f_mul resolution (f_sub (f_of_int (int w)) (f_mul float_half (f_of_int (uint width))))
           in bindR (pixel_value lib l bearings pingData lut aperture x y) (\<lambda>v.
                write_elem (unat (width * word_of_nat h + word_of_nat w)) v image))
         [0..<unat width])"

definition image_from_ping_data ::
    "float_library \<Rightarrow> image_layout \<Rightarrow> byte list \<Rightarrow> float list \<Rightarrow> u32
     \<Rightarrow> (float list \<times> u32 \<times> u32) result" where
  "image_from_ping_data lib l msgData imageData width =
       bindR (get_ping_bearings msgData) (\<lambda>bearings.
         bindR (get_ping_acoustic_data (fl_sqrt lib) msgData) (\<lambda>pingData.
           if bearings = [] then Inl Out_of_bounds
           else
             let aperture = f_sub (last bearings) (hd bearings);
                 aspectRatio = f_mul (f_of_int 2) (fl_sin lib (f_mul float_half aperture))
             in bindR (f_to_unsigned 32 (f_div (f_of_int (uint width)) aspectRatio)) (\<lambda>k.
               let height = word_of_nat k :: u32;
                   n = unat (width * height);
                   image = take n imageData @ replicate (n - length imageData) 0;
                   lut = bearing_lut bearings (il_beams l);
                   resolution = f_of_double (d_div (il_range l) (d_of_int (uint (height - 1))))
               in bindR (for_each
                    (image_row lib l bearings pingData lut aperture resolution width height)
                    [0..<unat height] image) (\<lambda>image. Inr (image, width, height)))))"

section \<open>The order of floating point values\<close>

text \<open>Comparing two values at any common exponent below both.\<close>

lemma aligned_less:
  assumes "E \<le> e1" and "E \<le> e2"
  shows "aligned_sum s1 m1 e1 (\<not> s2) m2 e2 < 0 \<longleftrightarrow>
     signed_mant s1 m1 * 2 ^ nat (e1 - E) < signed_mant s2 m2 * 2 ^ nat (e2 - E)"
proof -
  let ?e = "min e1 e2"
  let ?a = "signed_mant s1 m1 * 2 ^ nat (e1 - ?e)" and ?b = "signed_mant s2 m2 * 2 ^ nat (e2 - ?e)"
  have split: "nat (x - E) = nat (x - ?e) + nat (?e - E)" if "?e \<le> x" for x
    using that assms by linarith
  have "signed_mant (\<not> s2) m2 = - signed_mant s2 m2" by (simp add: signed_mant_def)
  then have "aligned_sum s1 m1 e1 (\<not> s2) m2 e2 < 0 \<longleftrightarrow> ?a < ?b"
    by (simp add: aligned_sum_def Let_def)
  also have "\<dots> \<longleftrightarrow> ?a * 2 ^ nat (?e - E) < ?b * 2 ^ nat (?e - E)" by simp
  finally show ?thesis
    using split [of e1] split [of e2] by (simp add: power_add mult.assoc)
qed

lemma fp_lt_trans: "fp_lt x y \<Longrightarrow> fp_lt y z \<Longrightarrow> fp_lt x z"
proof (cases x; cases y; cases z)
  fix s1 m1 e1 s2 m2 e2 s3 m3 e3
  assume xyz: "x = FFin s1 m1 e1" "y = FFin s2 m2 e2" "z = FFin s3 m3 e3"
    and lt: "fp_lt x y" "fp_lt y z"
  define E where "E = min e1 (min e2 e3)"
  have E: "E \<le> e1" "E \<le> e2" "E \<le> e3" by (simp_all add: E_def)
  show "fp_lt x z"
    using lt aligned_less [OF E(1,2), of s1 m1 s2 m2] aligned_less [OF E(2,3), of s2 m2 s3 m3]
      aligned_less [OF E(1,3), of s1 m1 s3 m3] by (simp add: xyz)
qed auto

section \<open>What the table of bearings holds\<close>

definition bearing_distance :: "float list \<Rightarrow> float \<Rightarrow> nat \<Rightarrow> float" where
  "bearing_distance bearings angle i = f_abs (f_sub (bearings ! i) angle)"

lemma nearest_fold:
  assumes "fold (nearest_step bearings angle) [1..<Suc n] (0, bearing_distance bearings angle 0) = (k, d)"
  shows "k \<le> n \<and> d = bearing_distance bearings angle k
     \<and> (\<forall>i \<le> n. \<not> f_lt (bearing_distance bearings angle i) d)"
  using assms
proof (induction n arbitrary: k d)
  case 0
  then show ?case by (auto simp: f_lt_def)
next
  case (Suc n)
  obtain k' d' where st: "fold (nearest_step bearings angle) [1..<Suc n]
      (0, bearing_distance bearings angle 0) = (k', d')" by force
  let ?x = "bearing_distance bearings angle (Suc n)"
  have "(k, d) = nearest_step bearings angle (Suc n) (k', d')"
    using Suc.prems st by simp
  then have kd: "(k, d) = (if f_lt ?x d' then (Suc n, ?x) else (k', d'))"
    by (simp add: nearest_step_def bearing_distance_def Let_def)
  have ih: "k' \<le> n" "d' = bearing_distance bearings angle k'"
    "\<forall>i \<le> n. \<not> f_lt (bearing_distance bearings angle i) d'"
    using Suc.IH [OF st] by blast+
  show ?case
  proof (cases "f_lt ?x d'")
    case True
    then have "\<not> f_lt (bearing_distance bearings angle i) ?x" if "i \<le> n" for i
      using ih(3) that fp_lt_trans unfolding f_lt_def by blast
    with True kd show ?thesis by (auto simp: le_Suc_eq f_lt_def)
  next
    case False
    with kd ih show ?thesis by (auto simp: le_Suc_eq)
  qed
qed

lemma nearest_bearing_least:
  assumes "bearings \<noteq> []"
  shows "nearest_bearing bearings angle < length bearings"
    "i < length bearings
     \<Longrightarrow> \<not> f_lt (bearing_distance bearings angle i)
            (bearing_distance bearings angle (nearest_bearing bearings angle))"
proof -
  obtain n where n: "length bearings = Suc n" using assms by (cases bearings) auto
  obtain k d where kd: "fold (nearest_step bearings angle) [1..<Suc n]
      (0, bearing_distance bearings angle 0) = (k, d)" by force
  then have "nearest_bearing bearings angle = k"
    by (simp add: nearest_bearing_def n bearing_distance_def)
  with nearest_fold [OF kd] n show "nearest_bearing bearings angle < length bearings"
    "i < length bearings
     \<Longrightarrow> \<not> f_lt (bearing_distance bearings angle i)
            (bearing_distance bearings angle (nearest_bearing bearings angle))"
    by auto
qed

section \<open>A fan without aperture\<close>

lemma f_sub_finite: "fval x = FFin s m e \<Longrightarrow> f_sub x x = 0"
  using aligned_sum_self [of s m e]
  by (simp add: f_sub_def fp_round_def fp_pack_def Let_def)

lemma fval_0: "fval 0 = FFin False 0 (-149)"
  by (simp add: fval_def fp_decode_def fp_emin_def Let_def)

lemma f_scaled_0: "f_mul float_half 0 = 0" "f_mul (f_of_int 2) 0 = 0"
  by (simp_all add: float_half_def fp_eval)

lemma f_div_0: "no_number (fval (f_div x 0))"
  by (cases "fval x") (simp_all add: f_div_def fval_0)

lemma bearing_angle_0: "bearing_angle 0 = 0"
  by (simp add: bearing_angle_def M_PI_def fp_eval)

section \<open>Properties\<close>

text \<open>
  The table of bearings maps evenly spaced angles to the nearest beam. Every entry is the
  index of a bearing, and no bearing is closer to the angle of the entry; this holds for any
  bearings, sorted or not, also when some are no numbers.
\<close>

theorem lut_holds_nearest_beams:
  assumes "bearings \<noteq> []" and "b < beams" and "i < length bearings"
  shows "bearing_lut bearings beams ! b < length bearings
     \<and> \<not> f_lt (bearing_distance bearings (beam_angle bearings beams b) i)
          (bearing_distance bearings (beam_angle bearings beams b) (bearing_lut bearings beams ! b))"
proof (cases "1 < length bearings")
  case True
  then have "bearing_lut bearings beams ! b = nearest_bearing bearings (beam_angle bearings beams b)"
    using assms(2) by (simp add: bearing_lut_def)
  with nearest_bearing_least [OF assms(1)] assms(3) show ?thesis by simp
next
  case False
  then have "length bearings = 1" using assms(1) by (cases bearings) auto
  with assms(2,3) show ?thesis by (simp add: bearing_lut_def f_lt_def)
qed

lemma lut_holds_nearest_beams_witness:
  "bearing_lut [0x3F800000, 0x3F800000] 2 ! 1 < 2"
  using lut_holds_nearest_beams [of "[0x3F800000, 0x3F800000]" 1 2 1] by simp

text \<open>
  An image needs an aperture. When the outer bearings of a ping agree, as they do for a
  single beam, the aspect ratio is zero and the height of the image is the conversion of an
  infinite quotient (or of 0/0), which is undefined behaviour. It relies on \<open>sin\<close> being 0 at 0.
\<close>

theorem fan_without_aperture_has_no_image:
  assumes "get_ping_bearings msgData = Inr bearings" and "get_ping_acoustic_data (fl_sqrt lib) msgData = Inr p"
    and "bearings \<noteq> []" and "last bearings = hd bearings" and "fval (hd bearings) = FFin s m e"
    and "fl_sin lib 0 = 0"
  shows "image_from_ping_data lib l msgData imageData width = Inl Bad_conversion"
  using assms
  by (simp add: image_from_ping_data_def f_sub_finite [OF assms(5)] f_scaled_0
      no_number_trunc [OF f_div_0] Let_def)

text \<open>A ping of a single sample.\<close>

lemma single_sample_ping:
  "get_ping_bearings (sample_bytes_of 0 1 1 [0, 0]) = Inr [0]"
  "\<exists>p. get_ping_acoustic_data Sqrt_float (sample_bytes_of 0 1 1 [0, 0]) = Inr p"
proof -
  let ?bs = "sample_bytes_of 0 1 1 [0, 0]"
  let ?l = "\<lparr>il_16bits = False, il_gains = False, il_offset = 122, il_ranges = 1, il_beams = 1,
      il_bearings = 122, il_range = d_lit 254 100\<rparr>"
  have l: "layout_of ?bs = Inr ?l" by (simp add: sample_layout)
  have "read_uint 2 122 ?bs = Inr 0"
    using sample_slice [of 0 2 0 1 1 "[0, 0]"] by (simp add: read_uint_def sample_length slice_def)
  then show "get_ping_bearings ?bs = Inr [0]"
    by (simp add: get_ping_bearings_def l bearings_to_array_def write_elem_def bearing_angle_0)
  have inside: "image_inside ?l ?bs"
    by (simp add: image_inside_def line_pos_def line_bytes_def line_step_def sample_bytes_def sample_length)
  show "\<exists>p. get_ping_acoustic_data Sqrt_float ?bs = Inr p"
    using plain_samples_row_major [OF inside] l
    by (simp add: get_ping_acoustic_data_def ping_data_to_array_def int_product_def)
qed

lemma fan_without_aperture_has_no_image_witness:
  "image_from_ping_data \<lparr>fl_sin = (\<lambda>x. 0), fl_atan2 = (\<lambda>y x. 0), fl_sqrt = Sqrt_float, fl_abs = Abs_float\<rparr>
     (layout1 (sample_metadata 0 1 1)) (sample_bytes_of 0 1 1 [0, 0]) [] 1024 = Inl Bad_conversion"
proof -
  obtain p where "get_ping_acoustic_data Sqrt_float (sample_bytes_of 0 1 1 [0, 0]) = Inr p"
    using single_sample_ping(2) by blast
  with single_sample_ping(1) show ?thesis
    by (intro fan_without_aperture_has_no_image [where bearings = "[0]" and s = False and m = 0 and e = "-149"]) (simp_all add: fval_0)
qed

end
