(* ===== verification/Image_Pixels.thy ===== *)
theory Image_Pixels
  imports Ping_Image
begin

text \<open>
  What the cartesian image of \<open>helpers.h\<close> holds: the two loops over its rows and columns compute
  each pixel on its own (\<open>pixel_value\<close>), and a pixel is zero or a sample of the ping.
\<close>

section \<open>Loops that came to their end\<close>

lemma for_each_upt_done:
  assumes "for_each f [0..<n] s = Inr t" and "P 0 s"
    and "\<And>i u v. i < n \<Longrightarrow> P i u \<Longrightarrow> f i u = Inr v \<Longrightarrow> P (Suc i) v"
  shows "P n t"
  using assms(1,3)
proof (induction n arbitrary: t)
  case 0
  then show ?case using assms(2) by simp
next
  case (Suc n)
  then obtain u where u: "for_each f [0..<n] s = Inr u" "f n u = Inr t"
    by (auto simp: for_each_append bindR_Inr_iff)
  have "P n u" using Suc.IH [OF u(1)] Suc.prems(2) by simp
  then show ?case using Suc.prems(2) u(2) by blast
qed

lemma unat_index:
  fixes width :: u32
  assumes "unat width * r + c < 2 ^ 32"
  shows "unat (width * word_of_nat r + word_of_nat c) = unat width * r + c"
proof -
  have "width * word_of_nat r + word_of_nat c = (word_of_nat (unat width * r + c) :: u32)" by simp
  then show ?thesis using assms by (simp only: unat_of_nat) simp
qed

section \<open>Rows and columns\<close>

text \<open>The pixel at row \<open>r\<close> and column \<open>c\<close>; rows count from the far end of the image.\<close>

definition pixel_at ::
    "float_library \<Rightarrow> image_layout \<Rightarrow> float list \<Rightarrow> float list \<Rightarrow> float \<Rightarrow> u32 \<Rightarrow> u32 \<Rightarrow> nat \<Rightarrow> nat \<Rightarrow> float result" where
  "pixel_at lib l bearings pingData resolution width height r c =
     pixel_value lib l bearings pingData (bearing_lut bearings (il_beams l)) (f_sub (last bearings) (hd bearings))
       (f_mul resolution (f_of_int (uint (height - 1 - word_of_nat r))))
       (f_mul resolution (f_sub (f_of_int (int c)) (f_mul float_half (f_of_int (uint width)))))"

definition rows_done ::
    "float_library \<Rightarrow> image_layout \<Rightarrow> float list \<Rightarrow> float list \<Rightarrow> float \<Rightarrow> u32 \<Rightarrow> u32 \<Rightarrow> nat \<Rightarrow> float list \<Rightarrow> bool" where
  "rows_done lib l bearings pingData resolution width height n img \<longleftrightarrow>
     length img = unat width * unat height
     \<and> (\<forall>r < n. \<forall>c < unat width.
          pixel_at lib l bearings pingData resolution width height r c = Inr (img ! (unat width * r + c)))"

lemma row_index: "r < n \<Longrightarrow> c < w \<Longrightarrow> w * r + c < w * n" for w :: nat
proof -
  assume "r < n" "c < w"
  then have "w * r + c < w * Suc r" by simp
  also have "\<dots> \<le> w * n" using \<open>r < n\<close> by (intro mult_le_mono2) simp
  finally show ?thesis .
qed

lemma image_row_done:
  assumes "image_row lib l bearings pingData (bearing_lut bearings (il_beams l)) (f_sub (last bearings) (hd bearings))
      resolution width height n img = Inr img'"
    and "rows_done lib l bearings pingData resolution width height n img"
    and "n < unat height" and "unat width * unat height < 2 ^ 32"
  shows "rows_done lib l bearings pingData resolution width height (Suc n) img'"
proof -
  let ?W = "unat width" and ?pixel = "pixel_at lib l bearings pingData resolution width height"
  let ?P = "\<lambda>i im. length im = length img \<and> (\<forall>j < ?W * n. im ! j = img ! j)
      \<and> (\<forall>c < i. ?pixel n c = Inr (im ! (?W * n + c)))"
  have size: "length img = ?W * unat height" using assms(2) by (simp add: rows_done_def)
  have "?P ?W img'"
  proof (rule for_each_upt_done [where P = ?P, OF assms(1) [unfolded image_row_def Let_def]])
    show "?P 0 img" by simp
  next
    fix i u v
    let ?i = "width * word_of_nat n + word_of_nat i"
    assume i: "i < ?W" and P: "?P i u"
      and "bindR (pixel_value lib l bearings pingData (bearing_lut bearings (il_beams l)) (f_sub (last bearings) (hd bearings))
           (f_mul resolution (f_of_int (uint (height - 1 - word_of_nat n))))
           (f_mul resolution (f_sub (f_of_int (int i)) (f_mul float_half (f_of_int (uint width))))))
         (\<lambda>v. write_elem (unat ?i) v u) = Inr v"
    then obtain x where x: "?pixel n i = Inr x" "write_elem (unat ?i) x u = Inr v"
      by (auto simp: pixel_at_def bindR_Inr_iff)
    have bound: "?W * n + i < ?W * unat height" using row_index [OF assms(3) i] .
    then have "unat ?i = ?W * n + i" using assms(4) by (intro unat_index) linarith
    with x(2) bound P size have "v = u[?W * n + i := x]" by (simp add: write_elem_def)
    with P x(1) bound size show "?P (Suc i) v" by (auto simp: less_Suc_eq nth_list_update)
  qed
  with assms(2) show ?thesis
    using row_index [of _ n] by (auto simp: rows_done_def less_Suc_eq)
qed

text \<open>Every pixel is zero or a sample.\<close>

lemma pixel_is_sample: "pixel_value lib l bearings pingData lut aperture x y = Inr v \<Longrightarrow> v = f_of_int 0 \<or> v \<in> set pingData"
  by (auto simp: pixel_value_def bindR_Inr_iff lookup_def Let_def split: if_splits)

text \<open>
  C23: the cartesian image of a ping. When \<open>image_from_ping_data\<close> returns an image of less than \<open>2 ^ 32\<close>
  pixels, the image has the width asked for and as many values as pixels; the value at row \<open>r\<close> and
  column \<open>c\<close> is at \<open>width * r + c\<close> and is what \<open>pixel_at\<close> computes from the position of that
  pixel alone, whatever the image held before; and it is zero or one of the samples of the ping.
\<close>

theorem image_pixels_are_samples:
  assumes "image_from_ping_data lib l msgData imageData width = Inr (img, w, h)"
    and "unat w * unat h < 2 ^ 32"
  shows "w = width \<and> length img = unat w * unat h
     \<and> (\<exists>bearings pingData.
          get_ping_bearings msgData = Inr bearings \<and> get_ping_acoustic_data (fl_sqrt lib) msgData = Inr pingData
          \<and> (\<forall>r < unat h. \<forall>c < unat w.
               pixel_at lib l bearings pingData (f_of_double (d_div (il_range l) (d_of_int (uint (h - 1))))) w h r c
                 = Inr (img ! (unat w * r + c))
               \<and> (img ! (unat w * r + c) = f_of_int 0 \<or> img ! (unat w * r + c) \<in> set pingData)))"
proof -
  obtain bearings pingData where b: "get_ping_bearings msgData = Inr bearings"
      "get_ping_acoustic_data (fl_sqrt lib) msgData = Inr pingData"
    and w: "w = width"
    and loop: "for_each (image_row lib l bearings pingData (bearing_lut bearings (il_beams l))
        (f_sub (last bearings) (hd bearings)) (f_of_double (d_div (il_range l) (d_of_int (uint (h - 1))))) w h)
      [0..<unat h] (take (unat (w * h)) imageData @ replicate (unat (w * h) - length imageData) 0) = Inr img"
    using assms(1) by (auto simp: image_from_ping_data_def bindR_Inr_iff Let_def split: if_splits)
  let ?resolution = "f_of_double (d_div (il_range l) (d_of_int (uint (h - 1))))"
  have "unat (w * h) = unat w * unat h" using assms(2) by (simp add: unat_mult_lem [THEN iffD1])
  then have "rows_done lib l bearings pingData ?resolution w h 0
      (take (unat (w * h)) imageData @ replicate (unat (w * h) - length imageData) 0)"
    by (simp add: rows_done_def)
  from for_each_upt_done [OF loop, of "rows_done lib l bearings pingData ?resolution w h", OF this] image_row_done assms(2)
  have "rows_done lib l bearings pingData ?resolution w h (unat h) img" by blast
  then show ?thesis
    using b w pixel_is_sample unfolding rows_done_def pixel_at_def by metis
qed

text \<open>The quotient of one by one, for an image of one pixel.\<close>

lemma one_by_one: "f_to_unsigned 32 (f_div 0x3F800000 0x3F800000) = Inr 1"
proof -
  have "fval 0x3F800000 = FFin False 8388608 (-23)" by (simp add: fp_eval)
  moreover have "bit_length 8388608 = 24" "bit_length 1125899906842624 = 51" by (simp_all add: bit_length.simps)
  moreover from this have "fp_round 24 8 False 1125899906842624 (-50) False = 0x3F800000"
    by (simp add: fp_round_def fp_pack_def fp_emin_def round_shift_def Let_def)
  ultimately have "f_div 0x3F800000 0x3F800000 = 0x3F800000" by (simp add: f_div_def)
  moreover have "f_to_unsigned 32 0x3F800000 = Inr 1" by (simp add: fp_eval)
  ultimately show ?thesis by simp
qed

lemma image_pixels_are_samples_witness:
  "\<exists>img. image_from_ping_data \<lparr>fl_sin = (\<lambda>x. 0x3F000000), fl_atan2 = (\<lambda>y x. 0x40000000), fl_sqrt = Sqrt_float, fl_abs = Abs_float\<rparr>
       (layout1 (sample_metadata 0 1 1)) (sample_bytes_of 0 1 1 [0, 0]) [] 1 = Inr (img, 1, 1)
     \<and> length img = 1 \<and> img ! 0 \<in> {f_of_int 0}"
proof -
  let ?lib = "\<lparr>fl_sin = (\<lambda>x. 0x3F000000), fl_atan2 = (\<lambda>y x. 0x40000000), fl_sqrt = Sqrt_float, fl_abs = Abs_float\<rparr>"
  let ?l = "layout1 (sample_metadata 0 1 1)" and ?bs = "sample_bytes_of 0 1 1 [0, 0]"
  obtain p where p: "get_ping_acoustic_data Sqrt_float ?bs = Inr p" using single_sample_ping(2) by blast
  have aperture: "f_sub 0 0 = 0" by (rule f_sub_finite [OF fval_0])
  have aspect: "f_mul (f_of_int 2) 0x3F000000 = 0x3F800000" "f_of_int 1 = 0x3F800000" by (simp_all add: fp_eval)
  have out: "f_lt (f_mul float_half 0) (f_abs 0x40000000)" by (simp add: f_lt_def f_abs_def float_half_def fp_eval)
  have "pixel_value ?lib ?l [0] p lut 0 x y = Inr (f_of_int 0)" for lut x y
    using out by (simp add: pixel_value_def Let_def)
  then have img: "image_from_ping_data ?lib ?l ?bs [] 1 = Inr ([f_of_int 0], 1, 1)"
    by (simp add: image_from_ping_data_def single_sample_ping(1) p aperture aspect one_by_one image_row_def write_elem_def Let_def)
  from image_pixels_are_samples [OF this] show ?thesis by (auto simp: img)
qed

end
