(* ===== verification/Oculus_Return_Fire.thy ===== *)
theory Oculus_Return_Fire
  imports Oculus_Wire
begin

text \<open>
  \<open>OculusReturnFireMessage\<close> of \<open>include/oculus_driver/Oculus.h\<close> and the blocks it is made of,
  as records with their memory image, in the way of the structs of \<open>Oculus_Wire\<close>. It is the
  long form of a ping result; the driver declares it and reads none of it. An \<open>int\<close> is the
  32-bit word of its two's complement.
\<close>

text \<open>
  The configuration part; most fields have no name in the source.
\<close>

record PingConfig =
  pc_b0 :: u8
  pc_d0 :: double
  pc_range :: double
  pc_d2 :: double
  pc_d3 :: double
  pc_d4 :: double
  pc_d5 :: double
  pc_d6 :: double
  pc_nBeams :: u16
  pc_d7 :: double
  pc_b1 :: u8
  pc_b2 :: u8
  pc_b3 :: u8
  pc_b4 :: u8
  pc_b5 :: u8
  pc_b6 :: u8
  pc_u0 :: u16
  pc_b7 :: u8
  pc_b8 :: u8
  pc_b9 :: u8
  pc_b10 :: u8
  pc_b11 :: u8
  pc_b12 :: u8
  pc_b13 :: u8
  pc_b14 :: u8
  pc_b15 :: u8
  pc_b16 :: u8
  pc_u1 :: u16

definition sizeof_ping_config :: nat where
  "sizeof_ping_config = 87"

definition enc_ping_config :: "PingConfig \<Rightarrow> byte list" where
  "enc_ping_config x =
     put_le (pc_b0 x) @ put_le (pc_d0 x) @ put_le (pc_range x) @ put_le (pc_d2 x) @
     put_le (pc_d3 x) @ put_le (pc_d4 x) @ put_le (pc_d5 x) @ put_le (pc_d6 x) @
     put_le (pc_nBeams x) @ put_le (pc_d7 x) @ put_le (pc_b1 x) @ put_le (pc_b2 x) @
     put_le (pc_b3 x) @ put_le (pc_b4 x) @ put_le (pc_b5 x) @ put_le (pc_b6 x) @
     put_le (pc_u0 x) @ put_le (pc_b7 x) @ put_le (pc_b8 x) @ put_le (pc_b9 x) @
     put_le (pc_b10 x) @ put_le (pc_b11 x) @ put_le (pc_b12 x) @ put_le (pc_b13 x) @
     put_le (pc_b14 x) @ put_le (pc_b15 x) @ put_le (pc_b16 x) @ put_le (pc_u1 x)"

definition dec_ping_config :: "byte list \<Rightarrow> PingConfig option" where
  "dec_ping_config bs =
     (if length bs < 87 then None
      else Some
       \<lparr>pc_b0 = get_le 0 bs, pc_d0 = get_le 1 bs, pc_range = get_le 9 bs,
        pc_d2 = get_le 17 bs, pc_d3 = get_le 25 bs, pc_d4 = get_le 33 bs,
        pc_d5 = get_le 41 bs, pc_d6 = get_le 49 bs, pc_nBeams = get_le 57 bs,
        pc_d7 = get_le 59 bs, pc_b1 = get_le 67 bs, pc_b2 = get_le 68 bs,
        pc_b3 = get_le 69 bs, pc_b4 = get_le 70 bs, pc_b5 = get_le 71 bs,
        pc_b6 = get_le 72 bs, pc_u0 = get_le 73 bs, pc_b7 = get_le 75 bs,
        pc_b8 = get_le 76 bs, pc_b9 = get_le 77 bs, pc_b10 = get_le 78 bs,
        pc_b11 = get_le 79 bs, pc_b12 = get_le 80 bs, pc_b13 = get_le 81 bs,
        pc_b14 = get_le 82 bs, pc_b15 = get_le 83 bs, pc_b16 = get_le 84 bs,
        pc_u1 = get_le 85 bs\<rparr>)"

lemma length_enc_ping_config [simp, codec_sizes]: "length (enc_ping_config x) = 87"
  by (simp add: enc_ping_config_def)

interpretation ping_config_codec: packed_codec enc_ping_config dec_ping_config 87
proof
  fix x r
  show "length (enc_ping_config x) = 87" by simp
  show "dec_ping_config (enc_ping_config x @ r) = Some x"
    by (simp add: dec_ping_config_def enc_ping_config_def codec_simps)
next
  fix bs :: "byte list"
  show "dec_ping_config bs = None \<longleftrightarrow> length bs < 87"
    by (simp add: dec_ping_config_def)
next
  fix bs r :: "byte list"
  assume "87 \<le> length bs"
  then show "dec_ping_config (bs @ r) = dec_ping_config bs"
    by (simp add: dec_ping_config_def get_le_prefix)
next
  fix bs x
  assume "dec_ping_config bs = Some x"
  then show "enc_ping_config x = take 87 bs"
    by (auto simp: dec_ping_config_def enc_ping_config_def repack_simps split: if_splits option.splits)
qed

text \<open>
  Block \<open>s0\<close>.
\<close>

record s0 =
  s0_b0 :: u8
  s0_d0 :: double
  s0_u0 :: u16
  s0_u1 :: u16

definition sizeof_s0 :: nat where
  "sizeof_s0 = 13"

definition enc_s0 :: "s0 \<Rightarrow> byte list" where
  "enc_s0 x =
     put_le (s0_b0 x) @ put_le (s0_d0 x) @ put_le (s0_u0 x) @ put_le (s0_u1 x)"

definition dec_s0 :: "byte list \<Rightarrow> s0 option" where
  "dec_s0 bs =
     (if length bs < 13 then None
      else Some
       \<lparr>s0_b0 = get_le 0 bs, s0_d0 = get_le 1 bs, s0_u0 = get_le 9 bs, s0_u1 = get_le 11 bs\<rparr>)"

lemma length_enc_s0 [simp, codec_sizes]: "length (enc_s0 x) = 13"
  by (simp add: enc_s0_def)

interpretation s0_codec: packed_codec enc_s0 dec_s0 13
proof
  fix x r
  show "length (enc_s0 x) = 13" by simp
  show "dec_s0 (enc_s0 x @ r) = Some x"
    by (simp add: dec_s0_def enc_s0_def codec_simps)
next
  fix bs :: "byte list"
  show "dec_s0 bs = None \<longleftrightarrow> length bs < 13"
    by (simp add: dec_s0_def)
next
  fix bs r :: "byte list"
  assume "13 \<le> length bs"
  then show "dec_s0 (bs @ r) = dec_s0 bs"
    by (simp add: dec_s0_def get_le_prefix)
next
  fix bs x
  assume "dec_s0 bs = Some x"
  then show "enc_s0 x = take 13 bs"
    by (auto simp: dec_s0_def enc_s0_def repack_simps split: if_splits option.splits)
qed

text \<open>
  Block \<open>s2\<close>.
\<close>

record s2 =
  s2_b0 :: u8

definition sizeof_s2 :: nat where
  "sizeof_s2 = 1"

definition enc_s2 :: "s2 \<Rightarrow> byte list" where
  "enc_s2 x =
     put_le (s2_b0 x)"

definition dec_s2 :: "byte list \<Rightarrow> s2 option" where
  "dec_s2 bs =
     (if length bs < 1 then None
      else Some
       \<lparr>s2_b0 = get_le 0 bs\<rparr>)"

lemma length_enc_s2 [simp, codec_sizes]: "length (enc_s2 x) = 1"
  by (simp add: enc_s2_def)

interpretation s2_codec: packed_codec enc_s2 dec_s2 1
proof
  fix x r
  show "length (enc_s2 x) = 1" by simp
  show "dec_s2 (enc_s2 x @ r) = Some x"
    by (simp add: dec_s2_def enc_s2_def codec_simps)
next
  fix bs :: "byte list"
  show "dec_s2 bs = None \<longleftrightarrow> length bs < 1"
    by (simp add: dec_s2_def)
next
  fix bs r :: "byte list"
  assume "1 \<le> length bs"
  then show "dec_s2 (bs @ r) = dec_s2 bs"
    using get_le_prefix [of 0 bs r] by (auto simp: dec_s2_def)
next
  fix bs x
  assume "dec_s2 bs = Some x"
  then show "enc_s2 x = take 1 bs"
    using put_get_le_sizes(1) [of 0 bs]
    by (cases bs) (auto simp: dec_s2_def enc_s2_def slice_0 split: if_splits)
qed

text \<open>
  Block \<open>s7\<close>.
\<close>

record s7 =
  s7_b0 :: u8
  s7_b1 :: u8

definition sizeof_s7 :: nat where
  "sizeof_s7 = 2"

definition enc_s7 :: "s7 \<Rightarrow> byte list" where
  "enc_s7 x =
     put_le (s7_b0 x) @ put_le (s7_b1 x)"

definition dec_s7 :: "byte list \<Rightarrow> s7 option" where
  "dec_s7 bs =
     (if length bs < 2 then None
      else Some
       \<lparr>s7_b0 = get_le 0 bs, s7_b1 = get_le 1 bs\<rparr>)"

lemma length_enc_s7 [simp, codec_sizes]: "length (enc_s7 x) = 2"
  by (simp add: enc_s7_def)

interpretation s7_codec: packed_codec enc_s7 dec_s7 2
proof
  fix x r
  show "length (enc_s7 x) = 2" by simp
  show "dec_s7 (enc_s7 x @ r) = Some x"
    by (simp add: dec_s7_def enc_s7_def codec_simps)
next
  fix bs :: "byte list"
  show "dec_s7 bs = None \<longleftrightarrow> length bs < 2"
    by (simp add: dec_s7_def)
next
  fix bs r :: "byte list"
  assume "2 \<le> length bs"
  then show "dec_s7 (bs @ r) = dec_s7 bs"
    by (simp add: dec_s7_def get_le_prefix)
next
  fix bs x
  assume "dec_s7 bs = Some x"
  then show "enc_s7 x = take 2 bs"
    by (auto simp: dec_s7_def enc_s7_def repack_simps numeral_2_eq_2 split: if_splits option.splits)
qed

text \<open>
  Block \<open>s9\<close>.
\<close>

record s9 =
  s9_i0 :: u32
  s9_i1 :: u32
  s9_i2 :: u32
  s9_i3 :: u32
  s9_i4 :: u32
  s9_i5 :: u32

definition sizeof_s9 :: nat where
  "sizeof_s9 = 24"

definition enc_s9 :: "s9 \<Rightarrow> byte list" where
  "enc_s9 x =
     put_le (s9_i0 x) @ put_le (s9_i1 x) @ put_le (s9_i2 x) @ put_le (s9_i3 x) @
     put_le (s9_i4 x) @ put_le (s9_i5 x)"

definition dec_s9 :: "byte list \<Rightarrow> s9 option" where
  "dec_s9 bs =
     (if length bs < 24 then None
      else Some
       \<lparr>s9_i0 = get_le 0 bs, s9_i1 = get_le 4 bs, s9_i2 = get_le 8 bs,
        s9_i3 = get_le 12 bs, s9_i4 = get_le 16 bs, s9_i5 = get_le 20 bs\<rparr>)"

lemma length_enc_s9 [simp, codec_sizes]: "length (enc_s9 x) = 24"
  by (simp add: enc_s9_def)

interpretation s9_codec: packed_codec enc_s9 dec_s9 24
proof
  fix x r
  show "length (enc_s9 x) = 24" by simp
  show "dec_s9 (enc_s9 x @ r) = Some x"
    by (simp add: dec_s9_def enc_s9_def codec_simps)
next
  fix bs :: "byte list"
  show "dec_s9 bs = None \<longleftrightarrow> length bs < 24"
    by (simp add: dec_s9_def)
next
  fix bs r :: "byte list"
  assume "24 \<le> length bs"
  then show "dec_s9 (bs @ r) = dec_s9 bs"
    by (simp add: dec_s9_def get_le_prefix)
next
  fix bs x
  assume "dec_s9 bs = Some x"
  then show "enc_s9 x = take 24 bs"
    by (auto simp: dec_s9_def enc_s9_def repack_simps split: if_splits option.splits)
qed

text \<open>
  Block \<open>s8\<close>.
\<close>

record s8 =
  s8_b0 :: u8
  s8_d0 :: double
  s8_d1 :: double

definition sizeof_s8 :: nat where
  "sizeof_s8 = 17"

definition enc_s8 :: "s8 \<Rightarrow> byte list" where
  "enc_s8 x =
     put_le (s8_b0 x) @ put_le (s8_d0 x) @ put_le (s8_d1 x)"

definition dec_s8 :: "byte list \<Rightarrow> s8 option" where
  "dec_s8 bs =
     (if length bs < 17 then None
      else Some
       \<lparr>s8_b0 = get_le 0 bs, s8_d0 = get_le 1 bs, s8_d1 = get_le 9 bs\<rparr>)"

lemma length_enc_s8 [simp, codec_sizes]: "length (enc_s8 x) = 17"
  by (simp add: enc_s8_def)

interpretation s8_codec: packed_codec enc_s8 dec_s8 17
proof
  fix x r
  show "length (enc_s8 x) = 17" by simp
  show "dec_s8 (enc_s8 x @ r) = Some x"
    by (simp add: dec_s8_def enc_s8_def codec_simps)
next
  fix bs :: "byte list"
  show "dec_s8 bs = None \<longleftrightarrow> length bs < 17"
    by (simp add: dec_s8_def)
next
  fix bs r :: "byte list"
  assume "17 \<le> length bs"
  then show "dec_s8 (bs @ r) = dec_s8 bs"
    by (simp add: dec_s8_def get_le_prefix)
next
  fix bs x
  assume "dec_s8 bs = Some x"
  then show "enc_s8 x = take 17 bs"
    by (auto simp: dec_s8_def enc_s8_def repack_simps split: if_splits option.splits)
qed

text \<open>
  Block \<open>s1\<close>.
\<close>

record s1 =
  s1_b0 :: u8
  s1_u0 :: u16
  s1_b1 :: u8
  s1_d0 :: double

definition sizeof_s1 :: nat where
  "sizeof_s1 = 12"

definition enc_s1 :: "s1 \<Rightarrow> byte list" where
  "enc_s1 x =
     put_le (s1_b0 x) @ put_le (s1_u0 x) @ put_le (s1_b1 x) @ put_le (s1_d0 x)"

definition dec_s1 :: "byte list \<Rightarrow> s1 option" where
  "dec_s1 bs =
     (if length bs < 12 then None
      else Some
       \<lparr>s1_b0 = get_le 0 bs, s1_u0 = get_le 1 bs, s1_b1 = get_le 3 bs, s1_d0 = get_le 4 bs\<rparr>)"

lemma length_enc_s1 [simp, codec_sizes]: "length (enc_s1 x) = 12"
  by (simp add: enc_s1_def)

interpretation s1_codec: packed_codec enc_s1 dec_s1 12
proof
  fix x r
  show "length (enc_s1 x) = 12" by simp
  show "dec_s1 (enc_s1 x @ r) = Some x"
    by (simp add: dec_s1_def enc_s1_def codec_simps)
next
  fix bs :: "byte list"
  show "dec_s1 bs = None \<longleftrightarrow> length bs < 12"
    by (simp add: dec_s1_def)
next
  fix bs r :: "byte list"
  assume "12 \<le> length bs"
  then show "dec_s1 (bs @ r) = dec_s1 bs"
    by (simp add: dec_s1_def get_le_prefix)
next
  fix bs x
  assume "dec_s1 bs = Some x"
  then show "enc_s1 x = take 12 bs"
    by (auto simp: dec_s1_def enc_s1_def repack_simps split: if_splits option.splits)
qed

text \<open>
  Block \<open>s3\<close>.
\<close>

record s3 =
  s3_b0 :: u8
  s3_b1 :: u8
  s3_b2 :: u8
  s3_b3 :: u8
  s3_b4 :: u8
  s3_b5 :: u8
  s3_b6 :: u8
  s3_b7 :: u8
  s3_b8 :: u8
  s3_b9 :: u8
  s3_b10 :: u8
  s3_b11 :: u8
  s3_b12 :: u8
  s3_b13 :: u8
  s3_b14 :: u8
  s3_b15 :: u8
  s3_u0 :: u16
  s3_b16 :: u8
  s3_d0 :: double
  s3_d1 :: double

definition sizeof_s3 :: nat where
  "sizeof_s3 = 35"

definition enc_s3 :: "s3 \<Rightarrow> byte list" where
  "enc_s3 x =
     put_le (s3_b0 x) @ put_le (s3_b1 x) @ put_le (s3_b2 x) @ put_le (s3_b3 x) @
     put_le (s3_b4 x) @ put_le (s3_b5 x) @ put_le (s3_b6 x) @ put_le (s3_b7 x) @
     put_le (s3_b8 x) @ put_le (s3_b9 x) @ put_le (s3_b10 x) @ put_le (s3_b11 x) @
     put_le (s3_b12 x) @ put_le (s3_b13 x) @ put_le (s3_b14 x) @ put_le (s3_b15 x) @
     put_le (s3_u0 x) @ put_le (s3_b16 x) @ put_le (s3_d0 x) @ put_le (s3_d1 x)"

definition dec_s3 :: "byte list \<Rightarrow> s3 option" where
  "dec_s3 bs =
     (if length bs < 35 then None
      else Some
       \<lparr>s3_b0 = get_le 0 bs, s3_b1 = get_le 1 bs, s3_b2 = get_le 2 bs, s3_b3 = get_le 3 bs,
        s3_b4 = get_le 4 bs, s3_b5 = get_le 5 bs, s3_b6 = get_le 6 bs, s3_b7 = get_le 7 bs,
        s3_b8 = get_le 8 bs, s3_b9 = get_le 9 bs, s3_b10 = get_le 10 bs,
        s3_b11 = get_le 11 bs, s3_b12 = get_le 12 bs, s3_b13 = get_le 13 bs,
        s3_b14 = get_le 14 bs, s3_b15 = get_le 15 bs, s3_u0 = get_le 16 bs,
        s3_b16 = get_le 18 bs, s3_d0 = get_le 19 bs, s3_d1 = get_le 27 bs\<rparr>)"

lemma length_enc_s3 [simp, codec_sizes]: "length (enc_s3 x) = 35"
  by (simp add: enc_s3_def)

interpretation s3_codec: packed_codec enc_s3 dec_s3 35
proof
  fix x r
  show "length (enc_s3 x) = 35" by simp
  show "dec_s3 (enc_s3 x @ r) = Some x"
    by (simp add: dec_s3_def enc_s3_def codec_simps)
next
  fix bs :: "byte list"
  show "dec_s3 bs = None \<longleftrightarrow> length bs < 35"
    by (simp add: dec_s3_def)
next
  fix bs r :: "byte list"
  assume "35 \<le> length bs"
  then show "dec_s3 (bs @ r) = dec_s3 bs"
    by (simp add: dec_s3_def get_le_prefix)
next
  fix bs x
  assume "dec_s3 bs = Some x"
  then show "enc_s3 x = take 35 bs"
    by (auto simp: dec_s3_def enc_s3_def repack_simps split: if_splits option.splits)
qed

text \<open>
  Block \<open>s4\<close>.
\<close>

record s4 =
  s4_b0 :: u8
  s4_b1 :: u8
  s4_d0 :: double
  s4_d1 :: double
  s4_d2 :: double

definition sizeof_s4 :: nat where
  "sizeof_s4 = 26"

definition enc_s4 :: "s4 \<Rightarrow> byte list" where
  "enc_s4 x =
     put_le (s4_b0 x) @ put_le (s4_b1 x) @ put_le (s4_d0 x) @ put_le (s4_d1 x) @
     put_le (s4_d2 x)"

definition dec_s4 :: "byte list \<Rightarrow> s4 option" where
  "dec_s4 bs =
     (if length bs < 26 then None
      else Some
       \<lparr>s4_b0 = get_le 0 bs, s4_b1 = get_le 1 bs, s4_d0 = get_le 2 bs,
        s4_d1 = get_le 10 bs, s4_d2 = get_le 18 bs\<rparr>)"

lemma length_enc_s4 [simp, codec_sizes]: "length (enc_s4 x) = 26"
  by (simp add: enc_s4_def)

interpretation s4_codec: packed_codec enc_s4 dec_s4 26
proof
  fix x r
  show "length (enc_s4 x) = 26" by simp
  show "dec_s4 (enc_s4 x @ r) = Some x"
    by (simp add: dec_s4_def enc_s4_def codec_simps)
next
  fix bs :: "byte list"
  show "dec_s4 bs = None \<longleftrightarrow> length bs < 26"
    by (simp add: dec_s4_def)
next
  fix bs r :: "byte list"
  assume "26 \<le> length bs"
  then show "dec_s4 (bs @ r) = dec_s4 bs"
    by (simp add: dec_s4_def get_le_prefix)
next
  fix bs x
  assume "dec_s4 bs = Some x"
  then show "enc_s4 x = take 26 bs"
    by (auto simp: dec_s4_def enc_s4_def repack_simps split: if_splits option.splits)
qed

text \<open>
  Block \<open>s5\<close>.
\<close>

record s5 =
  s5_b0 :: u8
  s5_b1 :: u8
  s5_u0 :: u16
  s5_u1 :: u16
  s5_u2 :: u16
  s5_u3 :: u16
  s5_u4 :: u16
  s5_u5 :: u16

definition sizeof_s5 :: nat where
  "sizeof_s5 = 14"

definition enc_s5 :: "s5 \<Rightarrow> byte list" where
  "enc_s5 x =
     put_le (s5_b0 x) @ put_le (s5_b1 x) @ put_le (s5_u0 x) @ put_le (s5_u1 x) @
     put_le (s5_u2 x) @ put_le (s5_u3 x) @ put_le (s5_u4 x) @ put_le (s5_u5 x)"

definition dec_s5 :: "byte list \<Rightarrow> s5 option" where
  "dec_s5 bs =
     (if length bs < 14 then None
      else Some
       \<lparr>s5_b0 = get_le 0 bs, s5_b1 = get_le 1 bs, s5_u0 = get_le 2 bs, s5_u1 = get_le 4 bs,
        s5_u2 = get_le 6 bs, s5_u3 = get_le 8 bs, s5_u4 = get_le 10 bs,
        s5_u5 = get_le 12 bs\<rparr>)"

lemma length_enc_s5 [simp, codec_sizes]: "length (enc_s5 x) = 14"
  by (simp add: enc_s5_def)

interpretation s5_codec: packed_codec enc_s5 dec_s5 14
proof
  fix x r
  show "length (enc_s5 x) = 14" by simp
  show "dec_s5 (enc_s5 x @ r) = Some x"
    by (simp add: dec_s5_def enc_s5_def codec_simps)
next
  fix bs :: "byte list"
  show "dec_s5 bs = None \<longleftrightarrow> length bs < 14"
    by (simp add: dec_s5_def)
next
  fix bs r :: "byte list"
  assume "14 \<le> length bs"
  then show "dec_s5 (bs @ r) = dec_s5 bs"
    by (simp add: dec_s5_def get_le_prefix)
next
  fix bs x
  assume "dec_s5 bs = Some x"
  then show "enc_s5 x = take 14 bs"
    by (auto simp: dec_s5_def enc_s5_def repack_simps split: if_splits option.splits)
qed

text \<open>
  Block \<open>s6\<close>.
\<close>

record s6 =
  s6_d0 :: double
  s6_d1 :: double

definition sizeof_s6 :: nat where
  "sizeof_s6 = 16"

definition enc_s6 :: "s6 \<Rightarrow> byte list" where
  "enc_s6 x =
     put_le (s6_d0 x) @ put_le (s6_d1 x)"

definition dec_s6 :: "byte list \<Rightarrow> s6 option" where
  "dec_s6 bs =
     (if length bs < 16 then None
      else Some
       \<lparr>s6_d0 = get_le 0 bs, s6_d1 = get_le 8 bs\<rparr>)"

lemma length_enc_s6 [simp, codec_sizes]: "length (enc_s6 x) = 16"
  by (simp add: enc_s6_def)

interpretation s6_codec: packed_codec enc_s6 dec_s6 16
proof
  fix x r
  show "length (enc_s6 x) = 16" by simp
  show "dec_s6 (enc_s6 x @ r) = Some x"
    by (simp add: dec_s6_def enc_s6_def codec_simps)
next
  fix bs :: "byte list"
  show "dec_s6 bs = None \<longleftrightarrow> length bs < 16"
    by (simp add: dec_s6_def)
next
  fix bs r :: "byte list"
  assume "16 \<le> length bs"
  then show "dec_s6 (bs @ r) = dec_s6 bs"
    by (simp add: dec_s6_def get_le_prefix)
next
  fix bs x
  assume "dec_s6 bs = Some x"
  then show "enc_s6 x = take 16 bs"
    by (auto simp: dec_s6_def enc_s6_def repack_simps split: if_splits option.splits)
qed

text \<open>
  Block \<open>s10\<close>.
\<close>

record s10 =
  s10_i0 :: u32
  s10_i1 :: u32
  s10_i2 :: u32
  s10_i3 :: u32

definition sizeof_s10 :: nat where
  "sizeof_s10 = 16"

definition enc_s10 :: "s10 \<Rightarrow> byte list" where
  "enc_s10 x =
     put_le (s10_i0 x) @ put_le (s10_i1 x) @ put_le (s10_i2 x) @ put_le (s10_i3 x)"

definition dec_s10 :: "byte list \<Rightarrow> s10 option" where
  "dec_s10 bs =
     (if length bs < 16 then None
      else Some
       \<lparr>s10_i0 = get_le 0 bs, s10_i1 = get_le 4 bs, s10_i2 = get_le 8 bs,
        s10_i3 = get_le 12 bs\<rparr>)"

lemma length_enc_s10 [simp, codec_sizes]: "length (enc_s10 x) = 16"
  by (simp add: enc_s10_def)

interpretation s10_codec: packed_codec enc_s10 dec_s10 16
proof
  fix x r
  show "length (enc_s10 x) = 16" by simp
  show "dec_s10 (enc_s10 x @ r) = Some x"
    by (simp add: dec_s10_def enc_s10_def codec_simps)
next
  fix bs :: "byte list"
  show "dec_s10 bs = None \<longleftrightarrow> length bs < 16"
    by (simp add: dec_s10_def)
next
  fix bs r :: "byte list"
  assume "16 \<le> length bs"
  then show "dec_s10 (bs @ r) = dec_s10 bs"
    by (simp add: dec_s10_def get_le_prefix)
next
  fix bs x
  assume "dec_s10 bs = Some x"
  then show "enc_s10 x = take 16 bs"
    by (auto simp: dec_s10_def enc_s10_def repack_simps split: if_splits option.splits)
qed

text \<open>
  Block \<open>s11\<close>.
\<close>

record s11 =
  s11_d0 :: double
  s11_d1 :: double
  s11_d2 :: double
  s11_d3 :: double
  s11_d4 :: double

definition sizeof_s11 :: nat where
  "sizeof_s11 = 40"

definition enc_s11 :: "s11 \<Rightarrow> byte list" where
  "enc_s11 x =
     put_le (s11_d0 x) @ put_le (s11_d1 x) @ put_le (s11_d2 x) @ put_le (s11_d3 x) @
     put_le (s11_d4 x)"

definition dec_s11 :: "byte list \<Rightarrow> s11 option" where
  "dec_s11 bs =
     (if length bs < 40 then None
      else Some
       \<lparr>s11_d0 = get_le 0 bs, s11_d1 = get_le 8 bs, s11_d2 = get_le 16 bs,
        s11_d3 = get_le 24 bs, s11_d4 = get_le 32 bs\<rparr>)"

lemma length_enc_s11 [simp, codec_sizes]: "length (enc_s11 x) = 40"
  by (simp add: enc_s11_def)

interpretation s11_codec: packed_codec enc_s11 dec_s11 40
proof
  fix x r
  show "length (enc_s11 x) = 40" by simp
  show "dec_s11 (enc_s11 x @ r) = Some x"
    by (simp add: dec_s11_def enc_s11_def codec_simps)
next
  fix bs :: "byte list"
  show "dec_s11 bs = None \<longleftrightarrow> length bs < 40"
    by (simp add: dec_s11_def)
next
  fix bs r :: "byte list"
  assume "40 \<le> length bs"
  then show "dec_s11 (bs @ r) = dec_s11 bs"
    by (simp add: dec_s11_def get_le_prefix)
next
  fix bs x
  assume "dec_s11 bs = Some x"
  then show "enc_s11 x = take 40 bs"
    by (auto simp: dec_s11_def enc_s11_def repack_simps split: if_splits option.splits)
qed

text \<open>
  Block \<open>s12\<close>.
\<close>

record s12 =
  s12_d0 :: double
  s12_d1 :: double
  s12_d2 :: double
  s12_d3 :: double
  s12_d4 :: double
  s12_d5 :: double
  s12_d6 :: double

definition sizeof_s12 :: nat where
  "sizeof_s12 = 56"

definition enc_s12 :: "s12 \<Rightarrow> byte list" where
  "enc_s12 x =
     put_le (s12_d0 x) @ put_le (s12_d1 x) @ put_le (s12_d2 x) @ put_le (s12_d3 x) @
     put_le (s12_d4 x) @ put_le (s12_d5 x) @ put_le (s12_d6 x)"

definition dec_s12 :: "byte list \<Rightarrow> s12 option" where
  "dec_s12 bs =
     (if length bs < 56 then None
      else Some
       \<lparr>s12_d0 = get_le 0 bs, s12_d1 = get_le 8 bs, s12_d2 = get_le 16 bs,
        s12_d3 = get_le 24 bs, s12_d4 = get_le 32 bs, s12_d5 = get_le 40 bs,
        s12_d6 = get_le 48 bs\<rparr>)"

lemma length_enc_s12 [simp, codec_sizes]: "length (enc_s12 x) = 56"
  by (simp add: enc_s12_def)

interpretation s12_codec: packed_codec enc_s12 dec_s12 56
proof
  fix x r
  show "length (enc_s12 x) = 56" by simp
  show "dec_s12 (enc_s12 x @ r) = Some x"
    by (simp add: dec_s12_def enc_s12_def codec_simps)
next
  fix bs :: "byte list"
  show "dec_s12 bs = None \<longleftrightarrow> length bs < 56"
    by (simp add: dec_s12_def)
next
  fix bs r :: "byte list"
  assume "56 \<le> length bs"
  then show "dec_s12 (bs @ r) = dec_s12 bs"
    by (simp add: dec_s12_def get_le_prefix)
next
  fix bs x
  assume "dec_s12 bs = Some x"
  then show "enc_s12 x = take 56 bs"
    by (auto simp: dec_s12_def enc_s12_def repack_simps split: if_splits option.splits)
qed

text \<open>
  The parameters of the ping; the bearings would follow.
\<close>

record PingParameters =
  pp_u0 :: u32
  pp_u1 :: u32
  pp_d1 :: double
  pp_d2 :: double
  pp_u2 :: u32
  pp_u3 :: u32
  pp_d3 :: double
  pp_d4 :: double
  pp_d5 :: double
  pp_d6 :: double
  pp_d7 :: double
  pp_d8 :: double
  pp_d9 :: double
  pp_d10 :: double
  pp_d11 :: double
  pp_d12 :: double
  pp_d13 :: double
  pp_d14 :: double
  pp_d15 :: double
  pp_d16 :: double
  pp_d17 :: double
  pp_d18 :: double
  pp_d19 :: double
  pp_d20 :: double
  pp_u4 :: u32
  pp_nRangeLinesBfm :: u32
  pp_u5 :: u16
  pp_u6 :: u16
  pp_u7 :: u16
  pp_u8 :: u32
  pp_u9 :: u32
  pp_b0 :: u8
  pp_b1 :: u8
  pp_b2 :: u8
  pp_imageOffset :: u32
  pp_imageSize :: u32
  pp_messageSize :: u32

definition sizeof_ping_parameters :: nat where
  "sizeof_ping_parameters = 213"

definition enc_ping_parameters :: "PingParameters \<Rightarrow> byte list" where
  "enc_ping_parameters x =
     put_le (pp_u0 x) @ put_le (pp_u1 x) @ put_le (pp_d1 x) @ put_le (pp_d2 x) @
     put_le (pp_u2 x) @ put_le (pp_u3 x) @ put_le (pp_d3 x) @ put_le (pp_d4 x) @
     put_le (pp_d5 x) @ put_le (pp_d6 x) @ put_le (pp_d7 x) @ put_le (pp_d8 x) @
     put_le (pp_d9 x) @ put_le (pp_d10 x) @ put_le (pp_d11 x) @ put_le (pp_d12 x) @
     put_le (pp_d13 x) @ put_le (pp_d14 x) @ put_le (pp_d15 x) @ put_le (pp_d16 x) @
     put_le (pp_d17 x) @ put_le (pp_d18 x) @ put_le (pp_d19 x) @ put_le (pp_d20 x) @
     put_le (pp_u4 x) @ put_le (pp_nRangeLinesBfm x) @ put_le (pp_u5 x) @
     put_le (pp_u6 x) @ put_le (pp_u7 x) @ put_le (pp_u8 x) @ put_le (pp_u9 x) @
     put_le (pp_b0 x) @ put_le (pp_b1 x) @ put_le (pp_b2 x) @ put_le (pp_imageOffset x) @
     put_le (pp_imageSize x) @ put_le (pp_messageSize x)"

definition dec_ping_parameters :: "byte list \<Rightarrow> PingParameters option" where
  "dec_ping_parameters bs =
     (if length bs < 213 then None
      else Some
       \<lparr>pp_u0 = get_le 0 bs, pp_u1 = get_le 4 bs, pp_d1 = get_le 8 bs,
        pp_d2 = get_le 16 bs, pp_u2 = get_le 24 bs, pp_u3 = get_le 28 bs,
        pp_d3 = get_le 32 bs, pp_d4 = get_le 40 bs, pp_d5 = get_le 48 bs,
        pp_d6 = get_le 56 bs, pp_d7 = get_le 64 bs, pp_d8 = get_le 72 bs,
        pp_d9 = get_le 80 bs, pp_d10 = get_le 88 bs, pp_d11 = get_le 96 bs,
        pp_d12 = get_le 104 bs, pp_d13 = get_le 112 bs, pp_d14 = get_le 120 bs,
        pp_d15 = get_le 128 bs, pp_d16 = get_le 136 bs, pp_d17 = get_le 144 bs,
        pp_d18 = get_le 152 bs, pp_d19 = get_le 160 bs, pp_d20 = get_le 168 bs,
        pp_u4 = get_le 176 bs, pp_nRangeLinesBfm = get_le 180 bs, pp_u5 = get_le 184 bs,
        pp_u6 = get_le 186 bs, pp_u7 = get_le 188 bs, pp_u8 = get_le 190 bs,
        pp_u9 = get_le 194 bs, pp_b0 = get_le 198 bs, pp_b1 = get_le 199 bs,
        pp_b2 = get_le 200 bs, pp_imageOffset = get_le 201 bs,
        pp_imageSize = get_le 205 bs, pp_messageSize = get_le 209 bs\<rparr>)"

lemma length_enc_ping_parameters [simp, codec_sizes]: "length (enc_ping_parameters x) = 213"
  by (simp add: enc_ping_parameters_def)

interpretation ping_parameters_codec: packed_codec enc_ping_parameters dec_ping_parameters 213
proof
  fix x r
  show "length (enc_ping_parameters x) = 213" by simp
  show "dec_ping_parameters (enc_ping_parameters x @ r) = Some x"
    by (simp add: dec_ping_parameters_def enc_ping_parameters_def codec_simps)
next
  fix bs :: "byte list"
  show "dec_ping_parameters bs = None \<longleftrightarrow> length bs < 213"
    by (simp add: dec_ping_parameters_def)
next
  fix bs r :: "byte list"
  assume "213 \<le> length bs"
  then show "dec_ping_parameters (bs @ r) = dec_ping_parameters bs"
    by (simp add: dec_ping_parameters_def get_le_prefix)
next
  fix bs x
  assume "dec_ping_parameters bs = Some x"
  then show "enc_ping_parameters x = take 213 bs"
    by (auto simp: dec_ping_parameters_def enc_ping_parameters_def repack_simps
        split: if_splits option.splits)
qed

text \<open>What the codecs of the blocks give.\<close>

lemmas block_dec_enc =
  header_codec.dec_enc ping_config_codec.dec_enc s0_codec.dec_enc s1_codec.dec_enc
  s2_codec.dec_enc s3_codec.dec_enc s4_codec.dec_enc s5_codec.dec_enc s6_codec.dec_enc
  s7_codec.dec_enc s8_codec.dec_enc s9_codec.dec_enc s10_codec.dec_enc s11_codec.dec_enc
  s12_codec.dec_enc ping_parameters_codec.dec_enc

lemmas block_dec_None =
  header_codec.dec_None ping_config_codec.dec_None s0_codec.dec_None s1_codec.dec_None
  s2_codec.dec_None s3_codec.dec_None s4_codec.dec_None s5_codec.dec_None
  s6_codec.dec_None s7_codec.dec_None s8_codec.dec_None s9_codec.dec_None
  s10_codec.dec_None s11_codec.dec_None s12_codec.dec_None ping_parameters_codec.dec_None

lemmas block_dec_prefix =
  header_codec.dec_prefix ping_config_codec.dec_prefix s0_codec.dec_prefix
  s1_codec.dec_prefix s2_codec.dec_prefix s3_codec.dec_prefix s4_codec.dec_prefix
  s5_codec.dec_prefix s6_codec.dec_prefix s7_codec.dec_prefix s8_codec.dec_prefix
  s9_codec.dec_prefix s10_codec.dec_prefix s11_codec.dec_prefix s12_codec.dec_prefix
  ping_parameters_codec.dec_prefix

lemmas block_enc_dec =
  header_codec.enc_dec ping_config_codec.enc_dec s0_codec.enc_dec s1_codec.enc_dec
  s2_codec.enc_dec s3_codec.enc_dec s4_codec.enc_dec s5_codec.enc_dec s6_codec.enc_dec
  s7_codec.enc_dec s8_codec.enc_dec s9_codec.enc_dec s10_codec.enc_dec s11_codec.enc_dec
  s12_codec.enc_dec ping_parameters_codec.enc_dec

text \<open>
  The whole message.
\<close>

record OculusReturnFireMessage =
  rf_head :: OculusMessageHeader
  rf_ping :: PingConfig
  rf_t0 :: s0
  rf_t1 :: s1
  rf_t2 :: s2
  rf_t3 :: s3
  rf_t4 :: s4
  rf_t5 :: s5
  rf_t6 :: s6
  rf_t7 :: s7
  rf_t8 :: s8
  rf_t9 :: s9
  rf_t10 :: s10
  rf_t11 :: s11
  rf_t12 :: s12
  rf_ping_params :: PingParameters

definition sizeof_return_fire :: nat where
  "sizeof_return_fire = 588"

definition enc_return_fire :: "OculusReturnFireMessage \<Rightarrow> byte list" where
  "enc_return_fire x =
     enc_header (rf_head x) @ enc_ping_config (rf_ping x) @ enc_s0 (rf_t0 x) @
     enc_s1 (rf_t1 x) @ enc_s2 (rf_t2 x) @ enc_s3 (rf_t3 x) @ enc_s4 (rf_t4 x) @
     enc_s5 (rf_t5 x) @ enc_s6 (rf_t6 x) @ enc_s7 (rf_t7 x) @ enc_s8 (rf_t8 x) @
     enc_s9 (rf_t9 x) @ enc_s10 (rf_t10 x) @ enc_s11 (rf_t11 x) @ enc_s12 (rf_t12 x) @
     enc_ping_parameters (rf_ping_params x)"

definition dec_return_fire :: "byte list \<Rightarrow> OculusReturnFireMessage option" where
  "dec_return_fire bs =
     (if length bs < 588 then None
      else (case dec_header bs of None \<Rightarrow> None | Some v_rf_head \<Rightarrow>
        (case dec_ping_config (drop 16 bs) of None \<Rightarrow> None | Some v_rf_ping \<Rightarrow>
        (case dec_s0 (drop 103 bs) of None \<Rightarrow> None | Some v_rf_t0 \<Rightarrow>
        (case dec_s1 (drop 116 bs) of None \<Rightarrow> None | Some v_rf_t1 \<Rightarrow>
        (case dec_s2 (drop 128 bs) of None \<Rightarrow> None | Some v_rf_t2 \<Rightarrow>
        (case dec_s3 (drop 129 bs) of None \<Rightarrow> None | Some v_rf_t3 \<Rightarrow>
        (case dec_s4 (drop 164 bs) of None \<Rightarrow> None | Some v_rf_t4 \<Rightarrow>
        (case dec_s5 (drop 190 bs) of None \<Rightarrow> None | Some v_rf_t5 \<Rightarrow>
        (case dec_s6 (drop 204 bs) of None \<Rightarrow> None | Some v_rf_t6 \<Rightarrow>
        (case dec_s7 (drop 220 bs) of None \<Rightarrow> None | Some v_rf_t7 \<Rightarrow>
        (case dec_s8 (drop 222 bs) of None \<Rightarrow> None | Some v_rf_t8 \<Rightarrow>
        (case dec_s9 (drop 239 bs) of None \<Rightarrow> None | Some v_rf_t9 \<Rightarrow>
        (case dec_s10 (drop 263 bs) of None \<Rightarrow> None | Some v_rf_t10 \<Rightarrow>
        (case dec_s11 (drop 279 bs) of None \<Rightarrow> None | Some v_rf_t11 \<Rightarrow>
        (case dec_s12 (drop 319 bs) of None \<Rightarrow> None | Some v_rf_t12 \<Rightarrow>
        (case dec_ping_parameters (drop 375 bs) of None \<Rightarrow> None | Some v_rf_ping_params \<Rightarrow> Some
       \<lparr>rf_head = v_rf_head, rf_ping = v_rf_ping, rf_t0 = v_rf_t0, rf_t1 = v_rf_t1,
        rf_t2 = v_rf_t2, rf_t3 = v_rf_t3, rf_t4 = v_rf_t4, rf_t5 = v_rf_t5,
        rf_t6 = v_rf_t6, rf_t7 = v_rf_t7, rf_t8 = v_rf_t8, rf_t9 = v_rf_t9,
        rf_t10 = v_rf_t10, rf_t11 = v_rf_t11, rf_t12 = v_rf_t12,
        rf_ping_params = v_rf_ping_params\<rparr>)))))))))))))))))"

lemma length_enc_return_fire [simp, codec_sizes]: "length (enc_return_fire x) = 588"
  by (simp add: enc_return_fire_def)

interpretation return_fire_codec: packed_codec enc_return_fire dec_return_fire 588
proof
  fix x r
  show "length (enc_return_fire x) = 588" by simp
  show "dec_return_fire (enc_return_fire x @ r) = Some x"
    by (simp add: dec_return_fire_def enc_return_fire_def codec_simps block_dec_enc)
next
  fix bs :: "byte list"
  show "dec_return_fire bs = None \<longleftrightarrow> length bs < 588"
    by (auto simp: dec_return_fire_def block_dec_None split: option.splits)
next
  fix bs r :: "byte list"
  assume "588 \<le> length bs"
  then show "dec_return_fire (bs @ r) = dec_return_fire bs"
    by (simp add: dec_return_fire_def get_le_prefix block_dec_prefix split: option.split)
next
  fix bs x
  assume "dec_return_fire bs = Some x"
  then show "enc_return_fire x = take 588 bs"
    by (auto simp: dec_return_fire_def enc_return_fire_def repack_simps block_enc_dec
        split: if_splits option.splits)
qed

interpretation return_fire_header:
  nested_codec enc_return_fire dec_return_fire 588 enc_header dec_header 16 rf_head
  by unfold_locales (simp_all add: enc_return_fire_def)

end
