(* ===== verification/Spec2Isabelle.thy ===== *)
theory Spec2Isabelle
  imports Log_Cut Callback_Properties Callback_Threads Message_Properties Driver_Reconnect
    Connection_Spec Stream_Alignment Async_Service Object_Lifetime Python_Interpreter Python_Classes
    View_Lifetime Print_Utils Ping_Views Image_Pixels Oculus_Return_Fire
begin

text \<open>
  A model of the driver library for the Oculus sonars of Blueprint Subsea, and what holds of it.

  \<^bold>\<open>The program.\<close> A sonar announces itself with UDP status datagrams. \<open>SonarClient\<close> waits for one
  of them (\<open>StatusListener\<close>), connects to the sender over TCP and cuts the stream of bytes into
  messages; a timer (\<open>checker_callback\<close>) watches both and reconnects. \<open>SonarDriver\<close> derives from
  the client: it sends configurations, follows the one the sonar reports and passes messages,
  pings, dummies and changes of the configuration to callbacks (\<open>CallbackQueue\<close>), on which user
  threads may also wait. One thread (\<open>AsyncService\<close>) runs all handlers. Messages are written to
  and read from log files (\<open>Recorder\<close>, \<open>FileReader\<close>), looked into (\<open>PingMessage\<close>, \<open>helpers.h\<close>)
  and printed (\<open>print_utils.cpp\<close>). The Python package owns a driver, its thread and a recorder.

  \<^bold>\<open>The theories\<close>, each on those before it:
  \<^item> \<open>Oculus_Prelude\<close>: machine integers, results (\<open>Inl\<close> an exception or undefined behaviour), the
    memory image of integers, and the locales \<open>struct_codec\<close>, \<open>packed_codec\<close>, \<open>nested_codec\<close> that
    every struct interprets. \<open>Ieee754\<close>: binary32 and binary64 arithmetic on bit patterns.
    \<open>Show_Numbers\<close>: how a stream prints numbers.
  \<^item> \<open>Oculus_Wire\<close> and \<open>Oculus_Return_Fire\<close>: the structs and enumerations of \<open>Oculus.h\<close>.
    \<open>Oculus_Utils\<close>: \<open>utils.h\<close>. \<open>Print_Utils\<close>: \<open>print_utils.cpp\<close> and \<open>remote_from_status\<close>.
  \<^item> \<open>Callback_Queue\<close>, \<open>Callback_Properties\<close>: \<open>CallbackQueue.h\<close>, as functions on a queue that is
    part of some larger state, and as a step relation (\<open>shot_step\<close>) of the threads that wait.
    \<open>Callback_Threads\<close>: the same queue lock by lock (\<open>thread_step\<close>), any number of threads, each
    with a stack of what it still has to do, callbacks that use the queue included.
  \<^item> \<open>Oculus_Message\<close>, \<open>Message_Properties\<close>: \<open>OculusMessage.h\<close>; the virtual methods of a ping are a
    record per class. \<open>Ping_Helpers\<close>, \<open>Ping_Image\<close>, \<open>Image_Pixels\<close>: \<open>helpers.h\<close>. \<open>Ping_Views\<close>: the memory views of
    \<open>message_utils.h\<close> and \<open>oculus_message.cpp\<close>.
  \<^item> \<open>Log_File\<close>, \<open>Log_Replay\<close>: \<open>Recorder.h\<close> and \<open>Recorder.cpp\<close> over models of file streams.
    \<open>Log_Cut\<close>: files that end too early.
  \<^item> \<open>Sonar_Client\<close>: \<open>Clock.h\<close>, \<open>StatusListener.cpp\<close>, \<open>SonarClient.cpp\<close>; one function per method and
    handler, the operations under way in the field \<open>pending\<close>. \<open>Sonar_Connection\<close>: the client as a
    step relation \<open>io_step\<close> with the invariant \<open>client_inv\<close>.
  \<^item> \<open>Sonar_Driver\<close>: \<open>SonarDriver.cpp\<close>. \<open>Driver_Behaviour\<close>, \<open>Driver_Requests\<close>: messages and sent
    configurations; waiting and requests. \<open>Driver_Machine\<close>, \<open>Driver_Traces\<close>, \<open>Driver_Reconnect\<close>:
    the driver as a step relation \<open>driver_step\<close>, its invariants, a run they allow, and how a broken
    connection comes back. \<open>Connection_Spec\<close>: the connection as an abstract machine \<open>link_step\<close> that
    the driver implements. \<open>Stream_Alignment\<close>: a stream that is read from the wrong byte.
  \<^item> \<open>Async_Service\<close>: \<open>AsyncService.cpp\<close>. \<open>Python_Handle\<close>: \<open>OculusPythonHandle\<close>, which composes the
    driver, the service and the recorder; \<open>Python_Machine\<close>: the handle as a step relation
    \<open>handle_step\<close>; \<open>Object_Lifetime\<close>: its destructor, with handlers running meanwhile
    (\<open>teardown_step\<close>). \<open>Python_Classes\<close>: the attribute tables of the bound structs and the calls that take
    a configuration object. \<open>Python_Messages\<close>: the methods of messages, pings and files, over a
    store of shared objects. \<open>View_Lifetime\<close>: memory views that are kept, over the memory of the
    vector they point into. \<open>Python_Interpreter\<close>: the callback wrappers and the blocking calls, a
    script and the io service thread stepping under the interpreter lock (\<open>lock_step\<close>).

  \<^bold>\<open>How state and time appear.\<close> A class is a record; the records of a derived class extend those
  of its base, so that the client's functions apply to the driver and the driver's to the handle.
  What a socket, a timer, the clock or another thread answers is an argument: bytes received or
  sent, errors, the time, how much a vector grows. The operations the io service has under way are a list; a step completes
  one of them with any outcome. The order in which an \<open>unordered_map\<close> is walked is an argument
  that permutes its entries. User callbacks are numbers whose calls are recorded. What C++ leaves
  undefined is an error value, never a number.

  \<^bold>\<open>The interfaces.\<close> \<open>message_handler\<close> states what the reception loop needs of \<open>handle_message\<close>;
  the plain client, the driver and the recording handle interpret it, so the cutting of the stream is proved once.
  \<open>client_methods\<close> states what the client's machine needs of the virtual methods; those of the client itself,
  of the driver and of the handle meet it. The codec locales are interpreted by every struct. \<open>pybind_casters\<close> states
  what the conversions of pybind11 promise (a value cast to Python and back is the value), and
  \<open>attribute_laws\<close> what an attribute table needs so that copying the attributes copies the struct;
  every class table is an instance of it. \<open>vector_growth\<close> states what the standard promises of a
  vector that has to grow; the GNU library's doubling is an instance.

  \<^bold>\<open>What is shown.\<close>
  \<^item> Logs: what a recorder writes the reader returns; the reader implements a reader of items;
    a recording that is cut at any byte is read up to the cut, and how the cut message ends is told by
    where it was cut; \<open>rewind\<close> at the end, a second \<open>open\<close> and an overlong stamp fail as the code does.
  \<^item> Reception: a stream is cut into exactly its messages, well formed, whatever lies between them;
    each goes once to every callback, in order; a recording of a stream replays it.
  \<^item> Connection: the driver implements the abstract link; in every reachable state an attempt waits
    for one thing, watchdog and listener run, and the state moves along its diagram; a broken connection on which nothing arrives is made
    again, one that still receives stays lost, and a reset can start a second reception. A stream
    that is off by a byte is never read again.
  \<^item> Requests: what is sent decodes to what was asked; a request returns when messages come, is
    confirmed or marked, and hangs when none come; a wait that timed out writes to a dead frame.
  \<^item> Callbacks: ids are fresh and found; a true wait ran its callback once; lock by lock an
    uninterrupted call is the call as one operation, and one thread at a time runs single shots; a
    removed callback may still run, and a callback that waits on its own queue only times out.
  \<^item> Pings: which accessors return, and when a read leaves the message; arrays and memory views hold
    the same samples; with gains the array has its indices exchanged or is left; every
    pixel of a cartesian image is its own and zero or a sample; flat images and fans without aperture are undefined.
  \<^item> Service and handle: a service can always be restarted; a recording under id 0 is written twice
    after a restart; whatever a script does, loops, service and recorder stay consistent,
    and no handler runs on a part of the handle that is gone. Printing: an address
    survives it, and a header is determined by its text.
  \<^item> Python: a configuration set attribute by attribute is the one sent; which methods of a ping
    return; a message or ping that a script keeps shows what was received or read after it, and a
    view of it freed memory after a message longer than the vector had room for; \<open>stop\<close>
    and \<open>request_config\<close> keep the interpreter lock, so a pending callback blocks the first and
    any message callback the second.

  \<^bold>\<open>Loops and bounds.\<close> \<open>sample_size2\<close> (mutual recursion with \<open>has_gains\<close>) and \<open>request_loop\<close> may not
  end and are partial functions whose value \<open>None\<close> is not returning; a theorem says when they do.
  The search for a free id ends because keys are finitely many, \<open>None\<close> when all are taken.
  \<open>skip_to_sonar\<close> ends because each jump leaves fewer bytes. \<open>pump\<close>, the io service on a stream,
  completes at most \<open>n\<close> reads; the theorems on it use the number \<open>chunk_reads\<close> of reads the stream
  needs, or any \<open>n\<close> from the number of its bytes on, since a read takes at least one. \<open>maxCount\<close> is
  the source's own bound. All integers have the width of the source.

  \<^bold>\<open>Not modelled.\<close> The contents of Boost and of the standard library beyond what the code uses of
  them: sine, arc tangent, the parser of addresses and the choice among overloads of \<open>sqrt\<close> and
  \<open>abs\<close> are arguments (the driver has the \<open>abs\<close> on doubles; \<open>config_changed_with\<close> has both). The text written to the console. Memory
  shared between threads without a lock is seen at the granularity of handlers and method calls,
  except in \<open>shot_step\<close>, \<open>thread_step\<close> and \<open>lock_step\<close>. What pybind11 does itself: its conversions are
  an argument, dispatch, docstrings and reference counts are as documented. \<open>rtac_helpers.h\<close>, which fills types of another library and
  does not compile; tests, examples and packaging.
\<close>

end
